theory Spec2Isabelle
  imports
    Complex_Main
    "HOL-Library.Word"
    "HOL-Library.Sublist"
    "HOL-Library.Signed_Division"
    "HOL-Library.AList"
begin

unbundle bit_operations_syntax

section \<open>Enforcer: the user-limit table (flt_weir.c)\<close>

text \<open>
  C integers are words of their width: \<open>uint\<close>, \<open>unsigned int\<close> and \<open>int\<close> are
  \<open>32 word\<close> (an \<open>int\<close> is read with \<open>sint\<close> and compared with \<open><s\<close>),
  \<open>uint64_t\<close> is \<open>64 word\<close>. The HAProxy \<open>freq_ctr\<close> is a type parameter \<open>'c\<close>:
  its implementation is HAProxy's, not this repository's. Diagnostic \<open>send_log\<close> calls
  at debug and warning level are not part of the model; the event lines are.
\<close>

record 'c user_direction_limit =
  limit_received :: bool
  limit_timestamp :: "64 word"
  bytes_per_second :: "32 word"
  counter :: 'c
  active_requests :: "32 word"
  next_throttle_log_tick :: "32 word"

record 'c user_limit =
  upload :: "'c user_direction_limit"
  download :: "'c user_direction_limit"
  last_request_end_tick :: "32 word"

record 'c weir_filter_config =
  user_limit_state :: "string \<rightharpoonup> 'c user_limit"
  next_cleanup_tick :: "32 word"
  refresh_interval_ms :: "32 word"
  unknown_user_limit :: "32 word"
  minimum_limit :: "32 word"
  instance_id :: string

text \<open>\<open>pool_zalloc\<close>: a zeroed \<open>struct user_limit\<close>; \<open>z\<close> is the all-zero counter.\<close>

definition zalloc_direction_limit :: "'c \<Rightarrow> 'c user_direction_limit" where
  "zalloc_direction_limit z =
     \<lparr>limit_received = False, limit_timestamp = 0, bytes_per_second = 0,
      counter = z, active_requests = 0, next_throttle_log_tick = 0\<rparr>"

definition zalloc_user_limit :: "'c \<Rightarrow> 'c user_limit" where
  "zalloc_user_limit z =
     \<lparr>upload = zalloc_direction_limit z, download = zalloc_direction_limit z,
      last_request_end_tick = 0\<rparr>"

definition UINT_MAX :: "64 word" where
  "UINT_MAX = 4294967295"

text \<open>
  The update of one direction inside \<open>weir_ingest_limit_share_update\<close>:
  \<open>limit_received = true\<close>, then the share and its timestamp are overwritten when
  \<open>timestamp >= limit_timestamp\<close>. The share arrives already clamped, so the
  conversion to \<open>uint\<close> loses nothing.
\<close>

definition store_share :: "64 word \<Rightarrow> 64 word \<Rightarrow> 'c user_direction_limit \<Rightarrow> 'c user_direction_limit" where
  "store_share timestamp new_limit_share d =
     (let d1 = d\<lparr>limit_received := True\<rparr>
      in if timestamp \<ge> limit_timestamp d1
         then d1\<lparr>limit_timestamp := timestamp, bytes_per_second := ucast new_limit_share\<rparr>
         else d1)"

text \<open>
  \<open>weir_ingest_limit_share_update\<close>. The global \<open>g_filter\<close> is passed in and returned
  (\<open>None\<close> is the NULL pointer); the result is the C return value paired with the new
  global.
\<close>

definition weir_ingest_limit_share_update ::
  "'c \<Rightarrow> 'c weir_filter_config option \<Rightarrow> 64 word \<Rightarrow> string \<Rightarrow> string \<Rightarrow> string \<Rightarrow> 64 word
     \<Rightarrow> int \<times> 'c weir_filter_config option" where
  "weir_ingest_limit_share_update z g_filter timestamp user_key inst direction new_limit_share =
     (case g_filter of
        None \<Rightarrow> (0, g_filter)
      | Some conf \<Rightarrow>
          if instance_id conf \<noteq> inst then (0, g_filter)
          else
            let ul = (case user_limit_state conf user_key of
                        None \<Rightarrow> zalloc_user_limit z
                      | Some l \<Rightarrow> l);
                share = (if new_limit_share > UINT_MAX then UINT_MAX else new_limit_share);
                ul' = (if direction = ''up''
                       then ul\<lparr>upload := store_share timestamp share (upload ul)\<rparr>
                       else if direction = ''dwn''
                       then ul\<lparr>download := store_share timestamp share (download ul)\<rparr>
                       else ul)
            in (1, Some (conf\<lparr>user_limit_state := (user_limit_state conf)(user_key \<mapsto> ul')\<rparr>)))"

text \<open>One call of \<open>ingest_share\<close> as data, and a run of calls in order.\<close>

record share_call =
  call_timestamp :: "64 word"
  call_user :: string
  call_instance :: string
  call_direction :: string
  call_share :: "64 word"

definition ingest_call :: "'c \<Rightarrow> 'c weir_filter_config option \<Rightarrow> share_call \<Rightarrow> 'c weir_filter_config option" where
  "ingest_call z g c =
     snd (weir_ingest_limit_share_update z g (call_timestamp c) (call_user c)
            (call_instance c) (call_direction c) (call_share c))"

definition ingest_calls :: "'c \<Rightarrow> 'c weir_filter_config option \<Rightarrow> share_call list \<Rightarrow> 'c weir_filter_config option" where
  "ingest_calls z g cs = foldl (ingest_call z) g cs"

text \<open>The direction record a direction literal names (\<open>up\<close> or \<open>dwn\<close>).\<close>

definition direction_limit :: "string \<Rightarrow> 'c user_limit \<Rightarrow> 'c user_direction_limit" where
  "direction_limit direction ul = (if direction = ''up'' then upload ul else download ul)"

text \<open>
  What the table stores for a user and direction: the pair (timestamp, share), the
  zeroed pair when the user has no record yet.
\<close>

definition stored_share :: "'c weir_filter_config option \<Rightarrow> string \<Rightarrow> string \<Rightarrow> 64 word \<times> 32 word" where
  "stored_share g user direction =
     (case g of
        None \<Rightarrow> (0, 0)
      | Some conf \<Rightarrow>
          (case user_limit_state conf user of
             None \<Rightarrow> (0, 0)
           | Some ul \<Rightarrow> (limit_timestamp (direction_limit direction ul),
                         bytes_per_second (direction_limit direction ul))))"

text \<open>
  The reference the claim names: among the calls, in order, the pair kept is the one of
  the last call whose timestamp is not below every earlier kept timestamp, its share
  cut to \<open>2^32 - 1\<close>.
\<close>

definition clamp_share :: "64 word \<Rightarrow> 32 word" where
  "clamp_share v = (if unat v > 4294967295 then 4294967295 else word_of_nat (unat v))"

fun latest_share :: "64 word \<times> 32 word \<Rightarrow> (64 word \<times> 64 word) list \<Rightarrow> 64 word \<times> 32 word" where
  "latest_share acc [] = acc"
| "latest_share acc ((t, v) # cs) =
     latest_share (if t \<ge> fst acc then (t, clamp_share v) else acc) cs"

definition relevant_calls :: "string \<Rightarrow> string \<Rightarrow> string \<Rightarrow> share_call list \<Rightarrow> (64 word \<times> 64 word) list" where
  "relevant_calls inst user direction cs =
     map (\<lambda>c. (call_timestamp c, call_share c))
       (filter (\<lambda>c. call_instance c = inst \<and> call_user c = user \<and> call_direction c = direction) cs)"

text \<open>The record a user key denotes: the table entry, or the zeroed record \<open>pool_zalloc\<close> would create.\<close>

definition the_limit :: "'c \<Rightarrow> 'c weir_filter_config \<Rightarrow> string \<Rightarrow> 'c user_limit" where
  "the_limit z conf u = (case user_limit_state conf u of None \<Rightarrow> zalloc_user_limit z | Some l \<Rightarrow> l)"

text \<open>A concrete table and run of calls, used to exercise the theorems.\<close>

definition example_conf :: "unit weir_filter_config" where
  "example_conf = \<lparr>user_limit_state = Map.empty, next_cleanup_tick = 0, refresh_interval_ms = 10000,
     unknown_user_limit = 10485760, minimum_limit = 16384, instance_id = ''host-80''\<rparr>"

definition example_calls :: "share_call list" where
  "example_calls =
    [\<lparr>call_timestamp = 5, call_user = ''u'', call_instance = ''host-80'', call_direction = ''up'', call_share = 100\<rparr>,
     \<lparr>call_timestamp = 9, call_user = ''u'', call_instance = ''host-80'', call_direction = ''up'', call_share = 8589934592\<rparr>,
     \<lparr>call_timestamp = 9, call_user = ''u'', call_instance = ''host-80'', call_direction = ''dwn'', call_share = 11\<rparr>,
     \<lparr>call_timestamp = 3, call_user = ''u'', call_instance = ''host-80'', call_direction = ''up'', call_share = 50\<rparr>,
     \<lparr>call_timestamp = 12, call_user = ''u'', call_instance = ''other-80'', call_direction = ''up'', call_share = 1\<rparr>]"


section \<open>Enforcer: the throttle table (rate_limit.c)\<close>

datatype DataDirection = RL_UPLOAD | RL_DOWNLOAD

datatype ThrottleFlag = RL_THROTTLE | RL_NO_THROTTLE

text \<open>
  \<open>struct sockaddr_in\<close>, its port and address held as \<open>ntohs\<close> and \<open>ntohl\<close> return
  them (the byte order of the wire is not modelled).
\<close>

record sockaddr_in =
  sin_port :: "16 word"
  sin_addr :: "32 word"

definition ip_port_from_sockaddr :: "sockaddr_in option \<Rightarrow> 64 word" where
  "ip_port_from_sockaddr addr_in =
     (case addr_in of
        None \<Rightarrow> 0
      | Some a \<Rightarrow> push_bit 32 (ucast (sin_addr a)) OR ucast (sin_port a))"

text \<open>\<open>epoch_t\<close>, the result of \<open>get_current_epoch\<close>: one reading of the wall clock.\<close>

record epoch_t =
  in_seconds :: "32 word"
  now_elapsed_usec_in_the_epoch :: "64 word"

definition UNIT_USECS_IN_SEC :: "64 word" where
  "UNIT_USECS_IN_SEC = 1000000"

definition BACKOFF_WINDOW_EPOCHS :: "32 word" where
  "BACKOFF_WINDOW_EPOCHS = 6"

definition MIN_RUN_TIME_USEC :: "64 word" where
  "MIN_RUN_TIME_USEC = 50 * 1000"

text \<open>
  \<open>speed_hash_value_t\<close>. A \<open>float\<close> field holds a finite value, a real number;
  comparisons of floats are exact, so they are comparisons of reals.
\<close>

record speed_hash_value_t =
  throttle :: "32 word"
  num_active_connections :: "32 word"
  received_epoch_sec :: "32 word"
  diff_ratio :: real
  elapsed_usec_in_the_epoch :: "64 word"
  allowed_run_time_usec :: "64 word"
  previous_diff_ratio :: real

text \<open>
  Two values of the C \<open>double\<close> arithmetic in \<open>compute_allowed_run_time\<close> are inputs
  of the model, not computed by it:
  \<^item> \<open>quot_u64 e r\<close> is the value of \<open>(uint64_t)((double)e / r)\<close>;
  \<^item> \<open>scale_u64 a k\<close> is the value of \<open>(uint64_t)(a * pow(2, k))\<close> when the product
    is \<open>2^64\<close> or more: it is then out of the range of \<open>uint64_t\<close>, C leaves the
    conversion undefined, and the value is whatever the platform gives.
\<close>

record c_double =
  quot_u64 :: "64 word \<Rightarrow> real \<Rightarrow> 64 word"
  scale_u64 :: "64 word \<Rightarrow> 32 word \<Rightarrow> 64 word"

text \<open>The number of binary digits of a number.\<close>

fun bit_length :: "nat \<Rightarrow> nat" where
  "bit_length n = (if n = 0 then 0 else Suc (bit_length (n div 2)))"

declare bit_length.simps [simp del]

text \<open>
  The conversion of a \<open>uint64_t\<close> to \<open>double\<close>, as the number it yields: the operand
  rounded to 53 significant binary digits, to the nearest such number and to the even
  one of two equally near. Operands below \<open>2^53\<close> convert unchanged.
\<close>

definition double_of_u64 :: "64 word \<Rightarrow> nat" where
  "double_of_u64 a =
     (let n = unat a;
          e = bit_length n - 53;
          q = n div 2 ^ e;
          r = n mod 2 ^ e
      in if 2 * r < 2 ^ e \<or> (2 * r = 2 ^ e \<and> even q) then q * 2 ^ e else (q + 1) * 2 ^ e)"

text \<open>
  \<open>allowed * pow(2, k)\<close> assigned to the \<open>uint64_t\<close>. The operand is converted to
  \<open>double\<close>; the product with the power of two is exact; it is a whole number, and
  converts back unchanged when it is below \<open>2^64\<close>.
\<close>

definition scale_in_range :: "64 word \<Rightarrow> 32 word \<Rightarrow> bool" where
  "scale_in_range a k = (double_of_u64 a * 2 ^ unat k < 2 ^ 64)"

definition scale_pow2 :: "c_double \<Rightarrow> 64 word \<Rightarrow> 32 word \<Rightarrow> 64 word" where
  "scale_pow2 fp a k =
     (if scale_in_range a k then word_of_nat (double_of_u64 a * 2 ^ unat k)
      else scale_u64 fp a k)"

text \<open>The globals of rate\_limit.c.\<close>

record throttle_table =
  ip_port_key_hashmap :: "64 word \<rightharpoonup> string"
  key_ip_port_count_hashmap :: "string \<rightharpoonup> 32 word"
  key_upload_speed_epoch_hashmap :: "string \<rightharpoonup> speed_hash_value_t"
  key_download_speed_epoch_hashmap :: "string \<rightharpoonup> speed_hash_value_t"
  BASE_JITTER_RANGE_MS :: "32 word"

definition is_valid_violation_policy :: "speed_hash_value_t \<Rightarrow> 32 word \<Rightarrow> bool" where
  "is_valid_violation_policy policy curr_sec =
     (let policy_age_epochs = curr_sec - received_epoch_sec policy
      in policy_age_epochs \<le> BACKOFF_WINDOW_EPOCHS)"

definition get_key_speed_hash :: "throttle_table \<Rightarrow> DataDirection \<Rightarrow> (string \<rightharpoonup> speed_hash_value_t)" where
  "get_key_speed_hash tb data_direction =
     (case data_direction of
        RL_DOWNLOAD \<Rightarrow> key_download_speed_epoch_hashmap tb
      | RL_UPLOAD \<Rightarrow> key_upload_speed_epoch_hashmap tb)"

definition get_ip_port_count_from_key :: "throttle_table \<Rightarrow> string \<Rightarrow> 32 word" where
  "get_ip_port_count_from_key tb access_key =
     (case key_ip_port_count_hashmap tb access_key of None \<Rightarrow> 0 | Some count \<Rightarrow> count)"

definition get_key_from_ip_port :: "throttle_table \<Rightarrow> 64 word \<Rightarrow> string option" where
  "get_key_from_ip_port tb ip_port = ip_port_key_hashmap tb ip_port"

definition compute_allowed_run_time :: "c_double \<Rightarrow> speed_hash_value_t \<Rightarrow> 32 word \<Rightarrow> speed_hash_value_t" where
  "compute_allowed_run_time fp policy curr_sec =
     (let policy_age = curr_sec - received_epoch_sec policy;
          allowed0 = quot_u64 fp (elapsed_usec_in_the_epoch policy) (diff_ratio policy);
          allowed = max MIN_RUN_TIME_USEC allowed0
      in if policy_age = 0 then policy\<lparr>allowed_run_time_usec := 0\<rparr>
         else if policy_age \<le> BACKOFF_WINDOW_EPOCHS
         then policy\<lparr>allowed_run_time_usec :=
                min (scale_pow2 fp allowed (policy_age - 1)) UNIT_USECS_IN_SEC\<rparr>
         else policy\<lparr>allowed_run_time_usec := UNIT_USECS_IN_SEC\<rparr>)"

text \<open>The zero-initialised \<open>found = {.throttle = 0}\<close>.\<close>

definition no_policy_found :: speed_hash_value_t where
  "no_policy_found =
     \<lparr>throttle = 0, num_active_connections = 0, received_epoch_sec = 0, diff_ratio = 0,
      elapsed_usec_in_the_epoch = 0, allowed_run_time_usec = 0, previous_diff_ratio = 0\<rparr>"

text \<open>
  \<open>get_epoch_sec\<close>: the policy found and the access key written through the pointer
  (\<open>None\<close> is NULL). The caller always passes a valid pointer for the key.
\<close>

definition get_epoch_sec ::
  "throttle_table \<Rightarrow> c_double \<Rightarrow> 64 word \<Rightarrow> DataDirection \<Rightarrow> 32 word \<Rightarrow> speed_hash_value_t \<times> string option" where
  "get_epoch_sec tb fp ip_port data_direction curr_sec =
     (let access_key = get_key_from_ip_port tb ip_port
      in case access_key of
           None \<Rightarrow> (no_policy_found, access_key)
         | Some key \<Rightarrow>
             if length key = 0 then (no_policy_found, access_key)
             else
               (case get_key_speed_hash tb data_direction key of
                  None \<Rightarrow> (no_policy_found, access_key)
                | Some v \<Rightarrow>
                    let found = v\<lparr>throttle := 0\<rparr>
                    in if is_valid_violation_policy found curr_sec
                       then (compute_allowed_run_time fp
                               (found\<lparr>throttle := 1,
                                  num_active_connections := get_ip_port_count_from_key tb key\<rparr>)
                               curr_sec, access_key)
                       else (found, access_key)))"

text \<open>
  \<open>get_jitter_usec\<close>; \<open>rnd\<close> is what \<open>ha_random32()\<close> returns. The remainder by a
  jitter range of zero traps: \<open>None\<close>.
\<close>

definition DIFF_RATIO_LOW_MARK_TO_JITTER :: real where
  "DIFF_RATIO_LOW_MARK_TO_JITTER = 3 / 2"

definition get_jitter_usec :: "throttle_table \<Rightarrow> 32 word \<Rightarrow> speed_hash_value_t \<Rightarrow> 32 word option" where
  "get_jitter_usec tb rnd policy =
     (let jitter = (max (previous_diff_ratio policy) (diff_ratio policy) \<ge> DIFF_RATIO_LOW_MARK_TO_JITTER
                    \<or> diff_ratio policy - previous_diff_ratio policy > 0)
      in if jitter
         then (if BASE_JITTER_RANGE_MS tb = 0 then None
               else Some ((rnd mod BASE_JITTER_RANGE_MS tb) * 1000))
         else Some 0)"

text \<open>
  \<open>rl_speed_throttle\<close>: the flag returned and the microseconds slept (\<open>usleep\<close>);
  \<open>None\<close> when the jitter computation traps.
\<close>

definition rl_speed_throttle ::
  "throttle_table \<Rightarrow> c_double \<Rightarrow> epoch_t \<Rightarrow> 32 word \<Rightarrow> sockaddr_in option \<Rightarrow> DataDirection
     \<Rightarrow> (ThrottleFlag \<times> 32 word) option" where
  "rl_speed_throttle tb fp current_epoch rnd addr_in data_direction =
     (case addr_in of
        None \<Rightarrow> Some (RL_NO_THROTTLE, 0)
      | Some a \<Rightarrow>
          let ip_port = ip_port_from_sockaddr addr_in;
              found = fst (get_epoch_sec tb fp ip_port data_direction (in_seconds current_epoch))
          in if throttle found = 0 then Some (RL_NO_THROTTLE, 0)
             else if now_elapsed_usec_in_the_epoch current_epoch < allowed_run_time_usec found
             then (case get_jitter_usec tb rnd found of
                     None \<Rightarrow> None
                   | Some jitter_us \<Rightarrow> Some (RL_NO_THROTTLE, jitter_us))
             else Some (RL_THROTTLE, 0))"

text \<open>
  \<open>set_throttle_epoch_us\<close>; \<open>current_epoch\<close> is the clock reading it takes. An
  empty key changes nothing.
\<close>

definition set_speed_hash ::
  "throttle_table \<Rightarrow> DataDirection \<Rightarrow> (string \<rightharpoonup> speed_hash_value_t) \<Rightarrow> throttle_table" where
  "set_speed_hash tb data_direction h =
     (case data_direction of
        RL_DOWNLOAD \<Rightarrow> tb\<lparr>key_download_speed_epoch_hashmap := h\<rparr>
      | RL_UPLOAD \<Rightarrow> tb\<lparr>key_upload_speed_epoch_hashmap := h\<rparr>)"

definition set_throttle_epoch_us ::
  "throttle_table \<Rightarrow> epoch_t \<Rightarrow> string \<Rightarrow> 64 word \<Rightarrow> DataDirection \<Rightarrow> real \<Rightarrow> throttle_table" where
  "set_throttle_epoch_us tb current_epoch key epoch_us data_direction ratio =
     (let v = \<lparr>throttle = in_seconds current_epoch, num_active_connections = 0,
                received_epoch_sec = in_seconds current_epoch, diff_ratio = ratio,
                elapsed_usec_in_the_epoch = epoch_us mod UNIT_USECS_IN_SEC,
                allowed_run_time_usec = 0, previous_diff_ratio = 0\<rparr>;
          hash = get_key_speed_hash tb data_direction
      in if length key = 0 then tb
         else (case hash key of
                 Some found \<Rightarrow>
                   set_speed_hash tb data_direction
                     (hash(key \<mapsto> v\<lparr>previous_diff_ratio := diff_ratio found\<rparr>))
               | None \<Rightarrow> set_speed_hash tb data_direction (hash(key \<mapsto> v))))"

text \<open>
  The condition of the policy validity window: the address is present, maps to a
  non-empty user key, and that key has a policy in the direction whose age, the
  \<open>uint32_t\<close> difference of the current second and \<open>received_epoch_sec\<close>, is at most 6.
\<close>

definition has_valid_policy :: "throttle_table \<Rightarrow> epoch_t \<Rightarrow> sockaddr_in option \<Rightarrow> DataDirection \<Rightarrow> bool" where
  "has_valid_policy tb current_epoch addr_in data_direction =
     (case addr_in of
        None \<Rightarrow> False
      | Some a \<Rightarrow>
          (case ip_port_key_hashmap tb (ip_port_from_sockaddr addr_in) of
             None \<Rightarrow> False
           | Some key \<Rightarrow>
               key \<noteq> [] \<and>
               (case get_key_speed_hash tb data_direction key of
                  None \<Rightarrow> False
                | Some policy \<Rightarrow>
                    unat (in_seconds current_epoch - received_epoch_sec policy) \<le> 6)))"


text \<open>
  A concrete throttle table: the connection 1.2.3.4:80 belongs to user \<open>u\<close>, whose
  download policy was installed at second 100 with \<open>epoch_us = 750000\<close> and ratio 2.
  \<open>exact_double\<close> takes the quotient where the division is exact, and gives 0 for the
  conversion of a product out of range, one of the results C allows there.
\<close>

definition exact_double :: c_double where
  "exact_double =
     \<lparr>quot_u64 = (\<lambda>e r. word_of_nat (nat \<lfloor>real (unat e) / r\<rfloor>)),
      scale_u64 = (\<lambda>a k. 0)\<rparr>"

definition example_addr :: sockaddr_in where
  "example_addr = \<lparr>sin_port = 80, sin_addr = 16909060\<rparr>"

definition example_empty_table :: throttle_table where
  "example_empty_table =
     \<lparr>ip_port_key_hashmap = [ip_port_from_sockaddr (Some example_addr) \<mapsto> ''u''],
      key_ip_port_count_hashmap = [''u'' \<mapsto> 1],
      key_upload_speed_epoch_hashmap = Map.empty,
      key_download_speed_epoch_hashmap = Map.empty,
      BASE_JITTER_RANGE_MS = 2\<rparr>"

definition example_table :: throttle_table where
  "example_table =
     set_throttle_epoch_us example_empty_table
       \<lparr>in_seconds = 100, now_elapsed_usec_in_the_epoch = 0\<rparr> ''u'' 750000 RL_DOWNLOAD 2"

definition example_policy :: speed_hash_value_t where
  "example_policy =
     \<lparr>throttle = 100, num_active_connections = 0, received_epoch_sec = 100, diff_ratio = 2,
      elapsed_usec_in_the_epoch = 750000, allowed_run_time_usec = 0, previous_diff_ratio = 0\<rparr>"

text \<open>The policy of the example with \<open>epoch_us = 999999\<close> and another ratio.\<close>

definition example_policy_ratio :: "real \<Rightarrow> speed_hash_value_t" where
  "example_policy_ratio r =
     example_policy\<lparr>diff_ratio := r, elapsed_usec_in_the_epoch := 999999\<rparr>"

section \<open>Enforcer: the filter (flt_weir.c)\<close>

text \<open>
  HAProxy's frequency counter is used through four primitives that are not part of this
  repository. They are parameters of the model: each is a function of the counter (and,
  inside HAProxy, of the current tick, which the functions given here have already
  read). \<open>freq_ctr_overshoot_period\<close> returns an \<open>int\<close>.
\<close>

record 'c freq_ctr_ops =
  freq_ctr_overshoot_period :: "'c \<Rightarrow> 32 word \<Rightarrow> 32 word \<Rightarrow> 32 word"
  freq_ctr_remain_period :: "'c \<Rightarrow> 32 word \<Rightarrow> 32 word \<Rightarrow> 32 word \<Rightarrow> 32 word"
  update_freq_ctr_period :: "'c \<Rightarrow> 32 word \<Rightarrow> 32 word \<Rightarrow> 'c"
  next_event_delay_period :: "'c \<Rightarrow> 32 word \<Rightarrow> 32 word \<Rightarrow> 32 word \<Rightarrow> 32 word"

text \<open>
  Modelled from the spec: \<open>div64_32\<close> is HAProxy's helper, absent from src/. The spec
  writes its result as the quotient \<open>a / b\<close> of the 64-bit dividend by the 32-bit
  divisor; a zero divisor traps (\<open>None\<close>).
\<close>

definition div64_32 :: "64 word \<Rightarrow> 32 word \<Rightarrow> 64 word option" where
  "div64_32 o1 o2 = (if o2 = 0 then None else Some (o1 div ucast o2))"

text \<open>\<open>struct apply_limit_result\<close>: two \<open>int\<close> fields.\<close>

record apply_limit_result =
  wait_ms :: "32 word"
  bytes_to_forward :: "32 word"

text \<open>
  \<open>apply_bandwidth_limit\<close>. The counter is passed in and returned. \<open>requests\<close> is an
  \<open>int\<close>: it is sign-extended where the code converts it to \<open>uint64_t\<close>, and added
  as it is where the code adds it to an \<open>unsigned int\<close>; that sum is computed in 32
  bits before the cast widens it. The comparisons of the \<open>int\<close> field
  \<open>bytes_to_forward\<close> with unsigned values are unsigned, as C converts them.
\<close>

definition apply_bandwidth_limit ::
  "'c freq_ctr_ops \<Rightarrow> 'c \<Rightarrow> 32 word \<Rightarrow> 32 word \<Rightarrow> 32 word \<Rightarrow> (apply_limit_result \<times> 'c) option" where
  "apply_bandwidth_limit ops ctr limit requests bytes_available =
     (let period_ms = (1000 :: 64 word);
          max_wait_ms = 2 * period_ms;
          overshoot_bytes = freq_ctr_overshoot_period ops ctr (ucast period_ms) limit
      in if 0 <s overshoot_bytes
         then (if limit > 0
               then (case div64_32 (scast overshoot_bytes * period_ms * scast requests) limit of
                       None \<Rightarrow> None
                     | Some q \<Rightarrow>
                         Some (\<lparr>wait_ms = ucast (min max_wait_ms q), bytes_to_forward = 0\<rparr>, ctr))
               else Some (\<lparr>wait_ms = ucast max_wait_ms, bytes_to_forward = 0\<rparr>, ctr))
         else
           (let quota_bytes_remaining = freq_ctr_remain_period ops ctr (ucast period_ms) limit 0
            in case div64_32 (ucast (quota_bytes_remaining + requests - 1)) requests of
                 None \<Rightarrow> None
               | Some q \<Rightarrow>
                   let quota = (ucast q :: 32 word);
                       forward = min bytes_available quota;
                       ctr' = update_freq_ctr_period ops ctr (ucast period_ms) forward;
                       wait = (if forward < bytes_available
                               then ucast (min max_wait_ms
                                      (ucast (next_event_delay_period ops ctr' (ucast period_ms) limit 0)))
                               else 0)
                   in Some (\<lparr>wait_ms = wait, bytes_to_forward = forward\<rparr>, ctr')))"

text \<open>
  Modelled from the spec: HAProxy's tick helpers, absent from src/. The spec speaks of a
  tick that is "unset or expired" and of the deadline
  \<open>min(existing_or_ETERNITY, next_allowed_send_tick)\<close>: the unset tick is
  \<open>TICK_ETERNITY = 0\<close>, a set tick is expired when it is not after \<open>now\<close> in wrapping
  32-bit time, \<open>tick_add\<close> never yields the unset tick, and \<open>tick_first\<close> is the earlier
  of two ticks, an unset one counting as never.
\<close>

definition TICK_ETERNITY :: "32 word" where
  "TICK_ETERNITY = 0"

definition tick_isset :: "32 word \<Rightarrow> bool" where
  "tick_isset expire = (expire \<noteq> 0)"

definition tick_is_expired :: "32 word \<Rightarrow> 32 word \<Rightarrow> bool" where
  "tick_is_expired timer now = (tick_isset timer \<and> sint (timer - now) \<le> 0)"

definition tick_add :: "32 word \<Rightarrow> 32 word \<Rightarrow> 32 word" where
  "tick_add now timeout = (let t = now + timeout in if t = 0 then 1 else t)"

definition tick_first :: "32 word \<Rightarrow> 32 word \<Rightarrow> 32 word" where
  "tick_first t1 t2 =
     (if \<not> tick_isset t1 then t2
      else if \<not> tick_isset t2 then t1
      else if sint (t1 - t2) \<le> 0 then t1 else t2)"

text \<open>\<open>struct weir_lim_state\<close>. The pointer \<open>limit\<close> into the user-limit table is the
  key of the record it points to; \<open>None\<close> is NULL.\<close>

record weir_lim_state =
  remote_addr :: "sockaddr_in option"
  limit :: "string option"
  limit_key :: "string option"
  request_class :: "string option"
  bandwidth_limit_direction :: "string option"
  next_allowed_send_tick :: "32 word"
  enabled :: bool
  headers_processed :: bool

text \<open>The event lines the payload path logs at \<open>LOG_INFO\<close>, by their fields.\<close>

datatype enforcer_event =
  Data_xfer sockaddr_in string DataDirection "32 word"
| Weir_throttle int string string

definition rl_data_transferred ::
  "throttle_table \<Rightarrow> sockaddr_in option \<Rightarrow> DataDirection \<Rightarrow> 32 word \<Rightarrow> enforcer_event list" where
  "rl_data_transferred tb addr_in data_direction done =
     (case addr_in of
        None \<Rightarrow> []
      | Some a \<Rightarrow>
          (case get_key_from_ip_port tb (ip_port_from_sockaddr addr_in) of
             None \<Rightarrow> []
           | Some access_key \<Rightarrow>
               if length access_key = 0 then []
               else [Data_xfer a access_key data_direction done]))"

text \<open>
  What \<open>weir_http_payload\<close> reads besides the stream state: whether the message is on
  the request channel, the channel's \<open>analyse_exp\<close>, \<open>now_ms\<close>, the wall clock as
  \<open>get_current_epoch\<close> and \<open>clock_gettime\<close> return it, and \<open>ha_random32()\<close>.
\<close>

record payload_env =
  on_request_channel :: bool
  analyse_exp :: "32 word"
  now_ms :: "32 word"
  current_epoch :: epoch_t
  realtime_usec :: int
  random32 :: "32 word"

record 'c payload_result =
  returned_bytes :: "32 word"
  stream_state :: weir_lim_state
  channel_analyse_exp :: "32 word"
  limit_table :: "string \<rightharpoonup> 'c user_limit"
  logged :: "enforcer_event list"
  slept_usec :: "32 word"

definition set_next_throttle_log_tick ::
  "DataDirection \<Rightarrow> 32 word \<Rightarrow> 'c user_limit \<Rightarrow> 'c user_limit" where
  "set_next_throttle_log_tick direction t ul =
     (case direction of
        RL_DOWNLOAD \<Rightarrow> ul\<lparr>download := (download ul)\<lparr>next_throttle_log_tick := t\<rparr>\<rparr>
      | RL_UPLOAD \<Rightarrow> ul\<lparr>upload := (upload ul)\<lparr>next_throttle_log_tick := t\<rparr>\<rparr>)"

definition get_next_throttle_log_tick :: "DataDirection \<Rightarrow> 'c user_limit \<Rightarrow> 32 word" where
  "get_next_throttle_log_tick direction ul =
     (case direction of
        RL_DOWNLOAD \<Rightarrow> next_throttle_log_tick (download ul)
      | RL_UPLOAD \<Rightarrow> next_throttle_log_tick (upload ul))"

text \<open>
  \<open>weir_http_payload\<close>. \<open>None\<close> is an abort: a \<open>WEIR_BUG_ON\<close> that fires, a
  \<open>limit\<close> pointer that is NULL or dangling, or a trap inside \<open>rl_speed_throttle\<close>.
  On one thread the compare-and-swap on the log tick always succeeds. The code forwards
  the whole chunk when the connection is not throttled; it calls neither
  \<open>apply_bandwidth_limit\<close> nor any counter primitive.
\<close>

definition weir_http_payload ::
  "throttle_table \<Rightarrow> c_double \<Rightarrow> (string \<rightharpoonup> 'c user_limit) \<Rightarrow> payload_env \<Rightarrow> weir_lim_state
     \<Rightarrow> 32 word \<Rightarrow> 32 word \<Rightarrow> 'c payload_result option" where
  "weir_http_payload tb fp table env st offset len =
     (let direction = (if on_request_channel env then RL_UPLOAD else RL_DOWNLOAD);
          finish = (\<lambda>bytes st' table' evs slept.
            Some \<lparr>returned_bytes = bytes, stream_state = st',
                  channel_analyse_exp =
                    tick_first (if tick_is_expired (analyse_exp env) (now_ms env)
                                then TICK_ETERNITY else analyse_exp env)
                      (next_allowed_send_tick st'),
                  limit_table = table', logged = evs, slept_usec = slept\<rparr>)
      in if \<not> enabled st then None
         else if remote_addr st = None then finish len st table [] 0
         else if len > 0 \<and> (if tick_isset (next_allowed_send_tick st)
                             then tick_is_expired (next_allowed_send_tick st) (now_ms env)
                             else True)
         then
           (let st1 = st\<lparr>next_allowed_send_tick := TICK_ETERNITY\<rparr>
            in case limit st1 of
                 None \<Rightarrow> None
               | Some limit_ptr \<Rightarrow>
               (case bandwidth_limit_direction st1 of
                 None \<Rightarrow> None
               | Some direction_literal \<Rightarrow>
                 (case rl_speed_throttle tb fp (current_epoch env) (random32 env)
                         (remote_addr st1) direction of
                    None \<Rightarrow> None
                  | Some (RL_THROTTLE, slept) \<Rightarrow>
                      (case table limit_ptr of
                         None \<Rightarrow> None
                       | Some ul \<Rightarrow>
                           let next_tick = get_next_throttle_log_tick direction ul;
                               st2 = st1\<lparr>next_allowed_send_tick := tick_add (now_ms env) 1\<rparr>
                           in if (if tick_isset next_tick
                                  then tick_is_expired next_tick (now_ms env) else True)
                              then finish 0 st2
                                     (table(limit_ptr \<mapsto>
                                        set_next_throttle_log_tick direction
                                          (tick_add (now_ms env) 1000) ul))
                                     [Weir_throttle (realtime_usec env) direction_literal
                                        (case limit_key st1 of None \<Rightarrow> [] | Some k \<Rightarrow> k)]
                                     slept
                              else finish 0 st2 table [] slept)
                  | Some (RL_NO_THROTTLE, slept) \<Rightarrow>
                      finish len st1 table
                        (rl_data_transferred tb (remote_addr st1) direction len) slept)))
         else finish 0 st table [] 0)"

text \<open>
  Modelled from the spec: the frequency counter of section 4.1 (HAProxy's, absent from
  src/), reduced to the bytes admitted in the current window. The overshoot is the
  excess of the admitted bytes over the limit, else 0; the remaining quota is what may
  still be admitted without crossing the limit; an update admits bytes; the next event
  is due at once while quota remains and after one period otherwise.
\<close>

definition window_ctr_ops :: "nat freq_ctr_ops" where
  "window_ctr_ops =
     \<lparr>freq_ctr_overshoot_period = (\<lambda>c period freq. word_of_nat (c - unat freq)),
      freq_ctr_remain_period = (\<lambda>c period freq pend. word_of_nat (unat freq - (c + unat pend))),
      update_freq_ctr_period = (\<lambda>c period inc. c + unat inc),
      next_event_delay_period = (\<lambda>c period freq pend. if c + unat pend < unat freq then 0 else period)\<rparr>"

text \<open>
  A stream of user \<open>u\<close> downloading from 1.2.3.4:80, with no throttle policy installed.
  The user's share is 1000 bytes per second, two requests are active, and the download
  counter already holds 1200 bytes.
\<close>

definition example_limits :: "string \<rightharpoonup> nat user_limit" where
  "example_limits =
     [''u'' \<mapsto>
        \<lparr>upload = zalloc_direction_limit 0,
         download = \<lparr>limit_received = True, limit_timestamp = 7, bytes_per_second = 1000,
                      counter = 1200, active_requests = 2, next_throttle_log_tick = 0\<rparr>,
         last_request_end_tick = 0\<rparr>]"

definition example_stream :: weir_lim_state where
  "example_stream =
     \<lparr>remote_addr = Some example_addr, limit = Some ''u'', limit_key = Some ''u'',
      request_class = None, bandwidth_limit_direction = Some ''dwn'',
      next_allowed_send_tick = TICK_ETERNITY, enabled = True, headers_processed = True\<rparr>"

definition example_env :: payload_env where
  "example_env =
     \<lparr>on_request_channel = False, analyse_exp = TICK_ETERNITY, now_ms = 5000,
      current_epoch = \<lparr>in_seconds = 101, now_elapsed_usec_in_the_epoch = 400000\<rparr>,
      realtime_usec = 101400000, random32 = 7\<rparr>"


section \<open>Aggregator: the tokenizer (stringsplit.cpp)\<close>

text \<open>
  A C++ exception that leaves a model function is a value of \<open>cpp_exception\<close>; a
  function that can throw returns \<open>cpp_exception + 'a\<close>, \<open>Inl\<close> the exception.
\<close>

datatype cpp_exception = Out_of_range | Runtime_error string

text \<open>
  The two \<open>std::string_view\<close> members the tokenizer calls, as the C++ standard defines
  them (they are not part of the repository): \<open>find\<close> returns the lowest position at or
  after \<open>pos\<close> where the pattern starts, \<open>None\<close> for \<open>npos\<close>; \<open>substr\<close> throws
  \<open>std::out_of_range\<close> when \<open>pos\<close> is past the end.
\<close>

fun find_sub :: "string \<Rightarrow> string \<Rightarrow> nat option" where
  "find_sub d [] = (if d = [] then Some 0 else None)"
| "find_sub d (c # cs) =
     (if prefix d (c # cs) then Some 0 else map_option Suc (find_sub d cs))"

definition sv_find :: "string \<Rightarrow> string \<Rightarrow> nat \<Rightarrow> nat option" where
  "sv_find s d pos =
     (if pos > length s then None else map_option (\<lambda>i. i + pos) (find_sub d (drop pos s)))"

definition sv_substr :: "string \<Rightarrow> nat \<Rightarrow> nat \<Rightarrow> cpp_exception + string" where
  "sv_substr s pos count =
     (if pos > length s then Inl Out_of_range else Inr (take count (drop pos s)))"

definition sv_substr_from :: "string \<Rightarrow> nat \<Rightarrow> cpp_exception + string" where
  "sv_substr_from s pos =
     (if pos > length s then Inl Out_of_range else Inr (drop pos s))"

record StringSplit =
  m_input :: string
  m_delimiter :: string
  m_index :: nat
  m_error :: bool
  m_eof :: bool

text \<open>The constructor.\<close>

definition StringSplit_new :: "string \<Rightarrow> string \<Rightarrow> StringSplit" where
  "StringSplit_new input delimiter =
     \<lparr>m_input = input, m_delimiter = delimiter, m_index = 0,
      m_error = (delimiter = []), m_eof = False\<rparr>"

text \<open>\<open>StringSplit::next\<close>: the view returned and the splitter after the call.\<close>

definition StringSplit_next :: "StringSplit \<Rightarrow> cpp_exception + (string \<times> StringSplit)" where
  "StringSplit_next s =
     (if m_error s then Inr ([], s)
      else if m_eof s then Inr ([], s\<lparr>m_error := True\<rparr>)
      else if m_input s = [] then Inr ([], s\<lparr>m_eof := True, m_index := 1\<rparr>)
      else
        (case sv_find (m_input s) (m_delimiter s) (m_index s) of
           None \<Rightarrow>
             (case sv_substr_from (m_input s) (m_index s) of
                Inl e \<Rightarrow> Inl e
              | Inr result \<Rightarrow>
                  Inr (result, s\<lparr>m_eof := True, m_index := length (m_input s)\<rparr>))
         | Some next_index \<Rightarrow>
             (case sv_substr (m_input s) (m_index s) (next_index - m_index s) of
                Inl e \<Rightarrow> Inl e
              | Inr result \<Rightarrow>
                  Inr (result, s\<lparr>m_index := next_index + length (m_delimiter s)\<rparr>))))"

definition finishedSuccessfully :: "StringSplit \<Rightarrow> bool" where
  "finishedSuccessfully s = (\<not> m_error s \<and> m_index s \<ge> length (m_input s))"

text \<open>
  \<open>n\<close> calls of \<open>next()\<close> in a row, as the loop of \<open>processReq\<close> and the straight-line
  calls of the other parsers make them: the views in order, and the splitter at the end.
\<close>

fun next_n :: "nat \<Rightarrow> StringSplit \<Rightarrow> cpp_exception + (string list \<times> StringSplit)" where
  "next_n 0 s = Inr ([], s)"
| "next_n (Suc n) s =
     (case StringSplit_next s of
        Inl e \<Rightarrow> Inl e
      | Inr (tok, s') \<Rightarrow>
          (case next_n n s' of
             Inl e \<Rightarrow> Inl e
           | Inr (toks, s'') \<Rightarrow> Inr (tok # toks, s'')))"

text \<open>
  The reference for "the delimiter-separated fields of a line": the line is cut at the
  leftmost occurrence of the delimiter, and the rest is cut again. An empty delimiter
  cuts nothing.
\<close>

function split_fields :: "string \<Rightarrow> string \<Rightarrow> string list" where
  "split_fields d s =
     (if d = [] then [s]
      else (case find_sub d s of
              None \<Rightarrow> [s]
            | Some i \<Rightarrow> take i s # split_fields d (drop (i + length d) s)))"
  by pat_completeness auto
termination
proof (relation "measure (\<lambda>(d, s). length s)")
  show "wf (measure (\<lambda>(d, s). length s))" by simp
next
  fix d s :: string and i :: nat
  assume "d \<noteq> []" and "find_sub d s = Some i"
  then have "s \<noteq> []" by (cases s) auto
  with \<open>d \<noteq> []\<close> show "((d, drop (i + length d) s), (d, s)) \<in> measure (\<lambda>(d, s). length s)"
    by (cases d) auto
qed

declare split_fields.simps [simp del]

text \<open>A splitter in the middle of its input: no error, not at the end, at index \<open>i\<close>.\<close>

definition live :: "string \<Rightarrow> string \<Rightarrow> nat \<Rightarrow> StringSplit" where
  "live inp d i = \<lparr>m_input = inp, m_delimiter = d, m_index = i, m_error = False, m_eof = False\<rparr>"

definition DELIMITER :: string where
  "DELIMITER = ''~|~''"


section \<open>Aggregator: parsing and coalescing (msg\_processor.cpp)\<close>

text \<open>
  \<open>std::isprint\<close> in the C locale and \<open>std::from_chars\<close> for \<open>int\<close> in base 10, as the
  C and C++ standards define them (they are not part of the repository). \<open>from_chars\<close>
  reads an optional minus sign and the longest run of digits after it, and ignores what
  follows; it fails when there is no digit or the value does not fit an \<open>int\<close>.
\<close>

definition isprint :: "char \<Rightarrow> bool" where
  "isprint c = (32 \<le> (of_char c :: nat) \<and> (of_char c :: nat) \<le> 126)"

definition isPrintableASCII :: "string \<Rightarrow> bool" where
  "isPrintableASCII key = list_all isprint key"

definition is_digit :: "char \<Rightarrow> bool" where
  "is_digit c = (48 \<le> (of_char c :: nat) \<and> (of_char c :: nat) \<le> 57)"

definition digits_value :: "string \<Rightarrow> int" where
  "digits_value ds = foldl (\<lambda>acc c. 10 * acc + (int (of_char c) - 48)) 0 ds"

definition from_chars_int :: "string \<Rightarrow> int option" where
  "from_chars_int s =
     (let negative = (case s of [] \<Rightarrow> False | c # cs \<Rightarrow> c = CHR ''-'');
          digits = takeWhile is_digit (if negative then tl s else s);
          v = (if negative then - digits_value digits else digits_value digits)
      in if digits = [] then None
         else if v < - 2147483648 \<or> 2147483647 < v then None
         else Some v)"

text \<open>What \<open>fmt::format("{}", n)\<close> prints for an integer: its decimal digits.\<close>

function show_nat :: "nat \<Rightarrow> string" where
  "show_nat n =
     (if n < 10 then [char_of (48 + n)]
      else show_nat (n div 10) @ [char_of (48 + n mod 10)])"
  by pat_completeness auto
termination
  by (relation "measure id") auto

declare show_nat.simps [simp del]

definition show_int :: "int \<Rightarrow> string" where
  "show_int i = (if i < 0 then CHR ''-'' # show_nat (nat (- i)) else show_nat (nat i))"

text \<open>
  A \<open>std::chrono::system_clock::time_point\<close> is its count of nanoseconds since the epoch
  (the clock's period on the platform the server is built for). The count is an
  \<open>int\<close> here: the additions and subtractions the code makes stay far inside 64 bits
  for any clock reading between the years 1678 and 2262. \<open>getEpochSecs\<close> is a
  \<open>duration_cast\<close>, which truncates towards zero, followed by the conversion of the
  64-bit count to the \<open>uint32_t\<close> it returns.
\<close>

type_synonym time_point = int

definition getEpochSecs :: "time_point \<Rightarrow> 32 word" where
  "getEpochSecs tp = word_of_int (tp sdiv 1000000000)"

record RedisCmdKey =
  m_user :: string
  m_timestamp :: time_point
  m_cat :: string

text \<open>\<open>RedisCmdKey::operator==\<close>.\<close>

definition key_eq :: "RedisCmdKey \<Rightarrow> RedisCmdKey \<Rightarrow> bool" where
  "key_eq k other =
     (m_user k = m_user other
      \<and> getEpochSecs (m_timestamp k) = getEpochSecs (m_timestamp other)
      \<and> m_cat k = m_cat other)"

text \<open>
  \<open>RedisCmdKeyHash\<close>; \<open>hash_string\<close> and \<open>hash_u32\<close> stand for \<open>std::hash\<close> of
  \<open>std::string\<close> and of \<open>uint32_t\<close>, which the implementation of the library chooses.
\<close>

definition RedisCmdKeyHash ::
  "(string \<Rightarrow> 64 word) \<Rightarrow> (32 word \<Rightarrow> 64 word) \<Rightarrow> RedisCmdKey \<Rightarrow> 64 word" where
  "RedisCmdKeyHash hash_string hash_u32 k =
     (let h1 = hash_string (m_user k);
          h2 = hash_u32 (getEpochSecs (m_timestamp k));
          h3 = hash_string (m_cat k)
      in h1 XOR push_bit 1 h2 XOR push_bit 2 h3)"

text \<open>
  The command map, \<open>std::unordered_map<RedisCmdKey, int, RedisCmdKeyHash>\<close>, as the
  list of its entries; no two entries have keys that compare equal. \<open>cmd_add m k v\<close> is
  \<open>m[k] += v\<close>: the entry whose key compares equal to \<open>k\<close> is updated and keeps the key
  it was inserted with, and a missing entry is created from 0. The order of the entries
  is the order of insertion; the library leaves it unspecified and nothing below depends
  on it. The value is an \<open>int\<close>, a \<open>32 word\<close> whose addition wraps.
\<close>

type_synonym command_map = "(RedisCmdKey \<times> 32 word) list"

fun cmd_add :: "command_map \<Rightarrow> RedisCmdKey \<Rightarrow> 32 word \<Rightarrow> command_map" where
  "cmd_add [] k v = [(k, 0 + v)]"
| "cmd_add ((k', x) # m) k v =
     (if key_eq k' k then (k', x + v) # m else (k', x) # cmd_add m k v)"

text \<open>The counter stored for a key, 0 when the map has no entry for it.\<close>

fun cmd_count :: "command_map \<Rightarrow> RedisCmdKey \<Rightarrow> 32 word" where
  "cmd_count [] k = 0"
| "cmd_count ((k', x) # m) k = (if key_eq k' k then x else cmd_count m k)"

text \<open>The gauge map, \<open>std::unordered_map<std::string, int64_t>\<close>, as an association list.\<close>

type_synonym gauge_map = "(string \<times> 64 word) list"

datatype RedisConnectionState = DISCONNECTING | DISCONNECTED | CONNECTING | CONNECTED

datatype log_level = Debug | Info | Error

text \<open>
  \<open>RedisServerConnection\<close>: its state, the counters the modelled functions change, and
  the commands handed to \<open>redisAsyncCommand\<close>, in order.
\<close>

record RedisServerConnection =
  m_connection_status :: RedisConnectionState
  m_conn_id :: string
  m_total_sent_cnt :: "64 word"
  m_total_sent_failure :: "64 word"
  m_total_conns_requested :: "64 word"
  m_total_conns_made :: "64 word"
  m_total_conns_failed :: "64 word"
  m_total_conn_drops :: "64 word"
  submitted :: "string list"

text \<open>What the network layer answers to one \<open>connect()\<close>: \<open>redisAsyncConnect\<close> returns
  no context, or a context with an error string, or \<open>redisLibevAttach\<close> returns a code
  \<open>r\<close> other than \<open>REDIS_OK\<close>, or both succeed.\<close>

datatype connect_outcome = Alloc_failed | Context_error string | Attach_failed int | Attached

type_synonym log = "(log_level \<times> string) list"

text \<open>
  \<open>connect()\<close>. The \<open>std::runtime_error\<close> it throws comes with the connection and the
  log as they are at the \<open>throw\<close>.
\<close>

definition connect ::
  "connect_outcome \<Rightarrow> RedisServerConnection \<times> log
     \<Rightarrow> cpp_exception \<times> RedisServerConnection \<times> log + RedisServerConnection \<times> log" where
  "connect outcome cl =
     (let c = (fst cl)\<lparr>m_total_conns_requested := m_total_conns_requested (fst cl) + 1\<rparr>;
          lg = snd cl
      in case m_connection_status c of
           CONNECTING \<Rightarrow>
             Inr (c, lg @ [(Info, ''waiting for pending connection attempt to '' @ m_conn_id c)])
         | CONNECTED \<Rightarrow> Inr (c, lg @ [(Error, ''already connected to '' @ m_conn_id c)])
         | DISCONNECTING \<Rightarrow>
             Inr (c, lg @ [(Info, ''waiting for disconnecting from '' @ m_conn_id c)])
         | DISCONNECTED \<Rightarrow>
             (let c1 = c\<lparr>m_total_conns_made := m_total_conns_made c + 1\<rparr>;
                  lg1 = lg @ [(Info, ''initiating connection attempt to '' @ m_conn_id c)]
              in case outcome of
                   Alloc_failed \<Rightarrow>
                     Inr (c1, lg1 @ [(Error,
                            ''Failed to allocate an async connection context for redis'')])
                 | Context_error errstr \<Rightarrow>
                     Inr (c1\<lparr>m_total_conns_failed := m_total_conns_failed c1 + 1\<rparr>,
                          lg1 @ [(Error, ''failed to connect to '' @ m_conn_id c @ '': '' @ errstr)])
                 | Attach_failed r \<Rightarrow>
                     Inl (Runtime_error (''failed to attach '' @ m_conn_id c @ '' context''),
                          c1\<lparr>m_total_conns_failed := m_total_conns_failed c1 + 1\<rparr>,
                          lg1 @ [(Error, ''failed to attach '' @ m_conn_id c @ '' context: ''
                                           @ show_int r)])
                 | Attached \<Rightarrow> Inr (c1\<lparr>m_connection_status := CONNECTING\<rparr>, lg1)))"

text \<open>
  \<open>disconnectCallback\<close>, which hiredis calls when the connection is gone; \<open>status_ok\<close>
  tells whether \<open>status\<close> is \<open>REDIS_OK\<close> (the server was disconnected on purpose, after
  a change of its address), \<open>errstr\<close> is \<open>c->errstr\<close>. It works on the connection
  only: no member of the \<open>Processor\<close> is within its reach.
\<close>

definition disconnectCallback ::
  "bool \<Rightarrow> string \<Rightarrow> connect_outcome \<Rightarrow> RedisServerConnection \<times> log
     \<Rightarrow> cpp_exception \<times> RedisServerConnection \<times> log + RedisServerConnection \<times> log" where
  "disconnectCallback status_ok errstr outcome cl =
     (let rsc = (fst cl)\<lparr>m_connection_status := DISCONNECTED,
                          m_total_conn_drops := m_total_conn_drops (fst cl) + 1\<rparr>
      in if \<not> status_ok
         then Inr (rsc, snd cl @ [(Error, m_conn_id rsc @ '' connection failed: '' @ errstr)])
         else connect outcome
                (rsc, snd cl @ [(Info, m_conn_id rsc @ '' need to reconnect because of IP change'')]))"

definition connected_redis :: "RedisServerConnection \<Rightarrow> bool" where
  "connected_redis c = (m_connection_status c = CONNECTED)"

text \<open>
  \<open>addCommand\<close>; \<open>result cmd\<close> is \<open>None\<close> when \<open>redisAsyncCommand\<close> returns
  \<open>REDIS_OK\<close> for the command, and the return code \<open>r\<close> otherwise.
\<close>

definition addCommand ::
  "(string \<Rightarrow> 32 word option) \<Rightarrow> string \<Rightarrow> RedisServerConnection \<times> log
     \<Rightarrow> RedisServerConnection \<times> log" where
  "addCommand result cmd cl =
     (let c = (fst cl)\<lparr>m_total_sent_cnt := m_total_sent_cnt (fst cl) + 1,
                        submitted := submitted (fst cl) @ [cmd]\<rparr>;
          lg = snd cl @ [(Debug, ''Redis command: '' @ cmd)]
      in case result cmd of
           None \<Rightarrow> (c, lg)
         | Some r \<Rightarrow>
             (c\<lparr>m_total_sent_failure := m_total_sent_failure c + 1\<rparr>,
              lg @ [(Error, ''send to '' @ m_conn_id c @ '' failed: '' @ show_int (sint r))]))"

text \<open>
  \<open>Processor\<close>: the members the modelled functions use. The \<open>int\<close> members are
  \<open>32 word\<close>s compared as signed; the durations are their counts (seconds,
  milliseconds); the logger is the list of what was logged.
\<close>

record Processor =
  m_endpoint :: string
  m_qos_redis_commands :: command_map
  m_qos_redis_active_reqs :: gauge_map
  m_qos_redis_conn :: RedisServerConnection
  m_redis_qos_ttl :: "32 word"
  m_redis_qos_conn_ttl :: "32 word"
  m_check_conn_interval :: int
  m_last_redis_connect_time :: time_point
  m_last_redis_flush_time :: time_point
  m_qos_not_send_count :: "32 word"
  m_processor_batch_count :: "32 word"
  m_processor_batch_flush_period :: int
  m_logger :: log

definition log_error :: "string \<Rightarrow> Processor \<Rightarrow> Processor" where
  "log_error msg p = p\<lparr>m_logger := m_logger p @ [(Error, msg)]\<rparr>"

definition conn_key_of :: "Processor \<Rightarrow> string \<Rightarrow> string \<Rightarrow> string \<Rightarrow> string" where
  "conn_key_of p direction inst user_key =
     ''conn_v2_user_'' @ direction @ ''_'' @ inst @ ''_'' @ user_key @ ''$'' @ m_endpoint p"

text \<open>
  \<open>processReq\<close>; \<open>now_class\<close> and \<open>now_verb\<close> are the two readings of \<open>m_time.now()\<close>
  (the first is taken only when the request class is not empty). The eight views are
  \<open>tokens[0..7]\<close>.
\<close>

definition processReq :: "Processor \<Rightarrow> time_point \<Rightarrow> time_point \<Rightarrow> string \<Rightarrow> cpp_exception + Processor" where
  "processReq p now_class now_verb raw_input =
     (case next_n 8 (StringSplit_new raw_input DELIMITER) of
        Inl e \<Rightarrow> Inl e
      | Inr (tokens, split) \<Rightarrow>
          if \<not> finishedSuccessfully split
          then Inr (log_error (''Unexpected request format: '' @ raw_input) p)
          else
            (case tokens of
               [source, source_port, user_key, verb, direction, inst, areqs, reqclass] \<Rightarrow>
                 (case from_chars_int areqs of
                    None \<Rightarrow> Inr (log_error (''Unexpected active request format: '' @ raw_input) p)
                  | Some active \<Rightarrow>
                      if \<not> isPrintableASCII user_key
                      then Inr (log_error (''Invalid access key: '' @ user_key) p)
                      else
                        let conn_key = conn_key_of p direction inst user_key;
                            cmd_key = ''user_'' @ user_key;
                            cmds1 = (if length reqclass > 0
                                     then cmd_add (m_qos_redis_commands p)
                                            \<lparr>m_user = cmd_key, m_timestamp = now_class,
                                             m_cat = reqclass\<rparr> 1
                                     else m_qos_redis_commands p);
                            cmds2 = cmd_add cmds1
                                      \<lparr>m_user = cmd_key, m_timestamp = now_verb, m_cat = verb\<rparr> 1
                        in Inr (p\<lparr>m_qos_redis_commands := cmds2,
                                  m_qos_redis_active_reqs :=
                                    AList.update conn_key (word_of_int active)
                                      (m_qos_redis_active_reqs p),
                                  m_qos_not_send_count := m_qos_not_send_count p + 1\<rparr>))
             | _ \<Rightarrow> Inr p))"

text \<open>\<open>processDataXfer\<close>; \<open>now\<close> is the reading of \<open>m_time.now()\<close>.\<close>

definition processDataXfer :: "Processor \<Rightarrow> time_point \<Rightarrow> string \<Rightarrow> cpp_exception + Processor" where
  "processDataXfer p now raw_input =
     (case next_n 5 (StringSplit_new raw_input DELIMITER) of
        Inl e \<Rightarrow> Inl e
      | Inr (tokens, split) \<Rightarrow>
          (case tokens of
             [prefix_tok, request_key, user, direction, len_str] \<Rightarrow>
               (case (finishedSuccessfully split, from_chars_int len_str) of
                  (True, Some len) \<Rightarrow>
                    if \<not> isPrintableASCII user
                    then Inr (log_error (''Invalid access key: '' @ user) p)
                    else if user = [] then Inr p
                    else
                      let direction_key = ''bnd_'' @ direction;
                          cmd_key = ''user_'' @ user
                      in Inr (p\<lparr>m_qos_redis_commands :=
                                   cmd_add (m_qos_redis_commands p)
                                     \<lparr>m_user = cmd_key, m_timestamp = now, m_cat = direction_key\<rparr>
                                     (word_of_int len),
                                 m_qos_not_send_count := m_qos_not_send_count p + 1\<rparr>)
                | _ \<Rightarrow> Inr (log_error (''Unexpected data_xfer format: '' @ raw_input) p))
           | _ \<Rightarrow> Inr p))"

text \<open>\<open>processActiveRequests\<close> and \<open>processReqEnd\<close>.\<close>

definition processActiveRequests :: "Processor \<Rightarrow> string \<Rightarrow> cpp_exception + Processor" where
  "processActiveRequests p raw_input =
     (case next_n 5 (StringSplit_new raw_input DELIMITER) of
        Inl e \<Rightarrow> Inl e
      | Inr (tokens, split) \<Rightarrow>
          (case tokens of
             [prefix_tok, inst, user_key, direction, active_reqs_str] \<Rightarrow>
               (case (finishedSuccessfully split, from_chars_int active_reqs_str) of
                  (True, Some active) \<Rightarrow>
                    Inr (p\<lparr>m_qos_redis_active_reqs :=
                             AList.update (conn_key_of p direction inst user_key)
                               (word_of_int active) (m_qos_redis_active_reqs p),
                           m_qos_not_send_count := m_qos_not_send_count p + 1\<rparr>)
                | _ \<Rightarrow> Inr (log_error (''Unexpected active-requests format: '' @ raw_input) p))
           | _ \<Rightarrow> Inr p))"

definition processReqEnd :: "Processor \<Rightarrow> string \<Rightarrow> cpp_exception + Processor" where
  "processReqEnd p raw_input =
     (case next_n 7 (StringSplit_new raw_input DELIMITER) of
        Inl e \<Rightarrow> Inl e
      | Inr (tokens, split) \<Rightarrow>
          (case tokens of
             [prefix_tok, request_key, user_key, verb, direction, inst, active_reqs_str] \<Rightarrow>
               (case (finishedSuccessfully split, from_chars_int active_reqs_str) of
                  (True, Some active) \<Rightarrow>
                    Inr (p\<lparr>m_qos_redis_active_reqs :=
                             AList.update (conn_key_of p direction inst user_key)
                               (word_of_int active) (m_qos_redis_active_reqs p),
                           m_qos_not_send_count := m_qos_not_send_count p + 1\<rparr>)
                | _ \<Rightarrow> Inr (log_error (''Unexpected request-end format: '' @ raw_input) p))
           | _ \<Rightarrow> Inr p))"


text \<open>
  What one call of \<open>sendToRedisQos\<close> reads from outside: the three readings of
  \<open>m_time.now()\<close> in the order the code takes them (the second and third only when the
  store is not connected), and the answers of the network layer.
\<close>

record flush_env =
  now_flush :: time_point
  now_connect :: time_point
  now_cutoff :: time_point
  connect_result :: connect_outcome
  command_result :: "string \<Rightarrow> 32 word option"

definition command_key :: "Processor \<Rightarrow> RedisCmdKey \<Rightarrow> string" where
  "command_key p key =
     ''verb_'' @ show_nat (unat (getEpochSecs (m_timestamp key))) @ ''_'' @ m_user key
       @ ''$'' @ m_endpoint p"

text \<open>The loop over the command map: one \<open>hincrby\<close> per entry, one \<open>expire\<close> per new key.\<close>

fun flush_commands ::
  "Processor \<Rightarrow> (string \<Rightarrow> 32 word option) \<Rightarrow> command_map \<Rightarrow> string list \<Rightarrow> RedisServerConnection \<times> log
     \<Rightarrow> RedisServerConnection \<times> log" where
  "flush_commands p result [] keys_found cl = cl"
| "flush_commands p result ((key, val) # rest) keys_found cl =
     (let ss_key = command_key p key;
          cl1 = addCommand result
                  (''hincrby '' @ ss_key @ '' '' @ m_cat key @ '' '' @ show_int (sint val)) cl
      in if ss_key \<in> set keys_found
         then flush_commands p result rest keys_found cl1
         else flush_commands p result rest (ss_key # keys_found)
                (addCommand result
                   (''expire '' @ ss_key @ '' '' @ show_int (sint (m_redis_qos_ttl p))) cl1))"

fun flush_gauges ::
  "Processor \<Rightarrow> (string \<Rightarrow> 32 word option) \<Rightarrow> gauge_map \<Rightarrow> RedisServerConnection \<times> log
     \<Rightarrow> RedisServerConnection \<times> log" where
  "flush_gauges p result [] cl = cl"
| "flush_gauges p result ((key, active_request_count) # rest) cl =
     flush_gauges p result rest
       (addCommand result
          (''set '' @ key @ '' '' @ show_int (sint active_request_count) @ '' ex ''
             @ show_int (sint (m_redis_qos_conn_ttl p))) cl)"

text \<open>
  \<open>sendToRedisQos\<close>. A duration in seconds or milliseconds is compared with a
  difference of time points in the clock's nanoseconds. When \<open>connect()\<close> throws, the
  exception leaves the function with the processor as it is at that point.
\<close>

definition sendToRedisQos ::
  "Processor \<Rightarrow> flush_env \<Rightarrow> cpp_exception \<times> Processor + Processor" where
  "sendToRedisQos p env =
     (let now = now_flush env;
          flush_for_time =
            (now - m_last_redis_flush_time p > m_processor_batch_flush_period p * 1000000);
          flush_for_msg_count = (m_processor_batch_count p \<le>s m_qos_not_send_count p)
      in if \<not> flush_for_time \<and> \<not> flush_for_msg_count then Inr p
         else
           let p1 = p\<lparr>m_last_redis_flush_time := now, m_qos_not_send_count := 0\<rparr>
           in if \<not> connected_redis (m_qos_redis_conn p1)
              then
                (let mono_now = now_connect env;
                     since_connect = mono_now - m_last_redis_connect_time p1;
                     attempt =
                       (if since_connect > m_check_conn_interval p1 * 1000000000
                        then (case connect (connect_result env)
                                     (m_qos_redis_conn p1, m_logger p1) of
                                Inl (e, cl) \<Rightarrow>
                                  Inl (e, p1\<lparr>m_last_redis_connect_time := mono_now,
                                              m_qos_redis_conn := fst cl, m_logger := snd cl\<rparr>)
                              | Inr cl \<Rightarrow>
                                  Inr (p1\<lparr>m_last_redis_connect_time := mono_now,
                                           m_qos_redis_conn := fst cl, m_logger := snd cl\<rparr>))
                        else Inr p1)
                 in case attempt of
                      Inl thrown \<Rightarrow> Inl thrown
                    | Inr p2 \<Rightarrow>
                        let cutoff_timestamp =
                              now_cutoff env - sint (m_redis_qos_ttl p2) * 1000000000
                        in Inr (p2\<lparr>m_qos_redis_commands :=
                                      filter (\<lambda>kvp. \<not> (m_timestamp (fst kvp) < cutoff_timestamp))
                                        (m_qos_redis_commands p2),
                                    m_qos_redis_active_reqs := []\<rparr>))
              else
                (let cl1 = flush_commands p1 (command_result env) (m_qos_redis_commands p1) []
                             (m_qos_redis_conn p1, m_logger p1);
                     cl2 = flush_gauges p1 (command_result env) (m_qos_redis_active_reqs p1) cl1
                 in Inr (p1\<lparr>m_qos_redis_commands := [], m_qos_redis_active_reqs := [],
                             m_qos_redis_conn := fst cl2, m_logger := snd cl2\<rparr>)))"

text \<open>
  Whether a flush is due; whether the network layer fails to attach; and whether the
  \<open>connect()\<close> of this flush throws: a reconnect is due, the connection is in state
  \<open>DISCONNECTED\<close>, so that \<open>connect()\<close> goes as far as \<open>redisLibevAttach\<close>, and the
  attach fails.
\<close>

definition flush_due :: "Processor \<Rightarrow> flush_env \<Rightarrow> bool" where
  "flush_due p env =
     (now_flush env - m_last_redis_flush_time p > m_processor_batch_flush_period p * 1000000
      \<or> sint (m_processor_batch_count p) \<le> sint (m_qos_not_send_count p))"

definition attach_fails :: "connect_outcome \<Rightarrow> bool" where
  "attach_fails outcome = (case outcome of Attach_failed r \<Rightarrow> True | _ \<Rightarrow> False)"

definition connect_throws :: "Processor \<Rightarrow> flush_env \<Rightarrow> bool" where
  "connect_throws p env =
     (now_connect env - m_last_redis_connect_time p > m_check_conn_interval p * 1000000000
      \<and> m_connection_status (m_qos_redis_conn p) = DISCONNECTED
      \<and> attach_fails (connect_result env))"

text \<open>An aggregator for the endpoint \<open>E\<close>, not connected, with nothing buffered.\<close>

definition example_connection :: RedisServerConnection where
  "example_connection =
     \<lparr>m_connection_status = DISCONNECTED, m_conn_id = ''localhost:9004'',
      m_total_sent_cnt = 0, m_total_sent_failure = 0, m_total_conns_requested = 0,
      m_total_conns_made = 0, m_total_conns_failed = 0, m_total_conn_drops = 0, submitted = []\<rparr>"

definition example_processor :: Processor where
  "example_processor =
     \<lparr>m_endpoint = ''E'', m_qos_redis_commands = [], m_qos_redis_active_reqs = [],
      m_qos_redis_conn = example_connection, m_redis_qos_ttl = 2, m_redis_qos_conn_ttl = 60,
      m_check_conn_interval = 5, m_last_redis_connect_time = 0, m_last_redis_flush_time = 0,
      m_qos_not_send_count = 0, m_processor_batch_count = 250000,
      m_processor_batch_flush_period = 31, m_logger = []\<rparr>"


text \<open>
  Keys of user \<open>u\<close> and category \<open>PUT\<close> at 10.100 s, 10.999 s and 11.001 s after the
  epoch, at the epoch, \<open>2^32\<close> seconds after it, and one second or half a second
  before it and half a second after it.
\<close>

definition key_at :: "time_point \<Rightarrow> RedisCmdKey" where
  "key_at t = \<lparr>m_user = ''user_u'', m_timestamp = t, m_cat = ''PUT''\<rparr>"

definition example_hash_string :: "string \<Rightarrow> 64 word" where
  "example_hash_string s = word_of_nat (length s)"

definition example_hash_u32 :: "32 word \<Rightarrow> 64 word" where
  "example_hash_u32 w = ucast w"


text \<open>The event lines of the coalescing scenario, a line of each other kind, a request
  with a request class, and lines that end in a delimiter or carry an empty or
  unprintable user key.\<close>

definition req_line :: string where
  "req_line = ''req~|~1.2.3.4:80~|~u~|~PUT~|~up~|~I~|~3~|~''"

definition xfer_line_4096 :: string where
  "xfer_line_4096 = ''data_xfer~|~1.2.3.4:80~|~u~|~up~|~4096''"

definition xfer_line_1024 :: string where
  "xfer_line_1024 = ''data_xfer~|~1.2.3.4:80~|~u~|~up~|~1024''"

definition active_reqs_line :: string where
  "active_reqs_line = ''active_reqs~|~I~|~u~|~up~|~7''"

definition req_end_line :: string where
  "req_end_line = ''req_end~|~1.2.3.4:80~|~u~|~PUT~|~up~|~I~|~7''"

definition req_line_class :: string where
  "req_line_class = ''req~|~1.2.3.4:80~|~u~|~PUT~|~up~|~I~|~3~|~LISTBUCKETS''"

definition xfer_line_trailing :: string where
  "xfer_line_trailing = ''data_xfer~|~1.2.3.4:80~|~u~|~up~|~4096~|~''"

definition xfer_line_no_user :: string where
  "xfer_line_no_user = ''data_xfer~|~1.2.3.4:80~|~~|~up~|~4096''"

definition xfer_line_bad_user :: string where
  "xfer_line_bad_user = ''data_xfer~|~1.2.3.4:80~|~'' @ [char_of (7 :: nat)] @ ''~|~up~|~4096''"

text \<open>
  The aggregator of the example with two buffered counters, one 40 seconds old and one
  half a second old at second 140, and one gauge; the last connect attempt was at second
  100.
\<close>

definition example_buffered :: Processor where
  "example_buffered =
     example_processor
       \<lparr>m_qos_redis_commands := [(key_at 100000000000, 10), (key_at 139500000000, 3)],
        m_qos_redis_active_reqs := [(''conn_v2_user_up_I_u$E'', 3)],
        m_last_redis_connect_time := 100000000000\<rparr>"

definition example_flush_env :: flush_env where
  "example_flush_env =
     \<lparr>now_flush = 140000000000, now_connect = 140000000000, now_cutoff = 140000000000,
      connect_result = Attached, command_result = (\<lambda>cmd. None)\<rparr>"


section \<open>Properties\<close>

subsection \<open>The payload hook\<close>


text \<open>
  On every chunk the claim speaks of, the code forwards the whole chunk and does not touch
  the user-limit table.
\<close>

lemma weir_http_payload_forwards_chunk:
  assumes en: "enabled st" and addr: "remote_addr st = Some a"
    and len: "len > 0"
    and tick: "\<not> tick_isset (next_allowed_send_tick st)
               \<or> tick_is_expired (next_allowed_send_tick st) (now_ms env)"
    and lim: "limit st = Some lp" and lit: "bandwidth_limit_direction st = Some dl"
    and nt: "rl_speed_throttle tb fp (current_epoch env) (random32 env) (Some a)
               (if on_request_channel env then RL_UPLOAD else RL_DOWNLOAD) = Some (RL_NO_THROTTLE, slept)"
  shows "\<exists>r. weir_http_payload tb fp table env st offset len = Some r
           \<and> returned_bytes r = len \<and> limit_table r = table"
  using assms by (auto simp: weir_http_payload_def Let_def)

lemma example_no_throttle:
  "rl_speed_throttle example_empty_table exact_double (current_epoch example_env)
     (random32 example_env) (Some example_addr) RL_DOWNLOAD = Some (RL_NO_THROTTLE, 0)"
  by (simp add: rl_speed_throttle_def get_epoch_sec_def get_key_from_ip_port_def
      example_empty_table_def get_key_speed_hash_def no_policy_found_def Let_def)

text \<open>
  Claim C1 (the code departs from it). The example stream has an IPv4 source, an unset
  \<open>next_allowed_send_tick\<close> and no throttle policy, so \<open>rl_speed_throttle\<close> returns
  \<open>RL_NO_THROTTLE\<close>. For a chunk of 500 bytes \<open>weir_http_payload\<close> returns 500,
  leaves the user-limit table (and so the frequency counter) as it was and logs a
  \<open>data_xfer\<close> of 500 bytes, while \<open>apply_bandwidth_limit\<close> on the user's counter,
  share and active requests allows 0 bytes.
\<close>

theorem payload_forwards_whole_chunk_over_limit:
  "map_option returned_bytes
     (weir_http_payload example_empty_table exact_double example_limits example_env
        example_stream 0 500) = Some 500
   \<and> map_option limit_table
     (weir_http_payload example_empty_table exact_double example_limits example_env
        example_stream 0 500) = Some example_limits
   \<and> map_option logged
     (weir_http_payload example_empty_table exact_double example_limits example_env
        example_stream 0 500) = Some [Data_xfer example_addr ''u'' RL_DOWNLOAD 500]
   \<and> map_option (\<lambda>r. bytes_to_forward (fst r))
     (apply_bandwidth_limit window_ctr_ops 1200 1000 2 500) = Some 0"
proof -
  have a: "apply_bandwidth_limit window_ctr_ops 1200 1000 2 500
             = Some (\<lparr>wait_ms = 400, bytes_to_forward = 0\<rparr>, 1200)"
    by (simp add: apply_bandwidth_limit_def window_ctr_ops_def div64_32_def Let_def word_sless_alt)
  have p: "weir_http_payload example_empty_table exact_double example_limits example_env
        example_stream 0 500 =
      Some \<lparr>returned_bytes = 500,
            stream_state = example_stream,
            channel_analyse_exp = TICK_ETERNITY,
            limit_table = example_limits,
            logged = [Data_xfer example_addr ''u'' RL_DOWNLOAD 500],
            slept_usec = 0\<rparr>"
    unfolding weir_http_payload_def Let_def
    using example_no_throttle
    by (simp add: example_stream_def example_env_def tick_isset_def TICK_ETERNITY_def
        tick_first_def tick_is_expired_def rl_data_transferred_def get_key_from_ip_port_def
        example_empty_table_def)
  show ?thesis by (simp add: a p)
qed


subsection \<open>The bandwidth limit\<close>

text \<open>
  The two scenarios of the spec, on the window counter: an empty counter with limit 1000,
  one request and 200 bytes available forwards 200 bytes with no wait; a counter holding
  1200 bytes with limit 1000, two requests and 500 bytes available forwards nothing and
  waits 400 ms.
\<close>

lemma apply_bandwidth_limit_below_limit:
  "apply_bandwidth_limit window_ctr_ops 0 1000 1 200
     = Some (\<lparr>wait_ms = 0, bytes_to_forward = 200\<rparr>, 200)"
  by (simp add: apply_bandwidth_limit_def window_ctr_ops_def div64_32_def Let_def word_sless_alt)

lemma apply_bandwidth_limit_over_limit:
  "apply_bandwidth_limit window_ctr_ops 1200 1000 2 500
     = Some (\<lparr>wait_ms = 400, bytes_to_forward = 0\<rparr>, 1200)"
  by (simp add: apply_bandwidth_limit_def window_ctr_ops_def div64_32_def Let_def word_sless_alt)

text \<open>
  Conversions between the 32-bit and 64-bit values of the function, where nothing is cut off.
\<close>

lemma unat_ucast_32_64: "unat (ucast (w :: 32 word) :: 64 word) = unat w"
proof -
  have "unat w < 2 ^ 32" using unsigned_less [of w] by simp
  then have "unat w < 2 ^ 64" by simp
  then show ?thesis by (simp add: unsigned_ucast_eq take_bit_nat_eq_self)
qed

lemma unat_ucast_64_32: "unat (q :: 64 word) < 2 ^ 32 \<Longrightarrow> unat (ucast q :: 32 word) = unat q"
  by (simp add: unsigned_ucast_eq take_bit_nat_eq_self)

lemma unat_sum_minus_one:
  fixes a b :: "32 word"
  assumes b: "b \<noteq> 0" and nw: "unat a + unat b - 1 < 2 ^ 32"
  shows "unat (a + b - 1) = unat a + unat b - 1"
proof -
  have b1: "1 \<le> unat b" using b by (simp add: unat_gt_0 Suc_le_eq)
  show ?thesis
  proof (cases "unat a + unat b < 2 ^ 32")
    case True
    then have s: "unat (a + b) = unat a + unat b" by (simp add: unat_add_lem [THEN iffD1])
    then have "a + b \<noteq> 0" using b1 by (metis add_is_0 not_one_le_zero unat_0)
    then show ?thesis using s by (simp add: unat_minus_one)
  next
    case False
    with nw b1 have e: "unat a + unat b = 2 ^ 32" by simp
    have "unat (a + b) = (unat a + unat b) mod 2 ^ 32" by (simp add: unat_word_ariths)
    then have "unat (a + b) = 0" using e by simp
    then have z: "a + b = 0" by (simp add: unat_eq_0)
    have "unat (- 1 :: 32 word) = 4294967295" by (simp add: unsigned_minus_1_eq_mask mask_eq_exp_minus_1)
    then show ?thesis unfolding z e by simp
  qed
qed

lemma uint_min64: "uint (min (a :: 64 word) b) = min (uint a) (uint b)"
  by (simp add: min_def word_le_def)

lemma unat_min32: "unat (min (a :: 32 word) b) = min (unat a) (unat b)"
  by (simp add: min_def word_le_nat_alt)

lemma unat_min64: "unat (min (a :: 64 word) b) = min (unat a) (unat b)"
  by (simp add: min_def word_le_nat_alt)

lemma ucast_period: "(ucast (1000 :: 64 word) :: 32 word) = 1000"
  by simp

lemma uint_scast_32_64:
  assumes "0 \<le> sint (w :: 32 word)"
  shows "uint (scast w :: 64 word) = sint w"
proof -
  have "sint w < 2 ^ 31" using sint_lt [of w] by simp
  then have lt: "sint w < 2 ^ 64" by simp
  have "uint (scast w :: 64 word) = uint (word_of_int (sint w) :: 64 word)"
    by (simp only: scast_eq)
  also have "\<dots> = take_bit LENGTH(64) (sint w)"
    by (rule uint_word_of_int_eq)
  also have "\<dots> = take_bit 64 (sint w)"
    by simp
  also have "\<dots> = sint w"
    using assms lt by (rule take_bit_int_eq_self)
  finally show ?thesis .
qed

lemma uint_ucast_32_64: "uint (ucast (w :: 32 word) :: 64 word) = uint w"
proof -
  have "uint w < 2 ^ 32" using unsigned_less [of w] by simp
  then have "uint w < 2 ^ 64" by simp
  then show ?thesis by (simp add: unsigned_ucast_eq take_bit_int_eq_self)
qed

lemma uint_ucast_64_32:
  assumes "uint (q :: 64 word) < 2 ^ 32"
  shows "uint (ucast q :: 32 word) = uint q"
proof -
  have "uint (ucast q :: 32 word) = take_bit LENGTH(32) (uint q)"
    by (rule unsigned_ucast_eq)
  also have "\<dots> = take_bit 32 (uint q)"
    by simp
  also have "\<dots> = uint q"
    using assms by (intro take_bit_int_eq_self) simp_all
  finally show ?thesis .
qed

lemma uint_triple_product:
  fixes a c :: "64 word"
  assumes nn: "0 \<le> uint a * 1000 * uint c" and nw: "uint a * 1000 * uint c < 2 ^ 64"
  shows "uint (a * 1000 * c) = uint a * 1000 * uint c"
proof -
  have a: "uint (a * 1000) = (uint a * 1000) mod 2 ^ 64"
    using uint_word_ariths(3) [of a 1000] by simp
  have "uint (a * 1000 * c) = (uint (a * 1000) * uint c) mod 2 ^ 64"
    using uint_word_ariths(3) [of "a * 1000" c] by simp
  also have "\<dots> = (uint a * 1000 * uint c) mod 2 ^ 64"
    unfolding a by (rule mod_mult_left_eq)
  also have "\<dots> = uint a * 1000 * uint c"
    using nn nw by (rule mod_pos_pos_trivial)
  finally show ?thesis .
qed

lemma uint_wait_cap:
  fixes q :: "64 word"
  shows "uint (ucast (min (2 * 1000 :: 64 word) q) :: 32 word) = min 2000 (uint q)"
proof -
  have m: "uint (min (2 * 1000 :: 64 word) q) = min 2000 (uint q)"
    by (simp add: uint_min64)
  have "min 2000 (uint q) < 2 ^ 32" by simp
  then have "uint (min (2 * 1000 :: 64 word) q) < 2 ^ 32" unfolding m .
  then show ?thesis using uint_ucast_64_32 m by simp
qed

text \<open>
  Without wrap-around the function computes the documented values, for every counter.
  With no overshoot, a positive \<open>requests\<close> and a sum
  \<open>quota_bytes_remaining + requests - 1\<close> that fits 32 bits, it forwards
  \<open>min(bytes_available, (remaining + requests - 1) / requests)\<close>, charges exactly that to
  the counter, and waits \<open>min(2000, next_event_delay)\<close> when it forwarded less than was
  available, 0 otherwise.
\<close>

lemma apply_bandwidth_limit_quota:
  assumes nov: "\<not> 0 <s freq_ctr_overshoot_period ops ctr 1000 lmt"
    and req: "0 < sint requests"
    and nw: "unat (freq_ctr_remain_period ops ctr 1000 lmt 0) + unat requests - 1 < 2 ^ 32"
  shows "\<exists>r ctr'. apply_bandwidth_limit ops ctr lmt requests avail = Some (r, ctr')
     \<and> unat (bytes_to_forward r) =
         min (unat avail)
           ((unat (freq_ctr_remain_period ops ctr 1000 lmt 0) + unat requests - 1)
              div unat requests)
     \<and> ctr' = update_freq_ctr_period ops ctr 1000 (bytes_to_forward r)
     \<and> unat (wait_ms r) =
         (if unat (bytes_to_forward r) < unat avail
          then min 2000 (unat (next_event_delay_period ops ctr' 1000 lmt 0))
          else 0)"
proof -
  let ?rem = "freq_ctr_remain_period ops ctr 1000 lmt 0"
  have r0: "requests \<noteq> 0" using req by auto
  let ?q = "(ucast (?rem + requests - 1) :: 64 word) div ucast requests"
  have d: "div64_32 (ucast (?rem + requests - 1)) requests = Some ?q"
    using r0 by (simp add: div64_32_def)
  have uq: "unat ?q = (unat ?rem + unat requests - 1) div unat requests"
    by (simp add: unat_div unat_ucast_32_64 unat_sum_minus_one [OF r0 nw])
  have "unat ?q \<le> unat ?rem + unat requests - 1" unfolding uq by (rule div_le_dividend)
  then have lt: "unat ?q < 2 ^ 32" using nw by simp
  have uq32: "unat (ucast ?q :: 32 word) = (unat ?rem + unat requests - 1) div unat requests"
    using unat_ucast_64_32 [OF lt] uq by simp
  define fwd where "fwd = min avail (ucast ?q :: 32 word)"
  define ctr' where "ctr' = update_freq_ctr_period ops ctr 1000 fwd"
  define ned where "ned = next_event_delay_period ops ctr' 1000 lmt 0"
  define wait where "wait = (ucast (min (2 * 1000 :: 64 word) (ucast ned)) :: 32 word)"
  have w: "unat wait = min 2000 (unat ned)"
  proof -
    have "unat (min (2 * 1000 :: 64 word) (ucast ned)) = min 2000 (unat ned)"
      by (simp add: unat_min64 unat_ucast_32_64)
    moreover have "min 2000 (unat ned) < 2 ^ 32" by simp
    ultimately show ?thesis
      unfolding wait_def
      using unat_ucast_64_32 [of "min (2 * 1000 :: 64 word) (ucast ned)"] by simp
  qed
  have f: "unat fwd = min (unat avail) ((unat ?rem + unat requests - 1) div unat requests)"
    unfolding fwd_def using uq32 by (simp add: unat_min32)
  have res: "apply_bandwidth_limit ops ctr lmt requests avail =
      Some (\<lparr>wait_ms = (if fwd < avail then wait else 0), bytes_to_forward = fwd\<rparr>, ctr')"
    using nov d by (simp add: apply_bandwidth_limit_def Let_def fwd_def ctr'_def ned_def wait_def)
  have "unat (if fwd < avail then wait else 0) =
          (if unat fwd < unat avail then min 2000 (unat ned) else 0)"
    using w by (simp add: word_less_nat_alt)
  then show ?thesis
    unfolding res using f by (simp add: ctr'_def ned_def)
qed

text \<open>
  With a positive overshoot, a positive \<open>requests\<close> and a product
  \<open>overshoot * 1000 * requests\<close> that fits 64 bits, it forwards nothing, leaves the counter
  as it is, and waits \<open>min(2000, overshoot * 1000 * requests / limit)\<close>, or 2000 when the
  limit is 0.
\<close>

lemma apply_bandwidth_limit_overshoot:
  assumes ov: "0 <s freq_ctr_overshoot_period ops ctr 1000 lmt"
    and req: "0 < sint requests"
    and nw: "sint (freq_ctr_overshoot_period ops ctr 1000 lmt) * 1000 * sint requests < 2 ^ 64"
  shows "\<exists>r. apply_bandwidth_limit ops ctr lmt requests avail = Some (r, ctr)
     \<and> bytes_to_forward r = 0
     \<and> uint (wait_ms r) =
         (if lmt = 0 then 2000
          else min 2000
                 (sint (freq_ctr_overshoot_period ops ctr 1000 lmt) * 1000 * sint requests
                    div uint lmt))"
proof (cases "lmt = 0")
  case True
  have "apply_bandwidth_limit ops ctr lmt requests avail =
      Some (\<lparr>wait_ms = ucast (2 * 1000 :: 64 word), bytes_to_forward = 0\<rparr>, ctr)"
    using ov True by (simp add: apply_bandwidth_limit_def Let_def)
  then show ?thesis using True by simp
next
  case False
  let ?ov = "freq_ctr_overshoot_period ops ctr 1000 lmt"
  let ?x = "(scast ?ov :: 64 word) * 1000 * scast requests"
  have ovp: "0 < sint ?ov" using ov by (simp add: word_sless_alt)
  have so: "uint (scast ?ov :: 64 word) = sint ?ov"
    using ovp by (intro uint_scast_32_64) simp
  have sr: "uint (scast requests :: 64 word) = sint requests"
    using req by (intro uint_scast_32_64) simp
  have nn: "0 \<le> uint (scast ?ov :: 64 word) * 1000 * uint (scast requests :: 64 word)"
    by simp
  have ux: "uint ?x = sint ?ov * 1000 * sint requests"
    using uint_triple_product [OF nn] nw unfolding so sr by simp
  have pos: "0 < lmt" using False by (simp add: word_neq_0_conv)
  have d: "div64_32 ?x lmt = Some (?x div ucast lmt)"
    using False by (simp add: div64_32_def)
  have uq: "uint (?x div ucast lmt) = sint ?ov * 1000 * sint requests div uint lmt"
    by (simp only: uint_div ux uint_ucast_32_64)
  have res: "apply_bandwidth_limit ops ctr lmt requests avail =
      Some (\<lparr>wait_ms = ucast (min (2 * 1000 :: 64 word) (?x div ucast lmt)),
              bytes_to_forward = 0\<rparr>, ctr)"
    using ov pos d by (simp add: apply_bandwidth_limit_def Let_def)
  have w: "uint (ucast (min (2 * 1000 :: 64 word) (?x div ucast lmt)) :: 32 word) =
      min 2000 (sint ?ov * 1000 * sint requests div uint lmt)"
    unfolding uint_wait_cap uq ..
  show ?thesis
    unfolding res using False w by simp
qed

text \<open>
  Claim C2 (the code departs from it). With the largest share, \<open>limit = 2^32 - 1\<close>, an
  empty counter (no overshoot, \<open>2^32 - 1\<close> bytes remaining), two requests and 100 bytes
  available, the sum \<open>quota_bytes_remaining + requests - 1\<close> wraps to 0 in 32 bits
  before it is widened, so the code forwards 0 bytes; the claim's
  \<open>min(bytes_available, \<lceil>remaining / requests\<rceil>)\<close> is 100.
\<close>

theorem apply_bandwidth_limit_quota_wraps:
  "sint (freq_ctr_overshoot_period window_ctr_ops 0 1000 4294967295) = 0
   \<and> unat (freq_ctr_remain_period window_ctr_ops 0 1000 4294967295 0) = 4294967295
   \<and> apply_bandwidth_limit window_ctr_ops 0 4294967295 2 100
       = Some (\<lparr>wait_ms = 0, bytes_to_forward = 0\<rparr>, 0)
   \<and> min (100 :: nat) ((4294967295 + 2 - 1) div 2) = 100"
  by (simp add: apply_bandwidth_limit_def window_ctr_ops_def div64_32_def Let_def word_sless_alt)

subsection \<open>The backoff bound\<close>

lemma compute_allowed_age0:
  "curr_sec = received_epoch_sec policy \<Longrightarrow>
   allowed_run_time_usec (compute_allowed_run_time fp policy curr_sec) = 0"
  by (simp add: compute_allowed_run_time_def)

lemma unat_2p64: "n < 64 \<Longrightarrow> unat (2 ^ n :: 64 word) = 2 ^ n"
proof -
  assume n: "n < 64"
  have "(2 ^ n :: 64 word) = of_nat (2 ^ n)" by simp
  then have "unat (2 ^ n :: 64 word) = 2 ^ n mod 2 ^ 64"
    by (simp only: unat_of_nat) simp
  moreover have "(2::nat) ^ n < 2 ^ 64" using n by (intro power_strict_increasing) auto
  ultimately show ?thesis by simp
qed

text \<open>The conversion to \<open>double\<close>: what the number of digits is, and the bounds of the
  rounded value.\<close>

lemma bit_length_upper: "n < 2 ^ bit_length n"
proof (induction n rule: bit_length.induct)
  case (1 n)
  show ?case
  proof (cases "n = 0")
    case True
    then show ?thesis by (simp add: bit_length.simps)
  next
    case False
    from 1 [OF False] have "n div 2 < 2 ^ bit_length (n div 2)" .
    then have "n < 2 * 2 ^ bit_length (n div 2)" by linarith
    then show ?thesis using False by (subst bit_length.simps) simp
  qed
qed

lemma bit_length_lower: "n \<noteq> 0 \<Longrightarrow> 2 ^ (bit_length n - 1) \<le> n"
proof (induction n rule: bit_length.induct)
  case (1 n)
  show ?case
  proof (cases "n div 2 = 0")
    case True
    then have "bit_length (n div 2) = 0" by (simp add: bit_length.simps)
    then have "bit_length n = 1" using 1(2) by (subst bit_length.simps) simp
    then show ?thesis using 1(2) by simp
  next
    case False
    from 1(1) [OF 1(2) False] have ih: "2 ^ (bit_length (n div 2) - 1) \<le> n div 2" .
    have pos: "0 < bit_length (n div 2)" using False by (subst bit_length.simps) simp
    have "bit_length n - 1 = Suc (bit_length (n div 2) - 1)"
      using 1(2) pos by (subst bit_length.simps) simp
    then have "(2::nat) ^ (bit_length n - 1) = 2 * 2 ^ (bit_length (n div 2) - 1)" by simp
    also have "\<dots> \<le> 2 * (n div 2)" using ih by simp
    also have "\<dots> \<le> n" by simp
    finally show ?thesis .
  qed
qed

lemma bit_length_le: "n < 2 ^ k \<Longrightarrow> bit_length n \<le> k"
proof (cases "n = 0")
  case True
  then show ?thesis by (simp add: bit_length.simps)
next
  case False
  assume "n < 2 ^ k"
  with bit_length_lower [OF False] have "(2::nat) ^ (bit_length n - 1) < 2 ^ k" by linarith
  then have "bit_length n - 1 < k" by (rule power_less_imp_less_exp [rotated]) simp
  then show ?thesis by linarith
qed

lemma double_of_u64_small: "unat a < 2 ^ 53 \<Longrightarrow> double_of_u64 a = unat a"
proof -
  assume "unat a < 2 ^ 53"
  then have "bit_length (unat a) \<le> 53" by (rule bit_length_le)
  then have "bit_length (unat a) - 53 = 0" by simp
  then show ?thesis by (simp add: double_of_u64_def Let_def)
qed

lemma double_of_u64_big:
  assumes "2 ^ 53 \<le> unat a"
  shows "2 ^ 52 \<le> double_of_u64 a"
proof -
  let ?n = "unat a"
  let ?e = "bit_length ?n - 53"
  let ?q = "?n div 2 ^ ?e"
  have n0: "?n \<noteq> 0" using assms by auto
  have "(2::nat) ^ 53 < 2 ^ bit_length ?n" using assms bit_length_upper [of ?n] by linarith
  then have bl: "53 < bit_length ?n" by (rule power_less_imp_less_exp [rotated]) simp
  then have e: "bit_length ?n - 1 = ?e + 52" by simp
  have "(2::nat) ^ (?e + 52) \<le> ?n" using bit_length_lower [OF n0] unfolding e .
  then have "(2::nat) ^ 52 * 2 ^ ?e \<le> ?n" by (simp add: power_add mult.commute)
  then have q: "2 ^ 52 \<le> ?q" by (simp add: less_eq_div_iff_mult_less_eq)
  have "(2::nat) ^ 52 \<le> ?q * 1" using q by simp
  also have "\<dots> \<le> ?q * 2 ^ ?e" by (intro mult_le_mono2) simp
  finally have lo: "2 ^ 52 \<le> ?q * 2 ^ ?e" .
  have "?q * 2 ^ ?e \<le> double_of_u64 a"
    by (simp add: double_of_u64_def Let_def)
  with lo show ?thesis by linarith
qed

lemma double_of_u64_lower:
  assumes "50000 \<le> unat a"
  shows "50000 \<le> double_of_u64 a"
proof (cases "unat a < 2 ^ 53")
  case True
  then show ?thesis using assms by (simp add: double_of_u64_small)
next
  case False
  then have "2 ^ 52 \<le> double_of_u64 a" by (intro double_of_u64_big) simp
  then show ?thesis by simp
qed

lemma double_of_u64_upper:
  assumes "unat a < 2 ^ k" and k: "53 \<le> k"
  shows "double_of_u64 a \<le> 2 ^ k"
proof -
  let ?n = "unat a"
  let ?e = "bit_length ?n - 53"
  let ?q = "?n div 2 ^ ?e"
  have blk: "bit_length ?n \<le> k" using assms(1) by (rule bit_length_le)
  have "?n < 2 ^ bit_length ?n" by (rule bit_length_upper)
  also have "(2::nat) ^ bit_length ?n \<le> 2 ^ (53 + ?e)" by (intro power_increasing) simp_all
  finally have "?n < 2 ^ 53 * 2 ^ ?e" by (simp add: power_add)
  then have "?q < 2 ^ 53" by (simp add: less_mult_imp_div_less)
  then have "?q + 1 \<le> 2 ^ 53" by simp
  then have "(?q + 1) * 2 ^ ?e \<le> 2 ^ 53 * 2 ^ ?e" by (intro mult_le_mono1)
  also have "\<dots> = 2 ^ (53 + ?e)" by (simp add: power_add)
  also have "\<dots> \<le> 2 ^ k" using blk k by (intro power_increasing) simp_all
  finally have up: "(?q + 1) * 2 ^ ?e \<le> 2 ^ k" .
  have "double_of_u64 a \<le> (?q + 1) * 2 ^ ?e"
    by (simp add: double_of_u64_def Let_def)
  with up show ?thesis by linarith
qed

lemma bit_length_eq:
  assumes "2 ^ k \<le> n" "n < 2 ^ Suc k"
  shows "bit_length n = Suc k"
proof -
  have n0: "n \<noteq> 0" using assms(1) by (cases "n = 0") simp_all
  have "bit_length n \<le> Suc k" using assms(2) by (rule bit_length_le)
  moreover have "(2::nat) ^ k < 2 ^ bit_length n"
    using assms(1) bit_length_upper [of n] by linarith
  then have "k < bit_length n" by (rule power_less_imp_less_exp [rotated]) simp
  ultimately show ?thesis by linarith
qed

text \<open>
  Where the scaling is exact, and where it is in range: an operand below \<open>2^53\<close> is
  multiplied as it is, and every operand below \<open>2^58\<close> stays in range for the exponents
  up to 5 that the backoff window allows.
\<close>

lemma scale_pow2_exact:
  assumes a: "unat a < 2 ^ 53" and p: "unat a * 2 ^ unat k < 2 ^ 64"
  shows "scale_pow2 fp a k = word_of_nat (unat a * 2 ^ unat k)"
  using p by (simp add: scale_pow2_def scale_in_range_def double_of_u64_small [OF a])

lemma scale_pow2_example: "scale_pow2 fp 375000 0 = 375000"
  by (subst scale_pow2_exact) simp_all

lemma scale_in_range_below_2p58:
  assumes a: "unat a < 2 ^ 58" and k: "unat k \<le> 5"
  shows "scale_in_range a k"
proof -
  have d: "double_of_u64 a \<le> 2 ^ 58" using a by (rule double_of_u64_upper) simp
  have "(2::nat) ^ unat k \<le> 2 ^ 5" using k by (intro power_increasing) auto
  with d have "double_of_u64 a * 2 ^ unat k \<le> 2 ^ 58 * 2 ^ 5" by (rule mult_le_mono)
  then show ?thesis by (simp add: scale_in_range_def)
qed

lemma scale_pow2_lower:
  assumes r: "scale_in_range a k" and lo: "50000 \<le> unat a"
  shows "50000 \<le> unat (scale_pow2 fp a k)"
proof -
  have "50000 \<le> double_of_u64 a" using lo by (rule double_of_u64_lower)
  also have "double_of_u64 a \<le> double_of_u64 a * 2 ^ unat k" by simp
  finally have lo': "50000 \<le> double_of_u64 a * 2 ^ unat k" .
  have "unat (word_of_nat (double_of_u64 a * 2 ^ unat k) :: 64 word)
          = double_of_u64 a * 2 ^ unat k mod 2 ^ LENGTH(64)"
    by (rule unat_of_nat)
  also have "\<dots> = double_of_u64 a * 2 ^ unat k"
    using r unfolding scale_in_range_def by (intro mod_less) simp
  finally have "50000 \<le> unat (word_of_nat (double_of_u64 a * 2 ^ unat k) :: 64 word)"
    using lo' by simp
  then show ?thesis using r by (simp only: scale_pow2_def if_True)
qed

lemma unat_max64: "unat (max (a :: 64 word) b) = max (unat a) (unat b)"
  by (simp add: max_def word_le_nat_alt)

text \<open>
  Claim C3, amended. The allowed run time never exceeds 1000000 microseconds. For a
  policy of age 1 to 6 seconds for which the product \<open>allowed * pow(2, age - 1)\<close> is
  below \<open>2^64\<close>, so that its conversion back to \<open>uint64_t\<close> is defined, it is at least
  50000 microseconds, whatever the quotient \<open>(uint64_t)((double)elapsed / diff_ratio)\<close>
  is. Age 0 is excluded from the lower bound: there the code stores 0.
\<close>

theorem allowed_run_time_backoff_bound:
  "unat (allowed_run_time_usec (compute_allowed_run_time fp policy curr_sec)) \<le> 1000000
   \<and> (1 \<le> unat (curr_sec - received_epoch_sec policy)
       \<and> unat (curr_sec - received_epoch_sec policy) \<le> 6
       \<and> scale_in_range
            (max MIN_RUN_TIME_USEC
               (quot_u64 fp (elapsed_usec_in_the_epoch policy) (diff_ratio policy)))
            (curr_sec - received_epoch_sec policy - 1)
       \<longrightarrow> 50000 \<le> unat (allowed_run_time_usec (compute_allowed_run_time fp policy curr_sec)))"
proof (intro conjI impI)
  show "unat (allowed_run_time_usec (compute_allowed_run_time fp policy curr_sec)) \<le> 1000000"
    by (simp add: compute_allowed_run_time_def Let_def unat_min64 UNIT_USECS_IN_SEC_def)
next
  let ?age = "curr_sec - received_epoch_sec policy"
  let ?q = "quot_u64 fp (elapsed_usec_in_the_epoch policy) (diff_ratio policy)"
  let ?a = "max MIN_RUN_TIME_USEC ?q"
  assume h: "1 \<le> unat ?age \<and> unat ?age \<le> 6 \<and> scale_in_range ?a (?age - 1)"
  have nz: "?age \<noteq> 0" using h by (auto simp: unat_eq_0)
  have le6: "?age \<le> BACKOFF_WINDOW_EPOCHS"
    using h by (simp add: word_le_nat_alt BACKOFF_WINDOW_EPOCHS_def)
  have res: "allowed_run_time_usec (compute_allowed_run_time fp policy curr_sec) =
             min (scale_pow2 fp ?a (?age - 1)) UNIT_USECS_IN_SEC"
    using nz le6 by (simp add: compute_allowed_run_time_def Let_def)
  have a_lo: "50000 \<le> unat ?a" by (simp add: unat_max64 MIN_RUN_TIME_USEC_def)
  have range: "scale_in_range ?a (?age - 1)" using h by simp
  have "50000 \<le> unat (scale_pow2 fp ?a (?age - 1))"
    by (rule scale_pow2_lower [OF range a_lo])
  then show "50000 \<le> unat (allowed_run_time_usec (compute_allowed_run_time fp policy curr_sec))"
    unfolding res by (simp add: unat_min64 UNIT_USECS_IN_SEC_def)
qed

lemma example_policy_quot:
  "quot_u64 exact_double (elapsed_usec_in_the_epoch example_policy) (diff_ratio example_policy) = 375000"
  by (simp add: exact_double_def example_policy_def)

lemma example_policy_ratio_quot:
  "quot_u64 exact_double (elapsed_usec_in_the_epoch (example_policy_ratio (1 / 2 ^ 34)))
     (diff_ratio (example_policy_ratio (1 / 2 ^ 34))) = 17179852004130816"
  "quot_u64 exact_double (elapsed_usec_in_the_epoch (example_policy_ratio (1 / 2 ^ 44)))
     (diff_ratio (example_policy_ratio (1 / 2 ^ 44))) = 17592168452229955584"
  by (simp_all add: exact_double_def example_policy_ratio_def example_policy_def)

text \<open>
  The theorem at the policy of the example, one second after it was installed, where
  the quotient is 375000; and three seconds after a policy of ratio \<open>2^-34\<close> was
  installed, where the quotient, 17179852004130816, is above \<open>2^53\<close>.
\<close>

theorem allowed_run_time_backoff_bound_witness:
  "1 \<le> unat (101 - received_epoch_sec example_policy)
   \<and> unat (101 - received_epoch_sec example_policy) \<le> 6
   \<and> scale_in_range
        (max MIN_RUN_TIME_USEC
           (quot_u64 exact_double (elapsed_usec_in_the_epoch example_policy)
              (diff_ratio example_policy)))
        (101 - received_epoch_sec example_policy - 1)
   \<and> 50000 \<le> unat (allowed_run_time_usec (compute_allowed_run_time exact_double example_policy 101))
   \<and> unat (allowed_run_time_usec (compute_allowed_run_time exact_double example_policy 101)) \<le> 1000000
   \<and> 1 \<le> unat (103 - received_epoch_sec (example_policy_ratio (1 / 2 ^ 34)))
   \<and> unat (103 - received_epoch_sec (example_policy_ratio (1 / 2 ^ 34))) \<le> 6
   \<and> scale_in_range
        (max MIN_RUN_TIME_USEC
           (quot_u64 exact_double (elapsed_usec_in_the_epoch (example_policy_ratio (1 / 2 ^ 34)))
              (diff_ratio (example_policy_ratio (1 / 2 ^ 34)))))
        (103 - received_epoch_sec (example_policy_ratio (1 / 2 ^ 34)) - 1)
   \<and> 50000 \<le> unat (allowed_run_time_usec
                      (compute_allowed_run_time exact_double (example_policy_ratio (1 / 2 ^ 34)) 103))
   \<and> unat (allowed_run_time_usec
             (compute_allowed_run_time exact_double (example_policy_ratio (1 / 2 ^ 34)) 103))
        \<le> 1000000"
proof -
  have h1: "1 \<le> unat (101 - received_epoch_sec example_policy)"
    by (simp add: example_policy_def)
  have h2: "unat (101 - received_epoch_sec example_policy) \<le> 6"
    by (simp add: example_policy_def)
  have h3: "scale_in_range
        (max MIN_RUN_TIME_USEC
           (quot_u64 exact_double (elapsed_usec_in_the_epoch example_policy)
              (diff_ratio example_policy)))
        (101 - received_epoch_sec example_policy - 1)"
    unfolding example_policy_quot
    by (rule scale_in_range_below_2p58) (simp_all add: MIN_RUN_TIME_USEC_def example_policy_def)
  have g1: "1 \<le> unat (103 - received_epoch_sec (example_policy_ratio (1 / 2 ^ 34)))"
    by (simp add: example_policy_ratio_def example_policy_def)
  have g2: "unat (103 - received_epoch_sec (example_policy_ratio (1 / 2 ^ 34))) \<le> 6"
    by (simp add: example_policy_ratio_def example_policy_def)
  have g3: "scale_in_range
        (max MIN_RUN_TIME_USEC
           (quot_u64 exact_double (elapsed_usec_in_the_epoch (example_policy_ratio (1 / 2 ^ 34)))
              (diff_ratio (example_policy_ratio (1 / 2 ^ 34)))))
        (103 - received_epoch_sec (example_policy_ratio (1 / 2 ^ 34)) - 1)"
    unfolding example_policy_ratio_quot
    by (rule scale_in_range_below_2p58)
       (simp_all add: MIN_RUN_TIME_USEC_def example_policy_ratio_def example_policy_def)
  show ?thesis
    using allowed_run_time_backoff_bound [of exact_double example_policy 101]
      allowed_run_time_backoff_bound [of exact_double "example_policy_ratio (1 / 2 ^ 34)" 103]
      h1 h2 h3 g1 g2 g3
    by blast
qed

text \<open>
  Claim C3 as stated fails in two ways. At age 0: queried in the second it was
  installed, the valid policy of the example gets an allowed run time of 0, below 50000.
  And where the product is out of range: two seconds after a policy of ratio \<open>2^-44\<close>
  was installed with \<open>epoch_us = 999999\<close>, the quotient is 17592168452229955584, below
  \<open>2^64\<close>, and its double is not; where the conversion of that product gives 0, the
  allowed run time is 0.
\<close>

theorem allowed_run_time_counterexample:
  "is_valid_violation_policy example_policy 100
   \<and> unat (100 - received_epoch_sec example_policy) = 0
   \<and> unat (allowed_run_time_usec (compute_allowed_run_time exact_double example_policy 100)) = 0
   \<and> \<not> 50000 \<le> unat (allowed_run_time_usec (compute_allowed_run_time exact_double example_policy 100))
   \<and> is_valid_violation_policy (example_policy_ratio (1 / 2 ^ 44)) 102
   \<and> unat (102 - received_epoch_sec (example_policy_ratio (1 / 2 ^ 44))) = 2
   \<and> \<not> scale_in_range
          (max MIN_RUN_TIME_USEC
             (quot_u64 exact_double (elapsed_usec_in_the_epoch (example_policy_ratio (1 / 2 ^ 44)))
                (diff_ratio (example_policy_ratio (1 / 2 ^ 44)))))
          (102 - received_epoch_sec (example_policy_ratio (1 / 2 ^ 44)) - 1)
   \<and> unat (allowed_run_time_usec
             (compute_allowed_run_time exact_double (example_policy_ratio (1 / 2 ^ 44)) 102)) = 0
   \<and> \<not> 50000 \<le> unat (allowed_run_time_usec
             (compute_allowed_run_time exact_double (example_policy_ratio (1 / 2 ^ 44)) 102))"
proof -
  have bl: "bit_length 17592168452229955584 = Suc 63" by (rule bit_length_eq) simp_all
  have d: "double_of_u64 17592168452229955584 = 17592168452229955584"
    using bl by (simp add: double_of_u64_def Let_def)
  have m: "max MIN_RUN_TIME_USEC (17592168452229955584 :: 64 word) = 17592168452229955584"
    by (simp add: MIN_RUN_TIME_USEC_def max_def)
  have k: "(102 :: 32 word) - received_epoch_sec (example_policy_ratio (1 / 2 ^ 44)) - 1 = 1"
    by (simp add: example_policy_ratio_def example_policy_def)
  have nr: "\<not> scale_in_range (17592168452229955584 :: 64 word) 1"
    by (simp add: scale_in_range_def d)
  have a: "is_valid_violation_policy example_policy 100
   \<and> unat (100 - received_epoch_sec example_policy) = 0
   \<and> unat (allowed_run_time_usec (compute_allowed_run_time exact_double example_policy 100)) = 0
   \<and> \<not> 50000 \<le> unat (allowed_run_time_usec (compute_allowed_run_time exact_double example_policy 100))"
    by (simp add: is_valid_violation_policy_def compute_allowed_run_time_def example_policy_def
        BACKOFF_WINDOW_EPOCHS_def)
  have v: "is_valid_violation_policy (example_policy_ratio (1 / 2 ^ 44)) 102
   \<and> unat (102 - received_epoch_sec (example_policy_ratio (1 / 2 ^ 44))) = 2"
    by (simp add: is_valid_violation_policy_def example_policy_ratio_def example_policy_def
        BACKOFF_WINDOW_EPOCHS_def)
  have r: "allowed_run_time_usec
             (compute_allowed_run_time exact_double (example_policy_ratio (1 / 2 ^ 44)) 102) = 0"
    unfolding compute_allowed_run_time_def Let_def example_policy_ratio_quot m k
    using nr
    by (simp add: scale_pow2_def BACKOFF_WINDOW_EPOCHS_def UNIT_USECS_IN_SEC_def)
       (simp add: exact_double_def example_policy_ratio_def example_policy_def)
  show ?thesis
    unfolding example_policy_ratio_quot m k
    using a v nr r by simp
qed

lemma example_allowed_run_time_age_one:
  "allowed_run_time_usec (compute_allowed_run_time exact_double example_policy 101) = 375000"
  by (simp add: compute_allowed_run_time_def example_policy_quot Let_def scale_pow2_example
      MIN_RUN_TIME_USEC_def UNIT_USECS_IN_SEC_def BACKOFF_WINDOW_EPOCHS_def)
     (simp add: example_policy_def scale_pow2_example)

subsection \<open>The policy validity window\<close>


lemma compute_allowed_throttle [simp]:
  "throttle (compute_allowed_run_time fp policy curr_sec) = throttle policy"
  by (simp add: compute_allowed_run_time_def Let_def)

lemma found_throttle_flag:
  "throttle (fst (get_epoch_sec tb fp (ip_port_from_sockaddr (Some a)) d (in_seconds cur))) =
     (if has_valid_policy tb cur (Some a) d then 1 else 0)"
  by (auto simp: get_epoch_sec_def has_valid_policy_def get_key_from_ip_port_def Let_def
      no_policy_found_def is_valid_violation_policy_def BACKOFF_WINDOW_EPOCHS_def
      word_le_nat_alt split: option.splits)

text \<open>
  Claim C4. \<open>rl_speed_throttle\<close> returns \<open>RL_THROTTLE\<close> only when the address maps
  to a user key that has a policy in the direction whose age (current second minus
  \<open>received_epoch_sec\<close>, as the \<open>uint32_t\<close> the code computes) is at most 6; with no
  address, no mapping, no policy or a stale policy it returns \<open>RL_NO_THROTTLE\<close>
  without sleeping.
\<close>

theorem speed_throttle_policy_window:
  "(rl_speed_throttle tb fp cur rnd addr_in d = Some (RL_THROTTLE, s)
      \<longrightarrow> has_valid_policy tb cur addr_in d)
   \<and> (\<not> has_valid_policy tb cur addr_in d
      \<longrightarrow> rl_speed_throttle tb fp cur rnd addr_in d = Some (RL_NO_THROTTLE, 0))"
proof (cases addr_in)
  case None
  then show ?thesis by (simp add: rl_speed_throttle_def has_valid_policy_def)
next
  case (Some a)
  show ?thesis
    unfolding Some
    by (auto simp: rl_speed_throttle_def Let_def found_throttle_flag split: option.splits)
qed



lemma example_table_download:
  "key_download_speed_epoch_hashmap example_table = [''u'' \<mapsto> example_policy]"
  by (simp add: example_table_def set_throttle_epoch_us_def example_empty_table_def
      get_key_speed_hash_def set_speed_hash_def example_policy_def UNIT_USECS_IN_SEC_def Let_def)

lemma example_table_keys:
  "ip_port_key_hashmap example_table = [ip_port_from_sockaddr (Some example_addr) \<mapsto> ''u'']"
  by (simp add: example_table_def set_throttle_epoch_us_def example_empty_table_def
      get_key_speed_hash_def set_speed_hash_def Let_def)

lemma example_table_counts:
  "key_ip_port_count_hashmap example_table = [''u'' \<mapsto> 1]"
  by (simp add: example_table_def set_throttle_epoch_us_def example_empty_table_def
      get_key_speed_hash_def set_speed_hash_def Let_def)

lemma example_found_101:
  "fst (get_epoch_sec example_table exact_double (ip_port_from_sockaddr (Some example_addr)) RL_DOWNLOAD 101)
     = compute_allowed_run_time exact_double (example_policy\<lparr>throttle := 1, num_active_connections := 1\<rparr>) 101"
  by (simp add: get_epoch_sec_def get_key_from_ip_port_def example_table_keys get_key_speed_hash_def
      example_table_download is_valid_violation_policy_def BACKOFF_WINDOW_EPOCHS_def Let_def
      get_ip_port_count_from_key_def example_table_counts)
     (simp add: example_policy_def)

lemma example_throttled_101:
  "rl_speed_throttle example_table exact_double
     \<lparr>in_seconds = 101, now_elapsed_usec_in_the_epoch = 400000\<rparr> 7 (Some example_addr) RL_DOWNLOAD
   = Some (RL_THROTTLE, 0)"
  by (simp add: rl_speed_throttle_def Let_def example_found_101)
     (simp add: compute_allowed_run_time_def Let_def example_policy_def exact_double_def
       scale_pow2_example MIN_RUN_TIME_USEC_def UNIT_USECS_IN_SEC_def BACKOFF_WINDOW_EPOCHS_def)

lemma example_stale_107:
  "\<not> has_valid_policy example_table \<lparr>in_seconds = 107, now_elapsed_usec_in_the_epoch = 100000\<rparr>
       (Some example_addr) RL_DOWNLOAD"
  by (simp add: has_valid_policy_def example_table_keys get_key_speed_hash_def example_table_download)
     (simp add: example_policy_def)

text \<open>
  The theorem at the example table: one second after the policy was installed, 400000
  microseconds into the second, the connection is throttled; seven seconds after, the
  policy is stale and the connection is not throttled.
\<close>

theorem speed_throttle_policy_window_witness:
  "rl_speed_throttle example_table exact_double
     \<lparr>in_seconds = 101, now_elapsed_usec_in_the_epoch = 400000\<rparr> 7 (Some example_addr) RL_DOWNLOAD
     = Some (RL_THROTTLE, 0)
   \<and> has_valid_policy example_table \<lparr>in_seconds = 101, now_elapsed_usec_in_the_epoch = 400000\<rparr>
       (Some example_addr) RL_DOWNLOAD
   \<and> \<not> has_valid_policy example_table \<lparr>in_seconds = 107, now_elapsed_usec_in_the_epoch = 100000\<rparr>
       (Some example_addr) RL_DOWNLOAD
   \<and> rl_speed_throttle example_table exact_double
     \<lparr>in_seconds = 107, now_elapsed_usec_in_the_epoch = 100000\<rparr> 7 (Some example_addr) RL_DOWNLOAD
     = Some (RL_NO_THROTTLE, 0)"
  using speed_throttle_policy_window [of example_table exact_double
      "\<lparr>in_seconds = 101, now_elapsed_usec_in_the_epoch = 400000\<rparr>" 7 "Some example_addr" RL_DOWNLOAD 0]
    speed_throttle_policy_window [of example_table exact_double
      "\<lparr>in_seconds = 107, now_elapsed_usec_in_the_epoch = 100000\<rparr>" 7 "Some example_addr" RL_DOWNLOAD 0]
    example_throttled_101 example_stale_107
  by blast


subsection \<open>Share ingestion\<close>


lemma latest_share_snoc:
  "latest_share acc (cs @ [(t, v)]) =
     (if t \<ge> fst (latest_share acc cs) then (t, clamp_share v) else latest_share acc cs)"
  by (induction cs arbitrary: acc) auto

lemma latest_share_max:
  "cs \<noteq> [] \<Longrightarrow> fst acc = 0 \<Longrightarrow>
   latest_share acc cs =
     (Max (set (map fst cs)),
      clamp_share (snd (last (filter (\<lambda>c. fst c = Max (set (map fst cs))) cs))))"
proof (induction cs rule: rev_induct)
  case Nil
  then show ?case by simp
next
  case (snoc c cs)
  obtain t v where c: "c = (t, v)" by (cases c)
  show ?case
  proof (cases "cs = []")
    case True
    with snoc.prems c show ?thesis by simp
  next
    case False
    let ?M = "Max (set (map fst cs))"
    have ih: "latest_share acc cs = (?M, clamp_share (snd (last (filter (\<lambda>c. fst c = ?M) cs))))"
      using snoc.IH [OF False snoc.prems(2)] .
    have ne: "set (map fst cs) \<noteq> {}" using False by simp
    have M': "Max (set (map fst (cs @ [c]))) = max t ?M"
      using ne c by (simp add: Max_insert)
    have Min: "?M \<in> set (map fst cs)" using ne Max_in by blast
    show ?thesis
    proof (cases "t \<ge> ?M")
      case True
      then have "max t ?M = t" by (auto simp: max_def)
      with True ih M' c show ?thesis
        by (auto simp: latest_share_snoc)
    next
      case False
      then have mx: "max t ?M = ?M" by (auto simp: max_def)
      have "t \<noteq> ?M" using False by auto
      moreover have "filter (\<lambda>c. fst c = ?M) cs \<noteq> []"
        using Min by (fastforce simp: filter_empty_conv)
      ultimately show ?thesis using False ih M' c mx
        by (simp add: latest_share_snoc)
    qed
  qed
qed



lemma ucast_clamped:
  "(ucast (if v > UINT_MAX then UINT_MAX else v) :: 32 word) = clamp_share v"
proof (cases "v > UINT_MAX")
  case True
  then have "unat v > 4294967295" by (simp add: UINT_MAX_def word_less_nat_alt)
  with True show ?thesis by (simp add: clamp_share_def UINT_MAX_def)
next
  case False
  then have "\<not> unat v > 4294967295" by (simp add: UINT_MAX_def word_less_nat_alt)
  with False show ?thesis by (simp add: clamp_share_def unsigned_of_nat [symmetric] del: unsigned_of_nat)
qed

lemma store_share_timestamp:
  "limit_timestamp (store_share t s d) = (if limit_timestamp d \<le> t then t else limit_timestamp d)"
  by (simp add: store_share_def Let_def)

lemma store_share_bytes:
  "bytes_per_second (store_share t s d) = (if limit_timestamp d \<le> t then ucast s else bytes_per_second d)"
  by (simp add: store_share_def Let_def)

lemma store_share_latest:
  "(limit_timestamp (store_share t (if v > UINT_MAX then UINT_MAX else v) d),
    bytes_per_second (store_share t (if v > UINT_MAX then UINT_MAX else v) d)) =
   latest_share (limit_timestamp d, bytes_per_second d) [(t, v)]"
  unfolding store_share_timestamp store_share_bytes ucast_clamped by simp

lemma ingest_call_instance:
  "\<exists>conf'. ingest_call z (Some conf) c = Some conf' \<and> instance_id conf' = instance_id conf"
  by (simp add: ingest_call_def weir_ingest_limit_share_update_def Let_def)

lemma ingest_call_other_instance:
  "call_instance c \<noteq> instance_id conf \<Longrightarrow> ingest_call z (Some conf) c = Some conf"
  by (auto simp: ingest_call_def weir_ingest_limit_share_update_def)

lemma stored_share_the_limit:
  "stored_share (Some conf) u d =
     (limit_timestamp (direction_limit d (the_limit z conf u)),
      bytes_per_second (direction_limit d (the_limit z conf u)))"
  by (simp add: stored_share_def the_limit_def zalloc_user_limit_def zalloc_direction_limit_def
      direction_limit_def split: option.splits)

lemma ingest_call_the_limit:
  assumes "call_instance c = instance_id conf"
  shows "\<exists>conf'. ingest_call z (Some conf) c = Some conf' \<and>
     (\<forall>u. the_limit z conf' u =
        (if u = call_user c then
           (if call_direction c = ''up''
            then (the_limit z conf u)\<lparr>upload := store_share (call_timestamp c)
                   (if call_share c > UINT_MAX then UINT_MAX else call_share c)
                   (upload (the_limit z conf u))\<rparr>
            else if call_direction c = ''dwn''
            then (the_limit z conf u)\<lparr>download := store_share (call_timestamp c)
                   (if call_share c > UINT_MAX then UINT_MAX else call_share c)
                   (download (the_limit z conf u))\<rparr>
            else the_limit z conf u)
         else the_limit z conf u))"
  using assms
  by (simp add: ingest_call_def weir_ingest_limit_share_update_def Let_def the_limit_def)

lemma ingest_call_stored:
  assumes "direction = ''up'' \<or> direction = ''dwn''"
  shows "stored_share (ingest_call z (Some conf) c) user direction =
         latest_share (stored_share (Some conf) user direction)
           (relevant_calls (instance_id conf) user direction [c])"
proof (cases "call_instance c = instance_id conf")
  case False
  then show ?thesis
    by (simp add: ingest_call_other_instance relevant_calls_def)
next
  case inst: True
  from ingest_call_the_limit [OF inst, of z] obtain conf' where
    c': "ingest_call z (Some conf) c = Some conf'" and
    l': "the_limit z conf' user =
        (if user = call_user c then
           (if call_direction c = ''up''
            then (the_limit z conf user)\<lparr>upload := store_share (call_timestamp c)
                   (if call_share c > UINT_MAX then UINT_MAX else call_share c)
                   (upload (the_limit z conf user))\<rparr>
            else if call_direction c = ''dwn''
            then (the_limit z conf user)\<lparr>download := store_share (call_timestamp c)
                   (if call_share c > UINT_MAX then UINT_MAX else call_share c)
                   (download (the_limit z conf user))\<rparr>
            else the_limit z conf user)
         else the_limit z conf user)"
    by blast
  show ?thesis
  proof (cases "call_user c = user \<and> call_direction c = direction")
    case False
    then have "direction_limit direction (the_limit z conf' user) =
               direction_limit direction (the_limit z conf user)"
      using assms l' by (auto simp: direction_limit_def)
    with False inst show ?thesis
      unfolding c' stored_share_the_limit [of _ _ _ z]
      by (auto simp: relevant_calls_def)
  next
    case True
    then have "direction_limit direction (the_limit z conf' user) =
               store_share (call_timestamp c)
                   (if call_share c > UINT_MAX then UINT_MAX else call_share c)
                   (direction_limit direction (the_limit z conf user))"
      using assms l' by (auto simp: direction_limit_def)
    with True inst show ?thesis
      unfolding c' stored_share_the_limit [of _ _ _ z]
      using store_share_latest [of "call_timestamp c" "call_share c"
          "direction_limit direction (the_limit z conf user)"]
      by (simp add: relevant_calls_def)
  qed
qed

lemma latest_share_append:
  "latest_share acc (xs @ ys) = latest_share (latest_share acc xs) ys"
  by (induction xs arbitrary: acc) auto

lemma relevant_calls_Cons:
  "relevant_calls i u d (c # cs) = relevant_calls i u d [c] @ relevant_calls i u d cs"
  by (simp add: relevant_calls_def)

lemma ingest_calls_stored:
  assumes "direction = ''up'' \<or> direction = ''dwn''"
  shows "stored_share (ingest_calls z (Some conf) cs) user direction =
         latest_share (stored_share (Some conf) user direction)
           (relevant_calls (instance_id conf) user direction cs)"
proof (induction cs arbitrary: conf)
  case Nil
  then show ?case by (simp add: ingest_calls_def relevant_calls_def)
next
  case (Cons c cs)
  obtain conf' where c': "ingest_call z (Some conf) c = Some conf'"
    and i': "instance_id conf' = instance_id conf"
    using ingest_call_instance [of z conf c] by blast
  have "stored_share (ingest_calls z (Some conf) (c # cs)) user direction =
        stored_share (ingest_calls z (Some conf') cs) user direction"
    by (simp add: ingest_calls_def c')
  also have "\<dots> = latest_share (stored_share (Some conf') user direction)
           (relevant_calls (instance_id conf) user direction cs)"
    using Cons.IH [of conf'] i' by simp
  also have "stored_share (Some conf') user direction =
      latest_share (stored_share (Some conf) user direction)
           (relevant_calls (instance_id conf) user direction [c])"
    using ingest_call_stored [OF assms, of z conf c user] c' by simp
  finally show ?case
    by (simp add: relevant_calls_Cons [of _ _ _ c cs] latest_share_append)
qed

text \<open>
  Claim C5. Take any run of \<open>ingest_share\<close> calls (any users, directions and instance
  ids mixed) on a table in which the stored timestamp of the user and direction is still
  zero, as in a fresh record. If at least one call is for this instance, user and
  direction, the table then holds the greatest timestamp of those calls and, as share,
  the value of the last call carrying that timestamp, cut to \<open>2^32 - 1\<close>: a call with
  a smaller timestamp changes nothing and a tie overwrites. The stored share never
  exceeds \<open>2^32 - 1\<close>.
\<close>

theorem ingest_share_greatest_timestamp:
  assumes "direction = ''up'' \<or> direction = ''dwn''"
    and "fst (stored_share (Some conf) user direction) = 0"
    and "relevant_calls (instance_id conf) user direction cs \<noteq> []"
  shows "stored_share (ingest_calls z (Some conf) cs) user direction =
           (Max (set (map fst (relevant_calls (instance_id conf) user direction cs))),
            clamp_share (snd (last (filter
              (\<lambda>c. fst c = Max (set (map fst (relevant_calls (instance_id conf) user direction cs))))
              (relevant_calls (instance_id conf) user direction cs)))))
         \<and> unat (snd (stored_share (ingest_calls z (Some conf) cs) user direction)) \<le> 2 ^ 32 - 1"
proof -
  have "unat (snd (stored_share (ingest_calls z (Some conf) cs) user direction)) < 2 ^ 32"
    using unsigned_less [of "snd (stored_share (ingest_calls z (Some conf) cs) user direction)"]
    by simp
  then show ?thesis
    using ingest_calls_stored [OF assms(1), of z conf cs user]
      latest_share_max [OF assms(3) assms(2)]
    by simp
qed



lemma example_relevant:
  "relevant_calls (instance_id example_conf) ''u'' ''up'' example_calls = [(5, 100), (9, 8589934592), (3, 50)]"
  by (simp add: relevant_calls_def example_calls_def example_conf_def)

text \<open>
  The theorem at a concrete run: timestamps 5, 9 and 3 for user \<open>u\<close> upward (the
  share sent with 9 is \<open>2^33\<close>), one call downward and one for another instance.
\<close>

theorem ingest_share_greatest_timestamp_witness:
  "fst (stored_share (Some example_conf) ''u'' ''up'') = 0
   \<and> relevant_calls (instance_id example_conf) ''u'' ''up'' example_calls \<noteq> []
   \<and> stored_share (ingest_calls () (Some example_conf) example_calls) ''u'' ''up'' = (9, 4294967295)"
proof -
  have h1: "''up'' = ''up'' \<or> ''up'' = ''dwn''" by simp
  have h2: "fst (stored_share (Some example_conf) ''u'' ''up'') = 0"
    by (simp add: stored_share_def example_conf_def)
  have h3: "relevant_calls (instance_id example_conf) ''u'' ''up'' example_calls \<noteq> []"
    by (simp add: example_relevant)
  have m: "Max (set (map fst [(5 :: 64 word, 100 :: 64 word), (9, 8589934592), (3, 50)])) = 9"
    by simp
  show ?thesis
    using ingest_share_greatest_timestamp [OF h1 h2 h3, of "()"] h2
    unfolding example_relevant m
    by (simp add: clamp_share_def)
qed


subsection \<open>The tokenizer\<close>

lemma find_sub_bound: "find_sub d s = Some i \<Longrightarrow> i + length d \<le> length s"
proof (induction s arbitrary: i)
  case Nil
  then show ?case by (simp split: if_splits)
next
  case (Cons c cs)
  show ?case
  proof (cases "prefix d (c # cs)")
    case True
    then have "length d \<le> length (c # cs)" by (rule prefix_length_le)
    with True Cons.prems show ?thesis by simp
  next
    case False
    with Cons.prems obtain j where j: "find_sub d cs = Some j" and i: "i = Suc j" by auto
    from Cons.IH [OF j] i show ?thesis by simp
  qed
qed

lemma split_fields_not_Nil: "split_fields d r \<noteq> []"
  by (subst split_fields.simps) (simp split: option.splits)

lemma split_fields_Nil: "d \<noteq> [] \<Longrightarrow> split_fields d [] = [[]]"
  by (subst split_fields.simps) simp

lemma split_fields_None: "d \<noteq> [] \<Longrightarrow> find_sub d r = None \<Longrightarrow> split_fields d r = [r]"
  by (subst split_fields.simps) simp

lemma split_fields_Some:
  "d \<noteq> [] \<Longrightarrow> find_sub d r = Some j \<Longrightarrow>
   split_fields d r = take j r # split_fields d (drop (j + length d) r)"
  by (subst split_fields.simps) simp

lemma split_fields_single_empty:
  assumes "d \<noteq> []"
  shows "(length (split_fields d r) = 1 \<and> last (split_fields d r) = []) \<longleftrightarrow> r = []"
proof (cases "find_sub d r")
  case None
  then show ?thesis using assms by (simp add: split_fields_None)
next
  case (Some j)
  then have "r \<noteq> []" using assms by (cases r) auto
  with Some show ?thesis using assms by (simp add: split_fields_Some split_fields_not_Nil)
qed

lemma next_live_None:
  assumes "inp \<noteq> []" "i \<le> length inp" "find_sub d (drop i inp) = None"
  shows "StringSplit_next (live inp d i) =
           Inr (drop i inp, (live inp d i)\<lparr>m_eof := True, m_index := length inp\<rparr>)"
  using assms by (simp add: StringSplit_next_def live_def sv_find_def sv_substr_from_def)

lemma next_live_Some:
  assumes "inp \<noteq> []" "i \<le> length inp" "find_sub d (drop i inp) = Some j"
  shows "StringSplit_next (live inp d i) =
           Inr (take j (drop i inp), live inp d (i + j + length d))"
  using assms by (simp add: StringSplit_next_def live_def sv_find_def sv_substr_def add.commute)

lemma next_n_error:
  "m_error s \<Longrightarrow> next_n k s = Inr (replicate k [], s)"
  by (induction k) (simp_all add: StringSplit_next_def)

lemma next_n_eof:
  "\<not> m_error s \<Longrightarrow> m_eof s \<Longrightarrow>
   next_n (Suc k) s = Inr (replicate (Suc k) [], s\<lparr>m_error := True\<rparr>)"
  by (simp add: StringSplit_next_def next_n_error)

lemma finished_live: "finishedSuccessfully (live inp d i) \<longleftrightarrow> length inp \<le> i"
  by (simp add: finishedSuccessfully_def live_def)

lemma next_n_live:
  assumes d: "d \<noteq> []" and inp: "inp \<noteq> []"
  shows "i \<le> length inp \<Longrightarrow>
    \<exists>s'. next_n k (live inp d i) =
            Inr (take k (split_fields d (drop i inp))
                 @ replicate (k - length (split_fields d (drop i inp))) [], s')
        \<and> (finishedSuccessfully s' \<longleftrightarrow>
             (length (split_fields d (drop i inp)) = k
              \<or> (length (split_fields d (drop i inp)) = Suc k
                  \<and> last (split_fields d (drop i inp)) = [])))
        \<and> (m_error s' \<longleftrightarrow> length (split_fields d (drop i inp)) < k)"
proof (induction k arbitrary: i)
  case 0
  have "length (split_fields d (drop i inp)) \<noteq> 0" by (simp add: split_fields_not_Nil)
  moreover have "(length (split_fields d (drop i inp)) = 1 \<and> last (split_fields d (drop i inp)) = [])
      \<longleftrightarrow> length inp \<le> i"
    using split_fields_single_empty [OF d, of "drop i inp"] by simp
  ultimately show ?case by (simp add: finished_live) (simp add: live_def)
next
  case (Suc k)
  let ?r = "drop i inp"
  show ?case
  proof (cases "find_sub d ?r")
    case None
    have fs: "split_fields d ?r = [?r]" by (rule split_fields_None [OF d None])
    let ?s1 = "(live inp d i)\<lparr>m_eof := True, m_index := length inp\<rparr>"
    have step: "StringSplit_next (live inp d i) = Inr (?r, ?s1)"
      by (rule next_live_None [OF inp Suc.prems None])
    show ?thesis
    proof (cases k)
      case 0
      show ?thesis
        unfolding 0 next_n.simps step
        by (simp add: fs finishedSuccessfully_def live_def)
    next
      case (Suc k')
      have e: "next_n (Suc k') ?s1 = Inr (replicate (Suc k') [], ?s1\<lparr>m_error := True\<rparr>)"
        by (rule next_n_eof) (simp_all add: live_def)
      have "next_n (Suc (Suc k')) (live inp d i) =
              Inr (?r # replicate (Suc k') [], ?s1\<lparr>m_error := True\<rparr>)"
        by (subst next_n.simps(2)) (simp only: step sum.case prod.case e)
      then show ?thesis
        unfolding Suc by (simp add: fs finishedSuccessfully_def)
    qed
  next
    case (Some j)
    let ?i' = "i + j + length d"
    have bound: "j + length d \<le> length ?r" by (rule find_sub_bound [OF Some])
    then have i': "?i' \<le> length inp" using Suc.prems by simp
    have dr: "drop (j + length d) ?r = drop ?i' inp" by (simp add: add.commute add.left_commute)
    have fs: "split_fields d ?r = take j ?r # split_fields d (drop ?i' inp)"
      using split_fields_Some [OF d Some] dr by simp
    have step: "StringSplit_next (live inp d i) = Inr (take j ?r, live inp d ?i')"
      by (rule next_live_Some [OF inp Suc.prems Some])
    from Suc.IH [OF i'] obtain s' where
      n: "next_n k (live inp d ?i') =
            Inr (take k (split_fields d (drop ?i' inp))
                 @ replicate (k - length (split_fields d (drop ?i' inp))) [], s')"
      and f: "finishedSuccessfully s' \<longleftrightarrow>
             (length (split_fields d (drop ?i' inp)) = k
              \<or> (length (split_fields d (drop ?i' inp)) = Suc k
                  \<and> last (split_fields d (drop ?i' inp)) = []))"
      and er: "m_error s' \<longleftrightarrow> length (split_fields d (drop ?i' inp)) < k"
      by blast
    have ne: "split_fields d (drop ?i' inp) \<noteq> []" by (rule split_fields_not_Nil)
    have "next_n (Suc k) (live inp d i) =
            Inr (take j ?r # (take k (split_fields d (drop ?i' inp))
                 @ replicate (k - length (split_fields d (drop ?i' inp))) []), s')"
      by (subst next_n.simps(2)) (simp only: step sum.case prod.case n)
    then show ?thesis
      using f er ne by (simp add: fs)
  qed
qed

lemma next_n_new:
  assumes d: "d \<noteq> []"
  shows "\<exists>s'. next_n k (StringSplit_new raw d) =
            Inr (take k (split_fields d raw) @ replicate (k - length (split_fields d raw)) [], s')
        \<and> (finishedSuccessfully s' \<longleftrightarrow>
             (length (split_fields d raw) = k
              \<or> (length (split_fields d raw) = Suc k \<and> last (split_fields d raw) = [])))
        \<and> (m_error s' \<longleftrightarrow> length (split_fields d raw) < k)"
proof (cases "raw = []")
  case False
  have "StringSplit_new raw d = live raw d 0"
    using d by (simp add: StringSplit_new_def live_def)
  then show ?thesis
    using next_n_live [OF d False, of 0 k] by simp
next
  case True
  let ?s0 = "StringSplit_new [] d"
  let ?s1 = "?s0\<lparr>m_eof := True, m_index := 1\<rparr>"
  have fs: "split_fields d [] = [[]]" using d by (simp add: split_fields_Nil)
  have step: "StringSplit_next ?s0 = Inr ([], ?s1)"
    using d by (simp add: StringSplit_next_def StringSplit_new_def)
  show ?thesis
  proof (cases k)
    case 0
    then show ?thesis
      unfolding True
      using d by (simp add: fs finishedSuccessfully_def StringSplit_new_def)
  next
    case (Suc k')
    show ?thesis
    proof (cases k')
      case 0
      have "next_n (Suc 0) ?s0 = Inr ([[]], ?s1)"
        by (subst next_n.simps(2)) (simp only: step sum.case prod.case next_n.simps(1))
      then show ?thesis
        unfolding Suc 0 True
        using d by (simp add: fs finishedSuccessfully_def StringSplit_new_def)
    next
      case (Suc k'')
      have e: "next_n (Suc k'') ?s1 = Inr (replicate (Suc k'') [], ?s1\<lparr>m_error := True\<rparr>)"
        by (rule next_n_eof) (use d in \<open>simp_all add: StringSplit_new_def\<close>)
      have "next_n (Suc (Suc k'')) ?s0 = Inr ([] # replicate (Suc k'') [], ?s1\<lparr>m_error := True\<rparr>)"
        by (subst next_n.simps(2)) (simp only: step sum.case prod.case e)
      then show ?thesis
        unfolding \<open>k = Suc k'\<close> Suc True
        by (simp add: fs finishedSuccessfully_def)
    qed
  qed
qed

lemma DELIMITER_nonempty: "DELIMITER \<noteq> []"
  by (simp add: DELIMITER_def)

lemma next_n_exact_fields:
  assumes "length (split_fields DELIMITER raw) = k"
  shows "\<exists>s'. next_n k (StringSplit_new raw DELIMITER) = Inr (split_fields DELIMITER raw, s')
           \<and> finishedSuccessfully s'"
  using next_n_new [OF DELIMITER_nonempty, of k raw] assms by auto

lemma list5: "length xs = 5 \<Longrightarrow> \<exists>a b c d e. xs = [a, b, c, d, e]"
  by (auto simp: length_Suc_conv numeral_eq_Suc)

lemma list8: "length xs = 8 \<Longrightarrow> \<exists>a b c d e f g h. xs = [a, b, c, d, e, f, g, h]"
  by (auto simp: length_Suc_conv numeral_eq_Suc)

lemma next_n_tokens:
  "\<exists>toks s'. next_n k (StringSplit_new raw DELIMITER) = Inr (toks, s') \<and> length toks = k
     \<and> (finishedSuccessfully s' \<longleftrightarrow>
             (length (split_fields DELIMITER raw) = k
              \<or> (length (split_fields DELIMITER raw) = Suc k
                  \<and> last (split_fields DELIMITER raw) = [])))"
proof -
  from next_n_new [OF DELIMITER_nonempty, of k raw] obtain s' where
    n: "next_n k (StringSplit_new raw DELIMITER) =
            Inr (take k (split_fields DELIMITER raw)
                 @ replicate (k - length (split_fields DELIMITER raw)) [], s')"
    and f: "finishedSuccessfully s' \<longleftrightarrow>
             (length (split_fields DELIMITER raw) = k
              \<or> (length (split_fields DELIMITER raw) = Suc k
                  \<and> last (split_fields DELIMITER raw) = []))"
    by blast
  have "length (take k (split_fields DELIMITER raw)
                 @ replicate (k - length (split_fields DELIMITER raw)) []) = k"
    by simp
  with n f show ?thesis by blast
qed

lemma processDataXfer_tokens:
  "next_n 5 (StringSplit_new raw DELIMITER) = Inr ([a, b, user, dir, len_str], s) \<Longrightarrow>
   processDataXfer p now raw =
     (if finishedSuccessfully s \<and> from_chars_int len_str \<noteq> None
      then (if \<not> isPrintableASCII user
            then Inr (log_error (''Invalid access key: '' @ user) p)
            else if user = [] then Inr p
            else Inr (p\<lparr>m_qos_redis_commands :=
                          cmd_add (m_qos_redis_commands p)
                            \<lparr>m_user = ''user_'' @ user, m_timestamp = now, m_cat = ''bnd_'' @ dir\<rparr>
                            (word_of_int (the (from_chars_int len_str))),
                        m_qos_not_send_count := m_qos_not_send_count p + 1\<rparr>))
      else Inr (log_error (''Unexpected data_xfer format: '' @ raw) p))"
  by (auto simp: processDataXfer_def Let_def split: option.splits bool.splits)

lemma processReq_tokens:
  "next_n 8 (StringSplit_new raw DELIMITER) = Inr ([a, b, user, verb, dir, inst, areqs, cls], s) \<Longrightarrow>
   processReq p now_class now_verb raw =
     (if \<not> finishedSuccessfully s
      then Inr (log_error (''Unexpected request format: '' @ raw) p)
      else if from_chars_int areqs = None
      then Inr (log_error (''Unexpected active request format: '' @ raw) p)
      else if \<not> isPrintableASCII user
      then Inr (log_error (''Invalid access key: '' @ user) p)
      else Inr (p\<lparr>m_qos_redis_commands :=
                    cmd_add (if cls \<noteq> []
                             then cmd_add (m_qos_redis_commands p)
                                    \<lparr>m_user = ''user_'' @ user, m_timestamp = now_class, m_cat = cls\<rparr> 1
                             else m_qos_redis_commands p)
                      \<lparr>m_user = ''user_'' @ user, m_timestamp = now_verb, m_cat = verb\<rparr> 1,
                  m_qos_redis_active_reqs :=
                    AList.update (conn_key_of p dir inst user)
                      (word_of_int (the (from_chars_int areqs))) (m_qos_redis_active_reqs p),
                  m_qos_not_send_count := m_qos_not_send_count p + 1\<rparr>))"
  by (auto simp: processReq_def Let_def split: option.splits)

lemma log_error_count [simp]:
  "m_qos_not_send_count (log_error msg p) = m_qos_not_send_count p"
  by (simp add: log_error_def)

lemma processDataXfer_accepts_only:
  "\<exists>p'. processDataXfer p now raw = Inr p'
     \<and> (m_qos_not_send_count p' \<noteq> m_qos_not_send_count p \<longrightarrow>
           length (split_fields DELIMITER raw) = 5
           \<or> (length (split_fields DELIMITER raw) = 6 \<and> last (split_fields DELIMITER raw) = []))"
proof -
  from next_n_tokens [of 5 raw] obtain toks s' where
    n: "next_n 5 (StringSplit_new raw DELIMITER) = Inr (toks, s')" and l: "length toks = 5"
    and f: "finishedSuccessfully s' \<longleftrightarrow>
             (length (split_fields DELIMITER raw) = 5
              \<or> (length (split_fields DELIMITER raw) = Suc 5
                  \<and> last (split_fields DELIMITER raw) = []))"
    by blast
  from list5 [OF l] obtain a b c d e where t: "toks = [a, b, c, d, e]" by blast
  show ?thesis
    unfolding processDataXfer_tokens [OF n [unfolded t]]
    using f by auto
qed

lemma processReq_accepts_only:
  "\<exists>p'. processReq p now_class now_verb raw = Inr p'
     \<and> (m_qos_not_send_count p' \<noteq> m_qos_not_send_count p \<longrightarrow>
           length (split_fields DELIMITER raw) = 8
           \<or> (length (split_fields DELIMITER raw) = 9 \<and> last (split_fields DELIMITER raw) = []))"
proof -
  from next_n_tokens [of 8 raw] obtain toks s' where
    n: "next_n 8 (StringSplit_new raw DELIMITER) = Inr (toks, s')" and l: "length toks = 8"
    and f: "finishedSuccessfully s' \<longleftrightarrow>
             (length (split_fields DELIMITER raw) = 8
              \<or> (length (split_fields DELIMITER raw) = Suc 8
                  \<and> last (split_fields DELIMITER raw) = []))"
    by blast
  from list8 [OF l] obtain a b c d e f' g h where t: "toks = [a, b, c, d, e, f', g, h]" by blast
  show ?thesis
    unfolding processReq_tokens [OF n [unfolded t]]
    using f by auto
qed

lemma list7: "length xs = 7 \<Longrightarrow> \<exists>a b c d e f g. xs = [a, b, c, d, e, f, g]"
  by (auto simp: length_Suc_conv numeral_eq_Suc)

lemma processActiveRequests_tokens:
  "next_n 5 (StringSplit_new raw DELIMITER) = Inr ([a, inst, user, dir, areqs], s) \<Longrightarrow>
   processActiveRequests p raw =
     (case from_chars_int areqs of
        Some active \<Rightarrow>
          if finishedSuccessfully s
          then Inr (p\<lparr>m_qos_redis_active_reqs :=
                        AList.update (conn_key_of p dir inst user)
                          (word_of_int active) (m_qos_redis_active_reqs p),
                      m_qos_not_send_count := m_qos_not_send_count p + 1\<rparr>)
          else Inr (log_error (''Unexpected active-requests format: '' @ raw) p)
      | None \<Rightarrow> Inr (log_error (''Unexpected active-requests format: '' @ raw) p))"
  by (auto simp: processActiveRequests_def Let_def split: option.splits bool.splits)

lemma processReqEnd_tokens:
  "next_n 7 (StringSplit_new raw DELIMITER) = Inr ([a, b, user, verb, dir, inst, areqs], s) \<Longrightarrow>
   processReqEnd p raw =
     (case from_chars_int areqs of
        Some active \<Rightarrow>
          if finishedSuccessfully s
          then Inr (p\<lparr>m_qos_redis_active_reqs :=
                        AList.update (conn_key_of p dir inst user)
                          (word_of_int active) (m_qos_redis_active_reqs p),
                      m_qos_not_send_count := m_qos_not_send_count p + 1\<rparr>)
          else Inr (log_error (''Unexpected request-end format: '' @ raw) p)
      | None \<Rightarrow> Inr (log_error (''Unexpected request-end format: '' @ raw) p))"
  by (auto simp: processReqEnd_def Let_def split: option.splits bool.splits)

lemma processActiveRequests_accepts_only:
  "\<exists>p'. processActiveRequests p raw = Inr p'
     \<and> (m_qos_not_send_count p' \<noteq> m_qos_not_send_count p \<longrightarrow>
           length (split_fields DELIMITER raw) = 5
           \<or> (length (split_fields DELIMITER raw) = 6 \<and> last (split_fields DELIMITER raw) = []))"
proof -
  from next_n_tokens [of 5 raw] obtain toks s' where
    n: "next_n 5 (StringSplit_new raw DELIMITER) = Inr (toks, s')" and l: "length toks = 5"
    and f: "finishedSuccessfully s' \<longleftrightarrow>
             (length (split_fields DELIMITER raw) = 5
              \<or> (length (split_fields DELIMITER raw) = Suc 5
                  \<and> last (split_fields DELIMITER raw) = []))"
    by blast
  from list5 [OF l] obtain a b c d e where t: "toks = [a, b, c, d, e]" by blast
  show ?thesis
    unfolding processActiveRequests_tokens [OF n [unfolded t]]
    using f by (auto split: option.splits)
qed

lemma processReqEnd_accepts_only:
  "\<exists>p'. processReqEnd p raw = Inr p'
     \<and> (m_qos_not_send_count p' \<noteq> m_qos_not_send_count p \<longrightarrow>
           length (split_fields DELIMITER raw) = 7
           \<or> (length (split_fields DELIMITER raw) = 8 \<and> last (split_fields DELIMITER raw) = []))"
proof -
  from next_n_tokens [of 7 raw] obtain toks s' where
    n: "next_n 7 (StringSplit_new raw DELIMITER) = Inr (toks, s')" and l: "length toks = 7"
    and f: "finishedSuccessfully s' \<longleftrightarrow>
             (length (split_fields DELIMITER raw) = 7
              \<or> (length (split_fields DELIMITER raw) = Suc 7
                  \<and> last (split_fields DELIMITER raw) = []))"
    by blast
  from list7 [OF l] obtain a b c d e f' g where t: "toks = [a, b, c, d, e, f', g]" by blast
  show ?thesis
    unfolding processReqEnd_tokens [OF n [unfolded t]]
    using f by (auto split: option.splits)
qed

subsection \<open>Keys of the command map\<close>

lemma getEpochSecs_in_range:
  assumes "0 \<le> t" "t < 4294967296 * 1000000000"
  shows "uint (getEpochSecs t) = t div 1000000000"
proof -
  have sd: "t sdiv 1000000000 = t div 1000000000"
    using assms(1) by (simp add: signed_divide_int_def sgn_if)
  have lo: "0 \<le> t div 1000000000" using assms(1) by simp
  have hi: "t div 1000000000 < 4294967296" using assms(2) by simp
  have "uint (word_of_int (t div 1000000000) :: 32 word) = t div 1000000000"
    using lo hi by (simp add: uint_word_of_int take_bit_int_eq_self)
  then show ?thesis by (simp add: getEpochSecs_def sd)
qed

lemma epoch_secs_eq_iff:
  assumes "0 \<le> t1" "t1 < 4294967296 * 1000000000"
    and "0 \<le> t2" "t2 < 4294967296 * 1000000000"
  shows "getEpochSecs t1 = getEpochSecs t2 \<longleftrightarrow> t1 div 1000000000 = t2 div 1000000000"
  using getEpochSecs_in_range [OF assms(1,2)] getEpochSecs_in_range [OF assms(3,4)]
  by (metis word_uint_eq_iff)

lemma epoch_secs_same_second:
  assumes "0 \<le> t1" "0 \<le> t2" "t1 div 1000000000 = t2 div 1000000000"
  shows "getEpochSecs t1 = getEpochSecs t2"
proof -
  have "t1 sdiv 1000000000 = t1 div 1000000000"
    using assms(1) by (simp add: signed_divide_int_def sgn_if)
  moreover have "t2 sdiv 1000000000 = t2 div 1000000000"
    using assms(2) by (simp add: signed_divide_int_def sgn_if)
  ultimately show ?thesis using assms(3) by (simp add: getEpochSecs_def)
qed

text \<open>
  Claim C7, amended. For two keys whose timestamps lie between the epoch and \<open>2^32\<close>
  seconds after it, the keys compare equal if and only if they have the same user, the
  same category and timestamps in the same second. For timestamps at or after the
  epoch, however late, keys of the same user, category and second compare equal. And
  two keys that compare equal, with any timestamps, have the same user and category and
  equal hash values, whatever \<open>std::hash\<close> is.
\<close>

theorem key_eq_same_second:
  "(0 \<le> m_timestamp k1 \<and> m_timestamp k1 < 4294967296 * 1000000000
    \<and> 0 \<le> m_timestamp k2 \<and> m_timestamp k2 < 4294967296 * 1000000000
    \<longrightarrow> (key_eq k1 k2 \<longleftrightarrow>
            m_user k1 = m_user k2 \<and> m_cat k1 = m_cat k2
            \<and> m_timestamp k1 div 1000000000 = m_timestamp k2 div 1000000000))
   \<and> (0 \<le> m_timestamp k1 \<and> 0 \<le> m_timestamp k2
       \<and> m_user k1 = m_user k2 \<and> m_cat k1 = m_cat k2
       \<and> m_timestamp k1 div 1000000000 = m_timestamp k2 div 1000000000
       \<longrightarrow> key_eq k1 k2)
   \<and> (key_eq k1 k2 \<longrightarrow>
         m_user k1 = m_user k2 \<and> m_cat k1 = m_cat k2
         \<and> RedisCmdKeyHash hash_string hash_u32 k1 = RedisCmdKeyHash hash_string hash_u32 k2)"
proof (intro conjI impI)
  assume r: "0 \<le> m_timestamp k1 \<and> m_timestamp k1 < 4294967296 * 1000000000
    \<and> 0 \<le> m_timestamp k2 \<and> m_timestamp k2 < 4294967296 * 1000000000"
  then have "getEpochSecs (m_timestamp k1) = getEpochSecs (m_timestamp k2)
        \<longleftrightarrow> m_timestamp k1 div 1000000000 = m_timestamp k2 div 1000000000"
    by (intro epoch_secs_eq_iff) simp_all
  then show "key_eq k1 k2 \<longleftrightarrow>
            m_user k1 = m_user k2 \<and> m_cat k1 = m_cat k2
            \<and> m_timestamp k1 div 1000000000 = m_timestamp k2 div 1000000000"
    by (auto simp: key_eq_def)
next
  assume s: "0 \<le> m_timestamp k1 \<and> 0 \<le> m_timestamp k2
       \<and> m_user k1 = m_user k2 \<and> m_cat k1 = m_cat k2
       \<and> m_timestamp k1 div 1000000000 = m_timestamp k2 div 1000000000"
  then have "getEpochSecs (m_timestamp k1) = getEpochSecs (m_timestamp k2)"
    by (intro epoch_secs_same_second) simp_all
  then show "key_eq k1 k2" using s by (simp add: key_eq_def)
next
  assume "key_eq k1 k2"
  then show "m_user k1 = m_user k2" by (simp add: key_eq_def)
next
  assume "key_eq k1 k2"
  then show "m_cat k1 = m_cat k2" by (simp add: key_eq_def)
next
  assume "key_eq k1 k2"
  then show "RedisCmdKeyHash hash_string hash_u32 k1 = RedisCmdKeyHash hash_string hash_u32 k2"
    by (simp add: key_eq_def RedisCmdKeyHash_def Let_def)
qed

text \<open>
  The theorem at the keys of the coalescing scenario: 10.100 s and 10.999 s compare equal
  and hash alike, 10.999 s and 11.001 s differ. And at two keys outside the range that
  compare equal, the epoch and \<open>2^32\<close> seconds after it: they hash alike too.
\<close>

theorem key_eq_same_second_witness:
  "0 \<le> m_timestamp (key_at 10100000000)
   \<and> m_timestamp (key_at 10100000000) < 4294967296 * 1000000000
   \<and> 0 \<le> m_timestamp (key_at 10999000000)
   \<and> m_timestamp (key_at 10999000000) < 4294967296 * 1000000000
   \<and> m_user (key_at 10100000000) = m_user (key_at 10999000000)
   \<and> m_cat (key_at 10100000000) = m_cat (key_at 10999000000)
   \<and> m_timestamp (key_at 10100000000) div 1000000000
       = m_timestamp (key_at 10999000000) div 1000000000
   \<and> key_eq (key_at 10100000000) (key_at 10999000000)
   \<and> RedisCmdKeyHash example_hash_string example_hash_u32 (key_at 10100000000)
       = RedisCmdKeyHash example_hash_string example_hash_u32 (key_at 10999000000)
   \<and> \<not> key_eq (key_at 10999000000) (key_at 11001000000)
   \<and> key_eq (key_at 0) (key_at 4294967296000000000)
   \<and> RedisCmdKeyHash example_hash_string example_hash_u32 (key_at 0)
       = RedisCmdKeyHash example_hash_string example_hash_u32 (key_at 4294967296000000000)"
proof -
  have r1: "0 \<le> m_timestamp (key_at 10100000000)
      \<and> m_timestamp (key_at 10100000000) < 4294967296 * 1000000000"
    by (simp add: key_at_def)
  have r2: "0 \<le> m_timestamp (key_at 10999000000)
      \<and> m_timestamp (key_at 10999000000) < 4294967296 * 1000000000"
    by (simp add: key_at_def)
  have r3: "0 \<le> m_timestamp (key_at 11001000000)
      \<and> m_timestamp (key_at 11001000000) < 4294967296 * 1000000000"
    by (simp add: key_at_def)
  have s: "m_user (key_at 10100000000) = m_user (key_at 10999000000)
      \<and> m_cat (key_at 10100000000) = m_cat (key_at 10999000000)
      \<and> m_timestamp (key_at 10100000000) div 1000000000
          = m_timestamp (key_at 10999000000) div 1000000000"
    by (simp add: key_at_def)
  have a: "key_eq (key_at 10100000000) (key_at 10999000000)"
    using key_eq_same_second [of "key_at 10100000000" "key_at 10999000000"
        example_hash_string example_hash_u32] r1 r2 s
    by blast
  have b: "\<not> key_eq (key_at 10999000000) (key_at 11001000000)"
    using key_eq_same_second [of "key_at 10999000000" "key_at 11001000000"
        example_hash_string example_hash_u32] r2 r3
    by (simp add: key_at_def)
  have h: "RedisCmdKeyHash example_hash_string example_hash_u32 (key_at 10100000000)
       = RedisCmdKeyHash example_hash_string example_hash_u32 (key_at 10999000000)"
    using key_eq_same_second [of "key_at 10100000000" "key_at 10999000000"
        example_hash_string example_hash_u32] a
    by blast
  have c: "key_eq (key_at 0) (key_at 4294967296000000000)"
    by (simp add: key_eq_def key_at_def getEpochSecs_def signed_divide_int_def)
  have h': "RedisCmdKeyHash example_hash_string example_hash_u32 (key_at 0)
       = RedisCmdKeyHash example_hash_string example_hash_u32 (key_at 4294967296000000000)"
    using key_eq_same_second [of "key_at 0" "key_at 4294967296000000000"
        example_hash_string example_hash_u32] c
    by blast
  show ?thesis using r1 r2 s a h b c h' by blast
qed

text \<open>
  Claim C7 as stated fails outside that range. The seconds are kept in a \<open>uint32_t\<close>:
  a key at the epoch and a key \<open>2^32\<close> seconds later compare equal. The seconds are cut
  towards zero: half a second before the epoch and half a second after it compare equal,
  though the floors are \<open>-1\<close> and \<open>0\<close>; and one second before the epoch and half a
  second before it, both of floor \<open>-1\<close>, compare different.
\<close>

theorem key_eq_outside_range_counterexample:
  "key_eq (key_at 0) (key_at 4294967296000000000)
   \<and> m_timestamp (key_at 0) div 1000000000
       \<noteq> m_timestamp (key_at 4294967296000000000) div 1000000000
   \<and> key_eq (key_at (- 500000000)) (key_at 500000000)
   \<and> m_timestamp (key_at (- 500000000)) div 1000000000
       \<noteq> m_timestamp (key_at 500000000) div 1000000000
   \<and> \<not> key_eq (key_at (- 1000000000)) (key_at (- 500000000))
   \<and> m_timestamp (key_at (- 1000000000)) div 1000000000
       = m_timestamp (key_at (- 500000000)) div 1000000000"
  by (simp add: key_eq_def key_at_def getEpochSecs_def signed_divide_int_def)

subsection \<open>Flushing while the store is away\<close>

lemma connect_requested:
  "connect outcome (c, lg) = Inr (c', lg') \<Longrightarrow>
   m_total_conns_requested c' = m_total_conns_requested c + 1 \<and> submitted c' = submitted c"
  by (auto simp: connect_def Let_def split: RedisConnectionState.splits connect_outcome.splits)

lemma connect_no_throw:
  "\<not> (m_connection_status c = DISCONNECTED \<and> attach_fails outcome) \<Longrightarrow>
   \<exists>c' lg'. connect outcome (c, lg) = Inr (c', lg')"
  by (auto simp: connect_def Let_def attach_fails_def
      split: RedisConnectionState.splits connect_outcome.splits)

lemma connect_throw:
  "m_connection_status c = DISCONNECTED \<Longrightarrow> attach_fails outcome \<Longrightarrow>
   \<exists>c' lg'. connect outcome (c, lg) =
               Inl (Runtime_error (''failed to attach '' @ m_conn_id c @ '' context''), c', lg')
            \<and> submitted c' = submitted c"
  by (auto simp: connect_def Let_def attach_fails_def split: connect_outcome.splits)

text \<open>
  Claim C8, amended. On a flush tick at which the store is not connected there are two
  cases. When a reconnect is due, the connection is in state \<open>DISCONNECTED\<close> and the
  attach fails, \<open>connect()\<close> throws its \<open>std::runtime_error\<close> out of the flush: no
  command is submitted and both maps are left as they were. In every other case the
  flush returns; no command is submitted; the command map keeps exactly the entries that
  are not older than \<open>qos_ttl\<close> seconds, unchanged and in order; the gauge map is
  emptied; and \<open>connect()\<close> is called exactly when more than \<open>check_conn_interval\<close> has
  passed since \<open>m_last_redis_connect_time\<close>, so only if at least that much has passed.
\<close>

theorem flush_while_disconnected:
  assumes due: "flush_due p env"
    and disc: "\<not> connected_redis (m_qos_redis_conn p)"
  shows "if connect_throws p env
     then (\<exists>p'. sendToRedisQos p env =
                   Inl (Runtime_error (''failed to attach '' @ m_conn_id (m_qos_redis_conn p)
                                         @ '' context''), p')
             \<and> submitted (m_qos_redis_conn p') = submitted (m_qos_redis_conn p)
             \<and> m_qos_redis_commands p' = m_qos_redis_commands p
             \<and> m_qos_redis_active_reqs p' = m_qos_redis_active_reqs p)
     else (\<exists>p'. sendToRedisQos p env = Inr p'
             \<and> submitted (m_qos_redis_conn p') = submitted (m_qos_redis_conn p)
             \<and> m_qos_redis_commands p' =
                 filter (\<lambda>kv. \<not> (now_cutoff env - m_timestamp (fst kv)
                                   > sint (m_redis_qos_ttl p) * 1000000000))
                   (m_qos_redis_commands p)
             \<and> m_qos_redis_active_reqs p' = []
             \<and> (m_total_conns_requested (m_qos_redis_conn p')
                  = (if now_connect env - m_last_redis_connect_time p
                         > m_check_conn_interval p * 1000000000
                     then m_total_conns_requested (m_qos_redis_conn p) + 1
                     else m_total_conns_requested (m_qos_redis_conn p)))
             \<and> (m_total_conns_requested (m_qos_redis_conn p')
                   \<noteq> m_total_conns_requested (m_qos_redis_conn p)
                  \<longrightarrow> now_connect env - m_last_redis_connect_time p
                        \<ge> m_check_conn_interval p * 1000000000))"
proof -
  let ?p1 = "p\<lparr>m_last_redis_flush_time := now_flush env, m_qos_not_send_count := 0\<rparr>"
  have flt: "(\<lambda>kvp. \<not> (m_timestamp (fst kvp) < now_cutoff env - sint (m_redis_qos_ttl p) * 1000000000))
            = (\<lambda>kv. \<not> (now_cutoff env - m_timestamp (fst kv) > sint (m_redis_qos_ttl p) * 1000000000))"
    by (rule ext) auto
  show ?thesis
  proof (cases "now_connect env - m_last_redis_connect_time p > m_check_conn_interval p * 1000000000")
    case False
    then have nt: "\<not> connect_throws p env" by (simp add: connect_throws_def)
    show ?thesis
      unfolding if_not_P [OF nt]
      using due disc False
      by (auto simp: sendToRedisQos_def flush_due_def Let_def word_sle_eq flt)
  next
    case True
    show ?thesis
    proof (cases "m_connection_status (m_qos_redis_conn p) = DISCONNECTED
                  \<and> attach_fails (connect_result env)")
      case thr: True
      then have t: "connect_throws p env" using True by (simp add: connect_throws_def)
      from connect_throw [of "m_qos_redis_conn p" "connect_result env" "m_logger p"] thr
      obtain c' lg' where
        c: "connect (connect_result env) (m_qos_redis_conn p, m_logger p) =
              Inl (Runtime_error (''failed to attach '' @ m_conn_id (m_qos_redis_conn p)
                                    @ '' context''), c', lg')"
        and s: "submitted c' = submitted (m_qos_redis_conn p)"
        by blast
      show ?thesis
        unfolding if_P [OF t]
        using due disc True
        by (auto simp: sendToRedisQos_def flush_due_def Let_def word_sle_eq c s)
    next
      case nothr: False
      then have nt: "\<not> connect_throws p env" by (simp add: connect_throws_def)
      from connect_no_throw [OF nothr] obtain c' lg' where
        c: "connect (connect_result env) (m_qos_redis_conn p, m_logger p) = Inr (c', lg')"
        by blast
      from connect_requested [OF c] have
        r: "m_total_conns_requested c' = m_total_conns_requested (m_qos_redis_conn p) + 1"
        and s: "submitted c' = submitted (m_qos_redis_conn p)"
        by simp_all
      show ?thesis
        unfolding if_not_P [OF nt]
        using due disc True
        by (auto simp: sendToRedisQos_def flush_due_def Let_def word_sle_eq flt c r s)
    qed
  qed
qed

text \<open>
  The theorem at second 140 on the buffered example, whose last recorded connect is of
  second 100. When the attach succeeds the entry of second 100 is dropped, the entry of
  second 139.5 stays, the gauge goes, and one connect attempt is made. When the attach
  fails the flush throws.
\<close>

theorem flush_while_disconnected_witness:
  "flush_due example_buffered example_flush_env
   \<and> \<not> connected_redis (m_qos_redis_conn example_buffered)
   \<and> \<not> connect_throws example_buffered example_flush_env
   \<and> (\<exists>p'. sendToRedisQos example_buffered example_flush_env = Inr p'
         \<and> submitted (m_qos_redis_conn p') = []
         \<and> m_qos_redis_commands p' = [(key_at 139500000000, 3)]
         \<and> m_qos_redis_active_reqs p' = []
         \<and> m_total_conns_requested (m_qos_redis_conn p') = 1)
   \<and> flush_due example_buffered (example_flush_env\<lparr>connect_result := Attach_failed (- 1)\<rparr>)
   \<and> connect_throws example_buffered (example_flush_env\<lparr>connect_result := Attach_failed (- 1)\<rparr>)
   \<and> (\<exists>p'. sendToRedisQos example_buffered
               (example_flush_env\<lparr>connect_result := Attach_failed (- 1)\<rparr>)
             = Inl (Runtime_error ''failed to attach localhost:9004 context'', p'))"
proof -
  let ?env' = "example_flush_env\<lparr>connect_result := Attach_failed (- 1)\<rparr>"
  have h1: "flush_due example_buffered example_flush_env"
    by (simp add: flush_due_def example_buffered_def example_flush_env_def example_processor_def)
  have h2: "\<not> connected_redis (m_qos_redis_conn example_buffered)"
    by (simp add: connected_redis_def example_buffered_def example_processor_def
        example_connection_def)
  have h3: "\<not> connect_throws example_buffered example_flush_env"
    by (simp add: connect_throws_def attach_fails_def example_flush_env_def)
  have h1': "flush_due example_buffered ?env'"
    by (simp add: flush_due_def example_buffered_def example_flush_env_def example_processor_def)
  have h3': "connect_throws example_buffered ?env'"
    by (simp add: connect_throws_def attach_fails_def example_flush_env_def
        example_buffered_def example_processor_def example_connection_def)
  from flush_while_disconnected [OF h1 h2] h3 obtain p' where
    r: "sendToRedisQos example_buffered example_flush_env = Inr p'"
    and s: "submitted (m_qos_redis_conn p') = submitted (m_qos_redis_conn example_buffered)"
    and c: "m_qos_redis_commands p' =
         filter (\<lambda>kv. \<not> (now_cutoff example_flush_env - m_timestamp (fst kv)
                           > sint (m_redis_qos_ttl example_buffered) * 1000000000))
           (m_qos_redis_commands example_buffered)"
    and g: "m_qos_redis_active_reqs p' = []"
    and n: "m_total_conns_requested (m_qos_redis_conn p')
          = (if now_connect example_flush_env - m_last_redis_connect_time example_buffered
                 > m_check_conn_interval example_buffered * 1000000000
             then m_total_conns_requested (m_qos_redis_conn example_buffered) + 1
             else m_total_conns_requested (m_qos_redis_conn example_buffered))"
    by auto
  have s': "submitted (m_qos_redis_conn p') = []"
    using s by (simp add: example_buffered_def example_processor_def example_connection_def)
  have c': "m_qos_redis_commands p' = [(key_at 139500000000, 3)]"
    using c by (simp add: example_buffered_def example_processor_def example_flush_env_def
        key_at_def)
  have n': "m_total_conns_requested (m_qos_redis_conn p') = 1"
    using n by (simp add: example_buffered_def example_processor_def example_flush_env_def
        example_connection_def)
  have a: "\<exists>p'. sendToRedisQos example_buffered example_flush_env = Inr p'
         \<and> submitted (m_qos_redis_conn p') = []
         \<and> m_qos_redis_commands p' = [(key_at 139500000000, 3)]
         \<and> m_qos_redis_active_reqs p' = []
         \<and> m_total_conns_requested (m_qos_redis_conn p') = 1"
    using r s' c' g n' by blast
  have id: "m_conn_id (m_qos_redis_conn example_buffered) = ''localhost:9004''"
    by (simp add: example_buffered_def example_processor_def example_connection_def)
  have b: "\<exists>p'. sendToRedisQos example_buffered ?env'
             = Inl (Runtime_error ''failed to attach localhost:9004 context'', p')"
    using flush_while_disconnected [OF h1' h2] h3' unfolding id by auto
  show ?thesis using h1 h2 h3 a h1' h3' b by blast
qed

text \<open>
  Claim C8 as stated fails in two ways.

  When the attach fails the flush throws with both maps as they were: on the buffered
  example at second 140, the entry of second 100, more than \<open>qos_ttl = 2\<close> seconds old,
  is still in the command map, and the gauge map still holds its gauge.

  The interval is not measured from the last connect attempt. When the server is
  disconnected on purpose, \<open>disconnectCallback\<close> calls \<open>connect()\<close> itself, and the time
  of that attempt is recorded nowhere. On the buffered example in state
  \<open>DISCONNECTING\<close>, the callback makes an attempt, which fails; the flush that follows
  at second 140 makes the next one, however short a time after the callback it runs,
  because the processor still remembers second 100.
\<close>

theorem flush_reconnect_counterexample:
  "flush_due example_buffered (example_flush_env\<lparr>connect_result := Attach_failed (- 1)\<rparr>)
   \<and> \<not> connected_redis (m_qos_redis_conn example_buffered)
   \<and> now_cutoff example_flush_env - m_timestamp (key_at 100000000000)
        > sint (m_redis_qos_ttl example_buffered) * 1000000000
   \<and> (\<exists>p'. sendToRedisQos example_buffered
               (example_flush_env\<lparr>connect_result := Attach_failed (- 1)\<rparr>)
             = Inl (Runtime_error ''failed to attach localhost:9004 context'', p')
         \<and> m_qos_redis_commands p' = [(key_at 100000000000, 10), (key_at 139500000000, 3)]
         \<and> m_qos_redis_active_reqs p' = [(''conn_v2_user_up_I_u$E'', 3)])
   \<and> (\<exists>c1 lg1 p2.
         disconnectCallback True [] (Context_error ''refused'')
             (example_connection\<lparr>m_connection_status := DISCONNECTING\<rparr>, []) = Inr (c1, lg1)
         \<and> m_total_conns_made c1 = 1
         \<and> \<not> connected_redis c1
         \<and> sendToRedisQos (example_buffered\<lparr>m_qos_redis_conn := c1\<rparr>)
               (example_flush_env\<lparr>connect_result := Context_error ''refused''\<rparr>) = Inr p2
         \<and> m_total_conns_made (m_qos_redis_conn p2) = 2)"
  by (simp add: sendToRedisQos_def connect_def disconnectCallback_def flush_due_def
      connected_redis_def example_buffered_def example_processor_def example_connection_def
      example_flush_env_def key_at_def Let_def)

subsection \<open>Coalescing\<close>

lemma key_eq_left:
  "key_eq k1 k \<Longrightarrow> key_eq k1 k' \<longleftrightarrow> key_eq k k'"
  by (auto simp: key_eq_def)

lemma cmd_count_add:
  "cmd_count (cmd_add m k v) k' = cmd_count m k' + (if key_eq k k' then v else 0)"
proof (induction m)
  case Nil
  then show ?case by simp
next
  case (Cons e m)
  obtain k1 x where e: "e = (k1, x)" by (cases e)
  show ?case
  proof (cases "key_eq k1 k")
    case True
    then show ?thesis using key_eq_left [OF True, of k'] by (simp add: e)
  next
    case False
    have "key_eq k k' \<Longrightarrow> key_eq k1 k' \<Longrightarrow> key_eq k1 k"
      by (simp add: key_eq_def)
    with False show ?thesis using Cons.IH by (auto simp: e)
  qed
qed

lemma processDataXfer_fields:
  assumes dx: "split_fields DELIMITER line = [pfx, src, user, dir, bytes]"
    and b: "from_chars_int bytes = Some n"
    and pr: "isPrintableASCII user" and ne: "user \<noteq> []"
  shows "processDataXfer p now line =
           Inr (p\<lparr>m_qos_redis_commands :=
                    cmd_add (m_qos_redis_commands p)
                      \<lparr>m_user = ''user_'' @ user, m_timestamp = now, m_cat = ''bnd_'' @ dir\<rparr>
                      (word_of_int n),
                  m_qos_not_send_count := m_qos_not_send_count p + 1\<rparr>)"
proof -
  have l: "length (split_fields DELIMITER line) = 5" by (simp add: dx)
  from next_n_exact_fields [OF l] obtain s' where
    n: "next_n 5 (StringSplit_new line DELIMITER) = Inr ([pfx, src, user, dir, bytes], s')"
    and f: "finishedSuccessfully s'"
    unfolding dx by blast
  show ?thesis
    unfolding processDataXfer_tokens [OF n] using f b pr ne by simp
qed

lemma processReq_fields:
  assumes req: "split_fields DELIMITER line = [pfx, src, user, verb, dir, inst, areqs, cls]"
    and a: "from_chars_int areqs = Some n"
    and pr: "isPrintableASCII user"
  shows "processReq p now_class now_verb line =
      Inr (p\<lparr>m_qos_redis_commands :=
                    cmd_add (if cls \<noteq> []
                             then cmd_add (m_qos_redis_commands p)
                                    \<lparr>m_user = ''user_'' @ user, m_timestamp = now_class, m_cat = cls\<rparr> 1
                             else m_qos_redis_commands p)
                      \<lparr>m_user = ''user_'' @ user, m_timestamp = now_verb, m_cat = verb\<rparr> 1,
                  m_qos_redis_active_reqs :=
                    AList.update (conn_key_of p dir inst user)
                      (word_of_int n) (m_qos_redis_active_reqs p),
                  m_qos_not_send_count := m_qos_not_send_count p + 1\<rparr>)"
proof -
  have l: "length (split_fields DELIMITER line) = 8" by (simp add: req)
  from next_n_exact_fields [OF l] obtain s' where
    n: "next_n 8 (StringSplit_new line DELIMITER)
          = Inr ([pfx, src, user, verb, dir, inst, areqs, cls], s')"
    and f: "finishedSuccessfully s'"
    unfolding req by blast
  show ?thesis
    unfolding processReq_tokens [OF n] using f a pr by simp
qed

lemma key_eq_same_user:
  "key_eq \<lparr>m_user = u, m_timestamp = t, m_cat = c\<rparr> \<lparr>m_user = u, m_timestamp = t', m_cat = c'\<rparr>
     \<longleftrightarrow> getEpochSecs t = getEpochSecs t' \<and> c = c'"
  by (simp add: key_eq_def)

lemma req_line_fields:
  "split_fields DELIMITER req_line = [''req'', ''1.2.3.4:80'', ''u'', ''PUT'', ''up'', ''I'', ''3'', []]"
  by code_simp

lemma req_line_class_fields:
  "split_fields DELIMITER req_line_class
     = [''req'', ''1.2.3.4:80'', ''u'', ''PUT'', ''up'', ''I'', ''3'', ''LISTBUCKETS'']"
  by code_simp

lemma xfer_4096_fields:
  "split_fields DELIMITER xfer_line_4096 = [''data_xfer'', ''1.2.3.4:80'', ''u'', ''up'', ''4096'']"
  by code_simp

lemma xfer_1024_fields:
  "split_fields DELIMITER xfer_line_1024 = [''data_xfer'', ''1.2.3.4:80'', ''u'', ''up'', ''1024'']"
  by code_simp

lemma from_chars_examples:
  "from_chars_int ''3'' = Some 3" "from_chars_int ''4096'' = Some 4096"
  "from_chars_int ''1024'' = Some 1024"
  by code_simp+

lemma printable_u: "isPrintableASCII ''u''"
  by code_simp

text \<open>
  Claim C6, amended. A \<open>req\<close> line whose fields are the eight expected ones, with a
  number as active-request count and a printable user key, adds 1 to the counter of
  (\<open>user_\<close> + user, second of the reading, verb) and, exactly when the request class is
  not empty, 1 to the counter of (\<open>user_\<close> + user, second, request class); no other
  counter changes. A \<open>data_xfer\<close> line whose fields are the five expected ones, with a
  number as byte count and a printable, non-empty user key, adds the byte count to the
  counter of (\<open>user_\<close> + user, second, \<open>bnd_\<close> + direction), and no other counter
  changes. The counters are those of the map's own key equality, for which the second of
  a reading is its \<open>getEpochSecs\<close>. The second of two such events works on the map the
  first one left: whatever the map held, each counter has grown by what both events add
  to it.

  Two such events of one user and one category, processed from an empty map, leave a
  single entry per category holding the sum when the two readings have the same
  \<open>getEpochSecs\<close>, and distinct entries otherwise: two transfers of one direction; and
  two requests of one verb and one request class, each processed at one reading of the
  clock. Two readings at or after the epoch in the same UTC second have the same
  \<open>getEpochSecs\<close>; two readings between the epoch and \<open>2^32\<close> seconds after it in
  different UTC seconds have different ones.
\<close>

theorem coalescer_counts:
  assumes req: "split_fields DELIMITER rq_line = [pfx, src, user, verb, dir, inst, areqs, cls]"
    and areqs: "from_chars_int areqs = Some n"
    and printable: "isPrintableASCII user"
    and req2: "split_fields DELIMITER rq_line2 = [pfx', src', user, verb, dir', inst', areqs', cls]"
    and areqs2: "from_chars_int areqs' = Some n'"
    and dx1: "split_fields DELIMITER dx_line1 = [pfx1, src1, user1, dir1, bytes1]"
    and b1: "from_chars_int bytes1 = Some n1"
    and dx2: "split_fields DELIMITER dx_line2 = [pfx2, src2, user1, dir1, bytes2]"
    and b2: "from_chars_int bytes2 = Some n2"
    and user1: "isPrintableASCII user1" "user1 \<noteq> []"
    and empty: "m_qos_redis_commands p0 = []"
  shows
   "(\<exists>p'. processReq p now_class now_verb rq_line = Inr p'
       \<and> (\<forall>k. cmd_count (m_qos_redis_commands p') k =
                cmd_count (m_qos_redis_commands p) k
                + (if cls \<noteq> []
                      \<and> key_eq \<lparr>m_user = ''user_'' @ user, m_timestamp = now_class, m_cat = cls\<rparr> k
                   then 1 else 0)
                + (if key_eq \<lparr>m_user = ''user_'' @ user, m_timestamp = now_verb, m_cat = verb\<rparr> k
                   then 1 else 0)))
    \<and> (\<exists>p'. processDataXfer p now dx_line1 = Inr p'
       \<and> (\<forall>k. cmd_count (m_qos_redis_commands p') k =
                cmd_count (m_qos_redis_commands p) k
                + (if key_eq \<lparr>m_user = ''user_'' @ user1, m_timestamp = now,
                             m_cat = ''bnd_'' @ dir1\<rparr> k
                   then word_of_int n1 else 0)))
    \<and> (\<exists>p1 p2. processDataXfer p t1 dx_line1 = Inr p1
       \<and> processDataXfer p1 t2 dx_line2 = Inr p2
       \<and> (\<forall>k. cmd_count (m_qos_redis_commands p2) k =
                cmd_count (m_qos_redis_commands p) k
                + (if key_eq \<lparr>m_user = ''user_'' @ user1, m_timestamp = t1,
                             m_cat = ''bnd_'' @ dir1\<rparr> k
                   then word_of_int n1 else 0)
                + (if key_eq \<lparr>m_user = ''user_'' @ user1, m_timestamp = t2,
                             m_cat = ''bnd_'' @ dir1\<rparr> k
                   then word_of_int n2 else 0)))
    \<and> (\<exists>p1 p2. processReq p tc1 tv1 rq_line = Inr p1
       \<and> processReq p1 tc2 tv2 rq_line2 = Inr p2
       \<and> (\<forall>k. cmd_count (m_qos_redis_commands p2) k =
                cmd_count (m_qos_redis_commands p) k
                + (if cls \<noteq> []
                      \<and> key_eq \<lparr>m_user = ''user_'' @ user, m_timestamp = tc1, m_cat = cls\<rparr> k
                   then 1 else 0)
                + (if key_eq \<lparr>m_user = ''user_'' @ user, m_timestamp = tv1, m_cat = verb\<rparr> k
                   then 1 else 0)
                + (if cls \<noteq> []
                      \<and> key_eq \<lparr>m_user = ''user_'' @ user, m_timestamp = tc2, m_cat = cls\<rparr> k
                   then 1 else 0)
                + (if key_eq \<lparr>m_user = ''user_'' @ user, m_timestamp = tv2, m_cat = verb\<rparr> k
                   then 1 else 0)))
    \<and> (\<exists>p1 p2. processDataXfer p0 t1 dx_line1 = Inr p1
       \<and> processDataXfer p1 t2 dx_line2 = Inr p2
       \<and> m_qos_redis_commands p2 =
           (if getEpochSecs t1 = getEpochSecs t2
            then [(\<lparr>m_user = ''user_'' @ user1, m_timestamp = t1, m_cat = ''bnd_'' @ dir1\<rparr>,
                   word_of_int n1 + word_of_int n2)]
            else [(\<lparr>m_user = ''user_'' @ user1, m_timestamp = t1, m_cat = ''bnd_'' @ dir1\<rparr>,
                   word_of_int n1),
                  (\<lparr>m_user = ''user_'' @ user1, m_timestamp = t2, m_cat = ''bnd_'' @ dir1\<rparr>,
                   word_of_int n2)]))
    \<and> (\<exists>p1 p2. processReq p0 t1 t1 rq_line = Inr p1
       \<and> processReq p1 t2 t2 rq_line2 = Inr p2
       \<and> m_qos_redis_commands p2 =
           (if cls = []
            then (if getEpochSecs t1 = getEpochSecs t2
                  then [(\<lparr>m_user = ''user_'' @ user, m_timestamp = t1, m_cat = verb\<rparr>, 2)]
                  else [(\<lparr>m_user = ''user_'' @ user, m_timestamp = t1, m_cat = verb\<rparr>, 1),
                        (\<lparr>m_user = ''user_'' @ user, m_timestamp = t2, m_cat = verb\<rparr>, 1)])
            else if cls = verb
            then (if getEpochSecs t1 = getEpochSecs t2
                  then [(\<lparr>m_user = ''user_'' @ user, m_timestamp = t1, m_cat = cls\<rparr>, 4)]
                  else [(\<lparr>m_user = ''user_'' @ user, m_timestamp = t1, m_cat = cls\<rparr>, 2),
                        (\<lparr>m_user = ''user_'' @ user, m_timestamp = t2, m_cat = cls\<rparr>, 2)])
            else (if getEpochSecs t1 = getEpochSecs t2
                  then [(\<lparr>m_user = ''user_'' @ user, m_timestamp = t1, m_cat = cls\<rparr>, 2),
                        (\<lparr>m_user = ''user_'' @ user, m_timestamp = t1, m_cat = verb\<rparr>, 2)]
                  else [(\<lparr>m_user = ''user_'' @ user, m_timestamp = t1, m_cat = cls\<rparr>, 1),
                        (\<lparr>m_user = ''user_'' @ user, m_timestamp = t1, m_cat = verb\<rparr>, 1),
                        (\<lparr>m_user = ''user_'' @ user, m_timestamp = t2, m_cat = cls\<rparr>, 1),
                        (\<lparr>m_user = ''user_'' @ user, m_timestamp = t2, m_cat = verb\<rparr>, 1)])))
    \<and> (0 \<le> t1 \<and> 0 \<le> t2 \<and> t1 div 1000000000 = t2 div 1000000000
         \<longrightarrow> getEpochSecs t1 = getEpochSecs t2)
    \<and> (0 \<le> t1 \<and> t1 < 4294967296 * 1000000000 \<and> 0 \<le> t2 \<and> t2 < 4294967296 * 1000000000
         \<and> t1 div 1000000000 \<noteq> t2 div 1000000000
         \<longrightarrow> getEpochSecs t1 \<noteq> getEpochSecs t2)"
proof (intro conjI)
  show "\<exists>p'. processReq p now_class now_verb rq_line = Inr p'
       \<and> (\<forall>k. cmd_count (m_qos_redis_commands p') k =
                cmd_count (m_qos_redis_commands p) k
                + (if cls \<noteq> []
                      \<and> key_eq \<lparr>m_user = ''user_'' @ user, m_timestamp = now_class, m_cat = cls\<rparr> k
                   then 1 else 0)
                + (if key_eq \<lparr>m_user = ''user_'' @ user, m_timestamp = now_verb, m_cat = verb\<rparr> k
                   then 1 else 0))"
    unfolding processReq_fields [OF req areqs printable]
    by (simp add: cmd_count_add)
next
  show "\<exists>p'. processDataXfer p now dx_line1 = Inr p'
       \<and> (\<forall>k. cmd_count (m_qos_redis_commands p') k =
                cmd_count (m_qos_redis_commands p) k
                + (if key_eq \<lparr>m_user = ''user_'' @ user1, m_timestamp = now,
                             m_cat = ''bnd_'' @ dir1\<rparr> k
                   then word_of_int n1 else 0))"
    unfolding processDataXfer_fields [OF dx1 b1 user1]
    by (simp add: cmd_count_add)
next
  show "\<exists>p1 p2. processDataXfer p t1 dx_line1 = Inr p1
       \<and> processDataXfer p1 t2 dx_line2 = Inr p2
       \<and> (\<forall>k. cmd_count (m_qos_redis_commands p2) k =
                cmd_count (m_qos_redis_commands p) k
                + (if key_eq \<lparr>m_user = ''user_'' @ user1, m_timestamp = t1,
                             m_cat = ''bnd_'' @ dir1\<rparr> k
                   then word_of_int n1 else 0)
                + (if key_eq \<lparr>m_user = ''user_'' @ user1, m_timestamp = t2,
                             m_cat = ''bnd_'' @ dir1\<rparr> k
                   then word_of_int n2 else 0))"
    unfolding processDataXfer_fields [OF dx1 b1 user1] processDataXfer_fields [OF dx2 b2 user1]
    by (simp add: cmd_count_add)
next
  show "\<exists>p1 p2. processReq p tc1 tv1 rq_line = Inr p1
       \<and> processReq p1 tc2 tv2 rq_line2 = Inr p2
       \<and> (\<forall>k. cmd_count (m_qos_redis_commands p2) k =
                cmd_count (m_qos_redis_commands p) k
                + (if cls \<noteq> []
                      \<and> key_eq \<lparr>m_user = ''user_'' @ user, m_timestamp = tc1, m_cat = cls\<rparr> k
                   then 1 else 0)
                + (if key_eq \<lparr>m_user = ''user_'' @ user, m_timestamp = tv1, m_cat = verb\<rparr> k
                   then 1 else 0)
                + (if cls \<noteq> []
                      \<and> key_eq \<lparr>m_user = ''user_'' @ user, m_timestamp = tc2, m_cat = cls\<rparr> k
                   then 1 else 0)
                + (if key_eq \<lparr>m_user = ''user_'' @ user, m_timestamp = tv2, m_cat = verb\<rparr> k
                   then 1 else 0))"
    unfolding processReq_fields [OF req areqs printable] processReq_fields [OF req2 areqs2 printable]
    by (simp add: cmd_count_add)
next
  show "\<exists>p1 p2. processDataXfer p0 t1 dx_line1 = Inr p1
       \<and> processDataXfer p1 t2 dx_line2 = Inr p2
       \<and> m_qos_redis_commands p2 =
           (if getEpochSecs t1 = getEpochSecs t2
            then [(\<lparr>m_user = ''user_'' @ user1, m_timestamp = t1, m_cat = ''bnd_'' @ dir1\<rparr>,
                   word_of_int n1 + word_of_int n2)]
            else [(\<lparr>m_user = ''user_'' @ user1, m_timestamp = t1, m_cat = ''bnd_'' @ dir1\<rparr>,
                   word_of_int n1),
                  (\<lparr>m_user = ''user_'' @ user1, m_timestamp = t2, m_cat = ''bnd_'' @ dir1\<rparr>,
                   word_of_int n2)])"
    unfolding processDataXfer_fields [OF dx1 b1 user1] processDataXfer_fields [OF dx2 b2 user1]
    by (simp add: empty key_eq_same_user)
next
  have sym: "getEpochSecs t2 = getEpochSecs t1 \<longleftrightarrow> getEpochSecs t1 = getEpochSecs t2"
    by auto
  show "\<exists>p1 p2. processReq p0 t1 t1 rq_line = Inr p1
       \<and> processReq p1 t2 t2 rq_line2 = Inr p2
       \<and> m_qos_redis_commands p2 =
           (if cls = []
            then (if getEpochSecs t1 = getEpochSecs t2
                  then [(\<lparr>m_user = ''user_'' @ user, m_timestamp = t1, m_cat = verb\<rparr>, 2)]
                  else [(\<lparr>m_user = ''user_'' @ user, m_timestamp = t1, m_cat = verb\<rparr>, 1),
                        (\<lparr>m_user = ''user_'' @ user, m_timestamp = t2, m_cat = verb\<rparr>, 1)])
            else if cls = verb
            then (if getEpochSecs t1 = getEpochSecs t2
                  then [(\<lparr>m_user = ''user_'' @ user, m_timestamp = t1, m_cat = cls\<rparr>, 4)]
                  else [(\<lparr>m_user = ''user_'' @ user, m_timestamp = t1, m_cat = cls\<rparr>, 2),
                        (\<lparr>m_user = ''user_'' @ user, m_timestamp = t2, m_cat = cls\<rparr>, 2)])
            else (if getEpochSecs t1 = getEpochSecs t2
                  then [(\<lparr>m_user = ''user_'' @ user, m_timestamp = t1, m_cat = cls\<rparr>, 2),
                        (\<lparr>m_user = ''user_'' @ user, m_timestamp = t1, m_cat = verb\<rparr>, 2)]
                  else [(\<lparr>m_user = ''user_'' @ user, m_timestamp = t1, m_cat = cls\<rparr>, 1),
                        (\<lparr>m_user = ''user_'' @ user, m_timestamp = t1, m_cat = verb\<rparr>, 1),
                        (\<lparr>m_user = ''user_'' @ user, m_timestamp = t2, m_cat = cls\<rparr>, 1),
                        (\<lparr>m_user = ''user_'' @ user, m_timestamp = t2, m_cat = verb\<rparr>, 1)]))"
    unfolding processReq_fields [OF req areqs printable] processReq_fields [OF req2 areqs2 printable]
    by (simp add: empty key_eq_same_user sym)
next
  show "0 \<le> t1 \<and> 0 \<le> t2 \<and> t1 div 1000000000 = t2 div 1000000000
         \<longrightarrow> getEpochSecs t1 = getEpochSecs t2"
    using epoch_secs_same_second [of t1 t2] by blast
next
  show "0 \<le> t1 \<and> t1 < 4294967296 * 1000000000 \<and> 0 \<le> t2 \<and> t2 < 4294967296 * 1000000000
         \<and> t1 div 1000000000 \<noteq> t2 div 1000000000
         \<longrightarrow> getEpochSecs t1 \<noteq> getEpochSecs t2"
    using epoch_secs_eq_iff [of t1 t2] by blast
qed

text \<open>
  The theorem on the lines of the coalescing scenario: the request at 10.100 s counts one
  \<open>PUT\<close>; 4096 bytes at 10.100 s and 1024 bytes at 10.999 s make one entry of 5120
  bytes; 4096 bytes at 10.999 s and 1024 bytes at 11.001 s make two entries. And on a
  request of class \<open>LISTBUCKETS\<close>: two of them at 10.100 s and 10.999 s make one entry
  of 2 for the class and one of 2 for the verb.
\<close>

theorem coalescer_counts_witness:
  "(\<exists>p'. processReq example_processor 10100000000 10100000000 req_line = Inr p'
       \<and> cmd_count (m_qos_redis_commands p') (key_at 10100000000) = 1
       \<and> m_qos_redis_commands p' = [(key_at 10100000000, 1)])
   \<and> (0 :: int) \<le> 10100000000 \<and> (0 :: int) \<le> 10999000000
   \<and> (10100000000 :: int) div 1000000000 = 10999000000 div 1000000000
   \<and> getEpochSecs 10100000000 = getEpochSecs 10999000000
   \<and> (\<exists>p1 p2. processDataXfer example_processor 10100000000 xfer_line_4096 = Inr p1
       \<and> processDataXfer p1 10999000000 xfer_line_1024 = Inr p2
       \<and> m_qos_redis_commands p2 =
            [(\<lparr>m_user = ''user_u'', m_timestamp = 10100000000, m_cat = ''bnd_up''\<rparr>, 5120)])
   \<and> (10999000000 :: int) < 4294967296 * 1000000000
   \<and> (0 :: int) \<le> 11001000000 \<and> (11001000000 :: int) < 4294967296 * 1000000000
   \<and> (10999000000 :: int) div 1000000000 \<noteq> 11001000000 div 1000000000
   \<and> getEpochSecs 10999000000 \<noteq> getEpochSecs 11001000000
   \<and> (\<exists>p1 p2. processDataXfer example_processor 10999000000 xfer_line_4096 = Inr p1
       \<and> processDataXfer p1 11001000000 xfer_line_1024 = Inr p2
       \<and> m_qos_redis_commands p2 =
            [(\<lparr>m_user = ''user_u'', m_timestamp = 10999000000, m_cat = ''bnd_up''\<rparr>, 4096),
             (\<lparr>m_user = ''user_u'', m_timestamp = 11001000000, m_cat = ''bnd_up''\<rparr>, 1024)])
   \<and> (\<exists>p1 p2. processReq example_processor 10100000000 10100000000 req_line_class = Inr p1
       \<and> processReq p1 10999000000 10999000000 req_line_class = Inr p2
       \<and> m_qos_redis_commands p2 =
            [(\<lparr>m_user = ''user_u'', m_timestamp = 10100000000, m_cat = ''LISTBUCKETS''\<rparr>, 2),
             (\<lparr>m_user = ''user_u'', m_timestamp = 10100000000, m_cat = ''PUT''\<rparr>, 2)])"
proof -
  have e: "m_qos_redis_commands example_processor = []" by (simp add: example_processor_def)
  note w1 = coalescer_counts [OF req_line_class_fields from_chars_examples(1) printable_u
      req_line_class_fields from_chars_examples(1)
      xfer_4096_fields from_chars_examples(2) xfer_1024_fields from_chars_examples(3)
      printable_u _ e, where ?t1.0 = 10100000000 and ?t2.0 = 10999000000]
  note w2 = coalescer_counts [OF req_line_fields from_chars_examples(1) printable_u
      req_line_fields from_chars_examples(1)
      xfer_4096_fields from_chars_examples(2) xfer_1024_fields from_chars_examples(3)
      printable_u _ e, where ?t1.0 = 10999000000 and ?t2.0 = 11001000000]
  have s1: "getEpochSecs 10100000000 = getEpochSecs 10999000000"
    using w1 by simp
  have s2: "getEpochSecs 10999000000 \<noteq> getEpochSecs 11001000000"
    using w2 by simp
  have a: "\<exists>p'. processReq example_processor 10100000000 10100000000 req_line = Inr p'
       \<and> cmd_count (m_qos_redis_commands p') (key_at 10100000000) = 1
       \<and> m_qos_redis_commands p' = [(key_at 10100000000, 1)]"
    unfolding processReq_fields [OF req_line_fields from_chars_examples(1) printable_u]
    by (simp add: e key_at_def key_eq_def)
  have b: "\<exists>p1 p2. processDataXfer example_processor 10100000000 xfer_line_4096 = Inr p1
       \<and> processDataXfer p1 10999000000 xfer_line_1024 = Inr p2
       \<and> m_qos_redis_commands p2 =
            [(\<lparr>m_user = ''user_u'', m_timestamp = 10100000000, m_cat = ''bnd_up''\<rparr>, 5120)]"
    using w1 s1 by simp
  have c: "\<exists>p1 p2. processDataXfer example_processor 10999000000 xfer_line_4096 = Inr p1
       \<and> processDataXfer p1 11001000000 xfer_line_1024 = Inr p2
       \<and> m_qos_redis_commands p2 =
            [(\<lparr>m_user = ''user_u'', m_timestamp = 10999000000, m_cat = ''bnd_up''\<rparr>, 4096),
             (\<lparr>m_user = ''user_u'', m_timestamp = 11001000000, m_cat = ''bnd_up''\<rparr>, 1024)]"
    using w2 s2 by simp
  have d: "\<exists>p1 p2. processReq example_processor 10100000000 10100000000 req_line_class = Inr p1
       \<and> processReq p1 10999000000 10999000000 req_line_class = Inr p2
       \<and> m_qos_redis_commands p2 =
            [(\<lparr>m_user = ''user_u'', m_timestamp = 10100000000, m_cat = ''LISTBUCKETS''\<rparr>, 2),
             (\<lparr>m_user = ''user_u'', m_timestamp = 10100000000, m_cat = ''PUT''\<rparr>, 2)]"
    using w1 s1 by simp
  show ?thesis using a b c d s1 s2 by simp
qed

text \<open>
  Claim C6 as stated fails where \<open>getEpochSecs\<close> no longer tells the UTC seconds
  apart. Two transfers \<open>2^32\<close> seconds apart accumulate into one entry of 5120 bytes;
  so do a transfer half a second before the epoch and one half a second after it, on
  either side of a second boundary. And a transfer one second before the epoch and one
  half a second before it, in the same UTC second, make two entries.
\<close>

theorem coalescer_outside_range_counterexample:
  "(10100000000 :: int) div 1000000000 \<noteq> 4294967306100000000 div 1000000000
   \<and> (\<exists>p1 p2. processDataXfer example_processor 10100000000 xfer_line_4096 = Inr p1
       \<and> processDataXfer p1 4294967306100000000 xfer_line_1024 = Inr p2
       \<and> m_qos_redis_commands p2 =
            [(\<lparr>m_user = ''user_u'', m_timestamp = 10100000000, m_cat = ''bnd_up''\<rparr>, 5120)])
   \<and> (- 500000000 :: int) div 1000000000 \<noteq> 500000000 div 1000000000
   \<and> (\<exists>p1 p2. processDataXfer example_processor (- 500000000) xfer_line_4096 = Inr p1
       \<and> processDataXfer p1 500000000 xfer_line_1024 = Inr p2
       \<and> m_qos_redis_commands p2 =
            [(\<lparr>m_user = ''user_u'', m_timestamp = - 500000000, m_cat = ''bnd_up''\<rparr>, 5120)])
   \<and> (- 1000000000 :: int) div 1000000000 = (- 500000000) div 1000000000
   \<and> (\<exists>p1 p2. processDataXfer example_processor (- 1000000000) xfer_line_4096 = Inr p1
       \<and> processDataXfer p1 (- 500000000) xfer_line_1024 = Inr p2
       \<and> m_qos_redis_commands p2 =
            [(\<lparr>m_user = ''user_u'', m_timestamp = - 1000000000, m_cat = ''bnd_up''\<rparr>, 4096),
             (\<lparr>m_user = ''user_u'', m_timestamp = - 500000000, m_cat = ''bnd_up''\<rparr>, 1024)])"
  unfolding processDataXfer_fields [OF xfer_4096_fields from_chars_examples(2) printable_u, simplified]
    processDataXfer_fields [OF xfer_1024_fields from_chars_examples(3) printable_u, simplified]
  by (simp add: example_processor_def key_eq_def getEpochSecs_def signed_divide_int_def)

subsection \<open>Transfers without a user\<close>

text \<open>
  Claim C9. When the five calls of \<open>next()\<close> on a \<open>data_xfer\<close> line finish
  successfully and the length converts, an empty user key makes \<open>processDataXfer\<close>
  return with the processor unchanged: no entry, no count, no log line. A user key that
  is not printable adds one error line to the log and nothing else.
\<close>

theorem data_xfer_empty_user_ignored:
  assumes tok: "next_n 5 (StringSplit_new raw DELIMITER) = Inr ([pfx, src, user, dir, len_str], s)"
    and fin: "finishedSuccessfully s"
    and len: "from_chars_int len_str = Some n"
  shows "(user = [] \<longrightarrow> processDataXfer p now raw = Inr p)
       \<and> (\<not> isPrintableASCII user \<longrightarrow>
            processDataXfer p now raw =
              Inr (p\<lparr>m_logger := m_logger p @ [(Error, ''Invalid access key: '' @ user)]\<rparr>))"
  unfolding processDataXfer_tokens [OF tok]
  using fin len by (auto simp: isPrintableASCII_def log_error_def)

lemma no_user_tokens:
  "next_n 5 (StringSplit_new xfer_line_no_user DELIMITER) =
     Inr ([''data_xfer'', ''1.2.3.4:80'', [], ''up'', ''4096''],
          \<lparr>m_input = xfer_line_no_user, m_delimiter = DELIMITER, m_index = 37,
            m_error = False, m_eof = True\<rparr>)"
  by code_simp

lemma bad_user_tokens:
  "next_n 5 (StringSplit_new xfer_line_bad_user DELIMITER) =
     Inr ([''data_xfer'', ''1.2.3.4:80'', [char_of (7 :: nat)], ''up'', ''4096''],
          \<lparr>m_input = xfer_line_bad_user, m_delimiter = DELIMITER, m_index = 38,
            m_error = False, m_eof = True\<rparr>)"
  by code_simp

lemma finished_examples:
  "finishedSuccessfully \<lparr>m_input = xfer_line_no_user, m_delimiter = DELIMITER, m_index = 37,
            m_error = False, m_eof = True\<rparr>"
  "finishedSuccessfully \<lparr>m_input = xfer_line_bad_user, m_delimiter = DELIMITER, m_index = 38,
            m_error = False, m_eof = True\<rparr>"
  by code_simp+

lemma bad_user_unprintable: "\<not> isPrintableASCII [char_of (7 :: nat)]"
  by code_simp

text \<open>The theorem on a line with an empty user field and on one whose user is the byte 7.\<close>

theorem data_xfer_empty_user_ignored_witness:
  "processDataXfer example_buffered 140000000000 xfer_line_no_user = Inr example_buffered
   \<and> processDataXfer example_buffered 140000000000 xfer_line_bad_user =
       Inr (example_buffered\<lparr>m_logger := [(Error, ''Invalid access key: '' @ [char_of (7 :: nat)])]\<rparr>)"
proof -
  have l: "m_logger example_buffered = []"
    by (simp add: example_buffered_def example_processor_def)
  show ?thesis
    using data_xfer_empty_user_ignored [OF no_user_tokens finished_examples(1)
        from_chars_examples(2), of example_buffered 140000000000]
      data_xfer_empty_user_ignored [OF bad_user_tokens finished_examples(2)
        from_chars_examples(2), of example_buffered 140000000000]
      bad_user_unprintable l
    by simp
qed

subsection \<open>Field counts\<close>

text \<open>
  Claim C10, amended. For a non-empty delimiter, \<open>k\<close> calls of \<open>next()\<close> never throw
  and return the first \<open>k\<close> fields of the input, then empty views. The splitter is in
  its error state exactly when more calls were made than there are fields, and then
  \<open>finishedSuccessfully()\<close> is false, however many calls follow.
  \<open>finishedSuccessfully()\<close> is true exactly when the input has \<open>k\<close> fields, or has
  \<open>k + 1\<close> fields of which the last is empty (the input ends with the delimiter).
  So each of the four event parsers counts an event only if its line has the expected
  number of fields, or one more with an empty last one: 8 or 9 for \<open>processReq\<close>, 5 or 6
  for \<open>processDataXfer\<close> and \<open>processActiveRequests\<close>, 7 or 8 for \<open>processReqEnd\<close>.
\<close>

theorem tokenizer_field_count:
  assumes d: "d \<noteq> []"
  shows "(\<exists>s'. next_n k (StringSplit_new raw d) =
              Inr (take k (split_fields d raw) @ replicate (k - length (split_fields d raw)) [], s')
           \<and> (m_error s' \<longleftrightarrow> length (split_fields d raw) < k)
           \<and> (finishedSuccessfully s' \<longleftrightarrow>
                (length (split_fields d raw) = k
                 \<or> (length (split_fields d raw) = Suc k \<and> last (split_fields d raw) = []))))
       \<and> (\<exists>p'. processReq p now_class now_verb line = Inr p'
           \<and> (m_qos_not_send_count p' \<noteq> m_qos_not_send_count p \<longrightarrow>
                 length (split_fields DELIMITER line) = 8
                 \<or> (length (split_fields DELIMITER line) = 9
                     \<and> last (split_fields DELIMITER line) = [])))
       \<and> (\<exists>p'. processDataXfer p now line = Inr p'
           \<and> (m_qos_not_send_count p' \<noteq> m_qos_not_send_count p \<longrightarrow>
                 length (split_fields DELIMITER line) = 5
                 \<or> (length (split_fields DELIMITER line) = 6
                     \<and> last (split_fields DELIMITER line) = [])))
       \<and> (\<exists>p'. processActiveRequests p line = Inr p'
           \<and> (m_qos_not_send_count p' \<noteq> m_qos_not_send_count p \<longrightarrow>
                 length (split_fields DELIMITER line) = 5
                 \<or> (length (split_fields DELIMITER line) = 6
                     \<and> last (split_fields DELIMITER line) = [])))
       \<and> (\<exists>p'. processReqEnd p line = Inr p'
           \<and> (m_qos_not_send_count p' \<noteq> m_qos_not_send_count p \<longrightarrow>
                 length (split_fields DELIMITER line) = 7
                 \<or> (length (split_fields DELIMITER line) = 8
                     \<and> last (split_fields DELIMITER line) = [])))"
proof (intro conjI)
  show "\<exists>s'. next_n k (StringSplit_new raw d) =
              Inr (take k (split_fields d raw) @ replicate (k - length (split_fields d raw)) [], s')
           \<and> (m_error s' \<longleftrightarrow> length (split_fields d raw) < k)
           \<and> (finishedSuccessfully s' \<longleftrightarrow>
                (length (split_fields d raw) = k
                 \<or> (length (split_fields d raw) = Suc k \<and> last (split_fields d raw) = [])))"
    using next_n_new [OF d, of k raw] by blast
qed (rule processReq_accepts_only processDataXfer_accepts_only
       processActiveRequests_accepts_only processReqEnd_accepts_only)+

lemma blank_last_fields: "split_fields '','' ''q,r,,s,'' = [''q'', ''r'', [], ''s'', []]"
  by code_simp

lemma xfer_trailing_fields:
  "split_fields DELIMITER xfer_line_trailing
     = [''data_xfer'', ''1.2.3.4:80'', ''u'', ''up'', ''4096'', []]"
  by code_simp

lemma xfer_trailing_tokens:
  "next_n 5 (StringSplit_new xfer_line_trailing DELIMITER) =
     Inr ([''data_xfer'', ''1.2.3.4:80'', ''u'', ''up'', ''4096''],
          \<lparr>m_input = xfer_line_trailing, m_delimiter = DELIMITER, m_index = 41,
            m_error = False, m_eof = False\<rparr>)"
  by code_simp

lemma xfer_trailing_finished:
  "finishedSuccessfully \<lparr>m_input = xfer_line_trailing, m_delimiter = DELIMITER, m_index = 41,
            m_error = False, m_eof = False\<rparr>"
  by code_simp

lemma active_reqs_line_fields:
  "split_fields DELIMITER active_reqs_line = [''active_reqs'', ''I'', ''u'', ''up'', ''7'']"
  by code_simp

lemma req_end_line_fields:
  "split_fields DELIMITER req_end_line
     = [''req_end'', ''1.2.3.4:80'', ''u'', ''PUT'', ''up'', ''I'', ''7'']"
  by code_simp

lemma from_chars_7: "from_chars_int ''7'' = Some 7"
  by code_simp

lemma processActiveRequests_fields:
  assumes ar: "split_fields DELIMITER line = [pfx, inst, user, dir, areqs]"
    and a: "from_chars_int areqs = Some n"
  shows "processActiveRequests p line =
           Inr (p\<lparr>m_qos_redis_active_reqs :=
                    AList.update (conn_key_of p dir inst user)
                      (word_of_int n) (m_qos_redis_active_reqs p),
                  m_qos_not_send_count := m_qos_not_send_count p + 1\<rparr>)"
proof -
  have l: "length (split_fields DELIMITER line) = 5" by (simp add: ar)
  from next_n_exact_fields [OF l] obtain s' where
    n: "next_n 5 (StringSplit_new line DELIMITER) = Inr ([pfx, inst, user, dir, areqs], s')"
    and f: "finishedSuccessfully s'"
    unfolding ar by blast
  show ?thesis
    unfolding processActiveRequests_tokens [OF n] using f a by simp
qed

lemma processReqEnd_fields:
  assumes re: "split_fields DELIMITER line = [pfx, src, user, verb, dir, inst, areqs]"
    and a: "from_chars_int areqs = Some n"
  shows "processReqEnd p line =
           Inr (p\<lparr>m_qos_redis_active_reqs :=
                    AList.update (conn_key_of p dir inst user)
                      (word_of_int n) (m_qos_redis_active_reqs p),
                  m_qos_not_send_count := m_qos_not_send_count p + 1\<rparr>)"
proof -
  have l: "length (split_fields DELIMITER line) = 7" by (simp add: re)
  from next_n_exact_fields [OF l] obtain s' where
    n: "next_n 7 (StringSplit_new line DELIMITER)
          = Inr ([pfx, src, user, verb, dir, inst, areqs], s')"
    and f: "finishedSuccessfully s'"
    unfolding re by blast
  show ?thesis
    unfolding processReqEnd_tokens [OF n] using f a by simp
qed

text \<open>
  The theorem on the input \<open>q,r,,s,\<close> of the repository's own test: five calls return
  the five fields and finish successfully, seven calls end in the error state; and on
  lines of the four kinds, each with the expected number of fields and counted.
\<close>

theorem tokenizer_field_count_witness:
  "'','' \<noteq> []
   \<and> (\<exists>s'. next_n 5 (StringSplit_new ''q,r,,s,'' '','') = Inr ([''q'', ''r'', [], ''s'', []], s')
         \<and> \<not> m_error s' \<and> finishedSuccessfully s')
   \<and> (\<exists>s'. next_n 7 (StringSplit_new ''q,r,,s,'' '','')
               = Inr ([''q'', ''r'', [], ''s'', [], [], []], s')
         \<and> m_error s' \<and> \<not> finishedSuccessfully s')
   \<and> (\<exists>p'. processReq example_processor 10100000000 10100000000 req_line = Inr p'
         \<and> m_qos_not_send_count p' \<noteq> m_qos_not_send_count example_processor
         \<and> length (split_fields DELIMITER req_line) = 8)
   \<and> (\<exists>p'. processDataXfer example_processor 10100000000 xfer_line_4096 = Inr p'
         \<and> m_qos_not_send_count p' \<noteq> m_qos_not_send_count example_processor
         \<and> length (split_fields DELIMITER xfer_line_4096) = 5)
   \<and> (\<exists>p'. processActiveRequests example_processor active_reqs_line = Inr p'
         \<and> m_qos_not_send_count p' \<noteq> m_qos_not_send_count example_processor
         \<and> length (split_fields DELIMITER active_reqs_line) = 5)
   \<and> (\<exists>p'. processReqEnd example_processor req_end_line = Inr p'
         \<and> m_qos_not_send_count p' \<noteq> m_qos_not_send_count example_processor
         \<and> length (split_fields DELIMITER req_end_line) = 7)"
proof -
  have d: "'','' \<noteq> []" by simp
  have a: "\<exists>s'. next_n 5 (StringSplit_new ''q,r,,s,'' '','') = Inr ([''q'', ''r'', [], ''s'', []], s')
         \<and> \<not> m_error s' \<and> finishedSuccessfully s'"
    using tokenizer_field_count [OF d, of 5 "''q,r,,s,''"]
    unfolding blank_last_fields by simp
  have b: "\<exists>s'. next_n 7 (StringSplit_new ''q,r,,s,'' '','')
               = Inr ([''q'', ''r'', [], ''s'', [], [], []], s')
         \<and> m_error s' \<and> \<not> finishedSuccessfully s'"
    using tokenizer_field_count [OF d, of 7 "''q,r,,s,''"]
    unfolding blank_last_fields by (simp add: numeral_eq_Suc)
  have r: "\<exists>p'. processReq example_processor 10100000000 10100000000 req_line = Inr p'
         \<and> m_qos_not_send_count p' \<noteq> m_qos_not_send_count example_processor
         \<and> length (split_fields DELIMITER req_line) = 8"
    unfolding processReq_fields [OF req_line_fields from_chars_examples(1) printable_u]
    by (simp add: req_line_fields)
  have c: "\<exists>p'. processDataXfer example_processor 10100000000 xfer_line_4096 = Inr p'
         \<and> m_qos_not_send_count p' \<noteq> m_qos_not_send_count example_processor
         \<and> length (split_fields DELIMITER xfer_line_4096) = 5"
    unfolding processDataXfer_fields [OF xfer_4096_fields from_chars_examples(2) printable_u, simplified]
    by (simp add: xfer_4096_fields)
  have e: "\<exists>p'. processActiveRequests example_processor active_reqs_line = Inr p'
         \<and> m_qos_not_send_count p' \<noteq> m_qos_not_send_count example_processor
         \<and> length (split_fields DELIMITER active_reqs_line) = 5"
    unfolding processActiveRequests_fields [OF active_reqs_line_fields from_chars_7]
    by (simp add: active_reqs_line_fields)
  have f: "\<exists>p'. processReqEnd example_processor req_end_line = Inr p'
         \<and> m_qos_not_send_count p' \<noteq> m_qos_not_send_count example_processor
         \<and> length (split_fields DELIMITER req_end_line) = 7"
    unfolding processReqEnd_fields [OF req_end_line_fields from_chars_7]
    by (simp add: req_end_line_fields)
  show ?thesis using d a b r c e f by blast
qed

text \<open>
  Claim C10 as stated fails on a line that ends with the delimiter: a \<open>data_xfer\<close>
  line with six fields, the last one empty, is accepted and counted.
\<close>

theorem trailing_delimiter_accepted_counterexample:
  "length (split_fields DELIMITER xfer_line_trailing) = 6
   \<and> processDataXfer example_processor 10100000000 xfer_line_trailing =
       Inr (example_processor
              \<lparr>m_qos_redis_commands :=
                 [(\<lparr>m_user = ''user_u'', m_timestamp = 10100000000, m_cat = ''bnd_up''\<rparr>, 4096)],
               m_qos_not_send_count := 1\<rparr>)"
  unfolding processDataXfer_tokens [OF xfer_trailing_tokens]
  using xfer_trailing_finished
  by (simp add: xfer_trailing_fields from_chars_examples printable_u example_processor_def)

end
